theory Spec2Isabelle
  imports Complex_Main
begin

section \<open>The training-loop driver of tools/train\_utils/train\_utils.py\<close>

text \<open>
  The file embeds \<^verbatim>\<open>train_one_epoch\<close>, \<^verbatim>\<open>train_model\<close>,
  \<^verbatim>\<open>model_state_to_cpu\<close>, \<^verbatim>\<open>checkpoint_state\<close> and
  \<^verbatim>\<open>save_checkpoint\<close>. Python integers are \<open>int\<close>, wall-clock readings and
  losses are \<open>real\<close> (the rounding of floats is not modelled), every exception the
  driver itself can raise is a value of \<open>error\<close>. The model, the optimizer, the loss
  function, the clock and the file system are collaborators: what they return is an
  input of the model, what the driver does to them is recorded in the state.
  An exception raised inside a collaborator ends the run in the source and is not
  part of the model. The calls that only report (the progress bars, tensorboard, the
  run-tracking service, \<^verbatim>\<open>print\<close>) and \<^verbatim>\<open>train_sampler.set_epoch\<close> leave no trace
  in the state; of the display dictionary a progress line keeps the average loss, the
  averages of the head losses and the learning rate. The disk of the model lists the
  files by their paths; \<^verbatim>\<open>ckpt_save_dir\<close> is the path of the checkpoint directory, as
  the string \<^verbatim>\<open>str(ckpt_save_dir)\<close>.
\<close>

datatype error = ZeroDivisionError | StopIteration | IndexError | AssertionError

definition bind_err :: "error + 'a \<Rightarrow> ('a \<Rightarrow> error + 'b) \<Rightarrow> error + 'b" where
  "bind_err r f = (case r of Inl e \<Rightarrow> Inl e | Inr v \<Rightarrow> f v)"

subsection \<open>Checkpoint subsystem\<close>

text \<open>
  A tensor lives on a device; torch's \<^verbatim>\<open>Tensor.cpu()\<close> returns the same values on the
  host. A \<^verbatim>\<open>state_dict\<close> is an ordered dictionary, kept as an association list.
\<close>

datatype device = CPU | CUDA nat

record tensor =
  device :: device
  payload :: "real list"

definition cpu :: "tensor \<Rightarrow> tensor" where
  "cpu t = t\<lparr>device := CPU\<rparr>"

type_synonym state_dict = "(string \<times> tensor) list"

text \<open>
  A model is a plain module or a \<^verbatim>\<open>DistributedDataParallel\<close> wrapper; the argument
  of either constructor is the state\_dict of the (inner) module, which is all that
  \<^verbatim>\<open>checkpoint_state\<close> reads.
\<close>

datatype model = Module state_dict | DistributedDataParallel state_dict

record optimizer =
  opt_lr :: real
  opt_state_dict :: state_dict

record checkpoint =
  epoch :: "int option"
  it :: "int option"
  model_state :: "state_dict option"
  optimizer_state :: "state_dict option"
  version :: string

text \<open>Lines 270-274: a fresh ordered dictionary with every value moved to the host.\<close>

fun model_state_to_cpu :: "state_dict \<Rightarrow> state_dict" where
  "model_state_to_cpu [] = []"
| "model_state_to_cpu ((key, val) # rest) = (key, cpu val) # model_state_to_cpu rest"

text \<open>
  Lines 277-293. The first argument is \<^verbatim>\<open>pcdet.__version__\<close> when the import
  succeeds and \<open>None\<close> when it raises.
\<close>

definition checkpoint_state ::
  "string option \<Rightarrow> model option \<Rightarrow> optimizer option \<Rightarrow> int option \<Rightarrow> int option \<Rightarrow> checkpoint" where
  "checkpoint_state pver mdl optim ep iter =
     (let optim_state = (case optim of Some opt \<Rightarrow> Some (opt_state_dict opt) | None \<Rightarrow> None);
          mstate = (case mdl of
                      Some (DistributedDataParallel inner) \<Rightarrow> Some (model_state_to_cpu inner)
                    | Some (Module sd) \<Rightarrow> Some sd
                    | None \<Rightarrow> None);
          ver = (case pver of Some v \<Rightarrow> ''pcdet+'' @ v | None \<Rightarrow> ''none'')
      in \<lparr>epoch = ep, it = iter, model_state = mstate, optimizer_state = optim_state,
          version = ver\<rparr>)"

text \<open>
  \<^verbatim>\<open>torch.__version__\<close> is a plain string up to torch 1.9 and a \<^verbatim>\<open>TorchVersion\<close>
  from torch 1.10 on. Python compares plain strings by code point, a proper prefix
  being smaller. A \<^verbatim>\<open>TorchVersion\<close> is compared with \<^verbatim>\<open>'1.4'\<close> as a version: by the numbers
  of its release, trailing zeros not counting, and a pre-release or development
  release comes before the release of its numbers. The second constructor carries
  these numbers and whether the version is such a pre-release.
\<close>

datatype torch_version = PlainStr string | TorchVersion "nat list" bool

fun str_ge :: "string \<Rightarrow> string \<Rightarrow> bool" where
  "str_ge _ [] = True"
| "str_ge [] (_ # _) = False"
| "str_ge (a # as) (b # bs) =
     (if (of_char a :: nat) > of_char b then True
      else if (of_char a :: nat) < of_char b then False
      else str_ge as bs)"

fun release_less :: "nat list \<Rightarrow> nat list \<Rightarrow> bool" where
  "release_less [] [] = False"
| "release_less [] (b # bs) = (0 < b \<or> release_less [] bs)"
| "release_less (a # as) [] = False"
| "release_less (a # as) (b # bs) = (a < b \<or> (a = b \<and> release_less as bs))"

text \<open>The comparison \<^verbatim>\<open>torch.__version__ >= '1.4'\<close> of lines 301 and 307.\<close>

fun version_ge_1_4 :: "torch_version \<Rightarrow> bool" where
  "version_ge_1_4 (PlainStr s) = str_ge s ''1.4''"
| "version_ge_1_4 (TorchVersion release pre) =
     (if pre then release_less [1, 4] release else \<not> release_less release [1, 4])"

text \<open>
  The disk: the path of a file, then modification time, content and the
  serialization format \<^verbatim>\<open>torch.save\<close> was asked for (\<open>Legacy\<close> is
  \<^verbatim>\<open>_use_new_zipfile_serialization=False\<close>, \<open>Default\<close> is the call without it).
\<close>

datatype format = Legacy | Default

record ckpt_file =
  mtime :: real
  content :: checkpoint
  fmt :: format

type_synonym directory = "(string \<times> ckpt_file) list"

text \<open>
  \<^verbatim>\<open>ckpt_save_dir / name\<close>, as a string: the path of the directory, a slash, the name.
\<close>

definition path_join :: "string \<Rightarrow> string \<Rightarrow> string" where
  "path_join d name = d @ ''/'' @ name"

text \<open>Writing a file replaces the file of that path or creates it.\<close>

fun write_file :: "string \<Rightarrow> ckpt_file \<Rightarrow> directory \<Rightarrow> directory" where
  "write_file name f [] = [(name, f)]"
| "write_file name f ((n, g) # rest) =
     (if n = name then (n, f) # rest else (n, g) # write_file name f rest)"

definition torch_save :: "real \<Rightarrow> checkpoint \<Rightarrow> string \<Rightarrow> format \<Rightarrow> directory \<Rightarrow> directory" where
  "torch_save now state filename how dir =
     write_file filename \<lparr>mtime = now, content = state, fmt = how\<rparr> dir"

text \<open>
  Lines 296-310. \<open>tver\<close> is \<^verbatim>\<open>torch.__version__\<close>, \<open>now\<close> the time the
  file system stamps on the file. The branch guarded by \<^verbatim>\<open>False and ...\<close> never runs.
\<close>

definition save_checkpoint ::
  "torch_version \<Rightarrow> real \<Rightarrow> checkpoint \<Rightarrow> string \<Rightarrow> directory \<Rightarrow> directory" where
  "save_checkpoint tver now state filename dir =
     (let filename' = filename @ ''.pth''
      in if version_ge_1_4 tver
         then torch_save now state filename' Legacy dir
         else torch_save now state filename' Default dir)"

subsection \<open>Rolling statistics\<close>

text \<open>
  Modelled from the spec: the class \<^verbatim>\<open>AverageMeter\<close> of \<^verbatim>\<open>pcdet.utils.common_utils\<close>
  is not under src/. The spec describes a meter as tracking a scalar's most recent
  value and its running average over the window since the last reset.
\<close>

record meter =
  m_val :: real
  m_sum :: real
  m_count :: nat

text \<open>Modelled from the spec: a meter that has been reset is empty.\<close>

definition reset :: meter where
  "reset = \<lparr>m_val = 0, m_sum = 0, m_count = 0\<rparr>"

text \<open>Modelled from the spec: an update records the value as the most recent one and adds it to the window.\<close>

definition update :: "real \<Rightarrow> meter \<Rightarrow> meter" where
  "update v m = \<lparr>m_val = v, m_sum = m_sum m + v, m_count = m_count m + 1\<rparr>"

text \<open>Modelled from the spec: the running average over the window (0 for an empty window).\<close>

definition avg :: "meter \<Rightarrow> real" where
  "avg m = (if m_count m = 0 then 0 else m_sum m / of_nat (m_count m))"

subsection \<open>Collaborators, settings and state\<close>

datatype scheduler = Main_scheduler | Warmup_scheduler

text \<open>
  Lines 63-89 only call collaborators: the scheduler is stepped with the global step
  counter, the learning rate is read, the loss function runs on the batch, gradients are
  clipped, the optimizer steps. Their combined outcome is \<open>train_step\<close>.
\<close>

record step_result =
  new_model :: model
  new_optimizer :: optimizer
  cur_lr :: real
  loss :: real
  tb_dict :: "(string \<times> real) list"
  total_norm :: real

text \<open>
  The clock readings of one iteration: the three phase times after
  \<^verbatim>\<open>average_reduce_value\<close>, the value of \<^verbatim>\<open>tbar.format_dict['elapsed']\<close> (line 130),
  of \<^verbatim>\<open>pbar.format_dict['elapsed']\<close> at lines 131, 133 and 167, and the time the file
  system stamps on a file written in this iteration.
\<close>

record readings =
  avg_data_time :: real
  avg_forward_time :: real
  avg_batch_time :: real
  tbar_elapsed :: real
  pbar_elapsed_rate :: real
  pbar_elapsed_epoch :: real
  pbar_elapsed_ckpt :: real
  file_time :: real

record 'b collab =
  train_step :: "scheduler \<Rightarrow> int \<Rightarrow> model \<Rightarrow> optimizer \<Rightarrow> 'b \<Rightarrow> step_result"
  batch_size_of :: "'b \<Rightarrow> int option"
  clock :: "int \<Rightarrow> int \<Rightarrow> readings"
  epoch_file_time :: "int \<Rightarrow> real"
  pcdet_version :: "string option"
  torch_version :: torch_version
  dataset_merge :: "(int \<Rightarrow> 'b list \<Rightarrow> 'b list) option"

record hook_cfg =
  NUM_LAST_EPOCHS :: int
  DISABLE_AUG_LIST :: "string list"

text \<open>
  The arguments of \<^verbatim>\<open>train_model\<close> that are plain values. \<open>has_warmup\<close> is
  \<^verbatim>\<open>lr_warmup_scheduler is not None\<close>, \<open>DisableAugmentationHook\<close> is \<open>None\<close> when
  \<^verbatim>\<open>cfg\<close> has no \<^verbatim>\<open>HOOK\<close> or the hook has no such entry.
\<close>

record settings =
  rank :: int
  total_epochs :: int
  use_logger_to_record :: bool
  logger_iter_interval :: int
  ckpt_save_dir :: string
  ckpt_save_time_interval :: int
  show_gpu_stat :: bool
  start_epoch :: int
  start_iter :: int
  ckpt_save_interval :: int
  max_ckpt_save_num :: int
  merge_all_iters_to_one_epoch :: bool
  has_warmup :: bool
  WARMUP_EPOCH :: int
  DisableAugmentationHook :: "hook_cfg option"

text \<open>What \<^verbatim>\<open>logger.info\<close> receives.\<close>

record log_line =
  ln_epoch :: int
  ln_total_epochs :: int
  acc_iter :: int
  cur_iter :: int
  ln_total_it :: int
  batch_size :: "int option"
  time_epoch :: real
  remaining_epoch :: real
  time_all :: real
  remaining_all :: real
  disp_loss :: real
  disp_lr :: real
  loss_hm :: "real option"
  loss_loc :: "real option"
  loss_rcnn_cls :: "real option"
  loss_rcnn_reg :: "real option"

datatype log_msg = Progress log_line | GpuInfo | SaveLatest | DisableAug "string list"

text \<open>
  The state the two drivers thread. \<open>dataloader_iter\<close> is the iterator object that
  \<^verbatim>\<open>train_model\<close> creates at line 204 (the batches it has left), \<open>fresh_iter\<close> the
  iterator object that \<^verbatim>\<open>train_one_epoch\<close> creates itself at line 27 or 56 and binds
  to its local variable. \<open>steps\<close> lists the training steps taken: loop index, global
  step counter handed to the scheduler, batch; \<open>outcomes\<close> lists what the steps returned.
\<close>

record 'b state =
  accumulated_iter :: int
  dataloader_iter :: "'b list"
  fresh_iter :: "'b list option"
  ckpt_save_cnt :: int
  data_time :: meter
  batch_time :: meter
  forward_time :: meter
  loss_disp :: meter
  hm_loss_disp :: meter
  loc_loss_disp :: meter
  rcnn_cls_loss_disp :: meter
  rcnn_reg_loss_disp :: meter
  cur_model :: model
  cur_optimizer :: optimizer
  augment_disable_flag :: bool
  data_augmentor :: "string list option"
  disk :: directory
  logged :: "log_msg list"
  steps :: "(int \<times> int \<times> 'b) list"
  outcomes :: "step_result list"

subsection \<open>Epoch driver\<close>

text \<open>
  Lines 53-58. The local variable is bound to \<open>fresh_iter\<close> when the driver has
  created an iterator of its own, to the caller's \<open>dataloader_iter\<close> otherwise.
  \<^verbatim>\<open>next\<close> on an exhausted iterator raises \<^verbatim>\<open>StopIteration\<close>; the handler binds a
  fresh iterator over \<open>train_loader\<close> and calls \<^verbatim>\<open>next\<close> outside any \<^verbatim>\<open>try\<close>.
\<close>

definition restart_iter :: "'b list \<Rightarrow> 'b state \<Rightarrow> error + ('b \<times> 'b state)" where
  "restart_iter train_loader st =
     (case train_loader of
        [] \<Rightarrow> Inl StopIteration
      | batch # rest \<Rightarrow> Inr (batch, st\<lparr>fresh_iter := Some rest\<rparr>))"

definition next_batch :: "'b list \<Rightarrow> 'b state \<Rightarrow> error + ('b \<times> 'b state)" where
  "next_batch train_loader st =
     (case fresh_iter st of
        Some (batch # rest) \<Rightarrow> Inr (batch, st\<lparr>fresh_iter := Some rest\<rparr>)
      | Some [] \<Rightarrow> restart_iter train_loader st
      | None \<Rightarrow>
          (case dataloader_iter st of
             batch # rest \<Rightarrow> Inr (batch, st\<lparr>dataloader_iter := rest\<rparr>)
           | [] \<Rightarrow> restart_iter train_loader st))"

text \<open>
  Lines 112 and 117: the two losses of the center head and the two losses of the
  second stage, when \<^verbatim>\<open>tb_dict\<close> has both keys of the pair.
\<close>

definition centerhead_losses :: "step_result \<Rightarrow> (real \<times> real) option" where
  "centerhead_losses r =
     (case (map_of (tb_dict r) ''hm_loss_head_0'', map_of (tb_dict r) ''loc_loss_head_0'') of
        (Some hm, Some loc) \<Rightarrow> Some (hm, loc)
      | _ \<Rightarrow> None)"

definition rcnn_losses :: "step_result \<Rightarrow> (real \<times> real) option" where
  "rcnn_losses r =
     (case (map_of (tb_dict r) ''rcnn_loss_reg'', map_of (tb_dict r) ''rcnn_loss_cls'') of
        (Some reg, Some cls) \<Rightarrow> Some (cls, reg)
      | _ \<Rightarrow> None)"

text \<open>Lines 106-121: the meters of the lead worker take the values of this iteration.\<close>

definition update_meters :: "readings \<Rightarrow> step_result \<Rightarrow> 'b state \<Rightarrow> 'b state" where
  "update_meters clk r st =
     (let st1 = st\<lparr>data_time := update (avg_data_time clk) (data_time st),
                    forward_time := update (avg_forward_time clk) (forward_time st),
                    batch_time := update (avg_batch_time clk) (batch_time st),
                    loss_disp := update (loss r) (loss_disp st)\<rparr>;
          st2 = (case centerhead_losses r of
                   Some (hm, loc) \<Rightarrow>
                     st1\<lparr>hm_loss_disp := update hm (hm_loss_disp st1),
                         loc_loss_disp := update loc (loc_loss_disp st1)\<rparr>
                 | None \<Rightarrow> st1)
      in (case rcnn_losses r of
            Some (cls, reg) \<Rightarrow>
              st2\<lparr>rcnn_cls_loss_disp := update cls (rcnn_cls_loss_disp st2),
                  rcnn_reg_loss_disp := update reg (rcnn_reg_loss_disp st2)\<rparr>
          | None \<Rightarrow> st2))"

text \<open>Line 129, with \<open>acc\<close> the global step counter after its increment.\<close>

definition emit_now :: "settings \<Rightarrow> int \<Rightarrow> int \<Rightarrow> int \<Rightarrow> int \<Rightarrow> bool" where
  "emit_now cfg total_it_each_epoch start_it cur_it acc =
     ((acc mod logger_iter_interval cfg = 0 \<and> cur_it \<noteq> start_it)
      \<or> cur_it + 1 = total_it_each_epoch)"

text \<open>
  Lines 115-126 and 130-143: the fields of the line handed to the logger. The averages
  of the head losses are in the display dictionary of the iteration when its
  \<^verbatim>\<open>tb_dict\<close> has their keys; the rounding of the format is not modelled.
\<close>

definition progress_line ::
  "'b collab \<Rightarrow> settings \<Rightarrow> int \<Rightarrow> int \<Rightarrow> int \<Rightarrow> int \<Rightarrow> 'b \<Rightarrow> step_result \<Rightarrow> 'b state \<Rightarrow> log_line" where
  "progress_line coll cfg total_it_each_epoch cur_epoch start_it cur_it batch r st =
     (let clk = clock coll cur_epoch cur_it;
          trained_time_past_all = tbar_elapsed clk;
          second_each_iter = pbar_elapsed_rate clk / max (of_int (cur_it - start_it + 1)) 1;
          trained_time_each_epoch = pbar_elapsed_epoch clk;
          remaining_second_each_epoch = second_each_iter * of_int (total_it_each_epoch - cur_it);
          remaining_second_all =
            second_each_iter * of_int ((total_epochs cfg - cur_epoch) * total_it_each_epoch - cur_it)
      in \<lparr>ln_epoch = cur_epoch, ln_total_epochs = total_epochs cfg,
          acc_iter = accumulated_iter st, cur_iter = cur_it, ln_total_it = total_it_each_epoch,
          batch_size = batch_size_of coll batch,
          time_epoch = trained_time_each_epoch, remaining_epoch = remaining_second_each_epoch,
          time_all = trained_time_past_all, remaining_all = remaining_second_all,
          disp_loss = avg (loss_disp st), disp_lr = cur_lr r,
          loss_hm = map_option (\<lambda>x. avg (hm_loss_disp st)) (centerhead_losses r),
          loss_loc = map_option (\<lambda>x. avg (loc_loss_disp st)) (centerhead_losses r),
          loss_rcnn_cls = map_option (\<lambda>x. avg (rcnn_cls_loss_disp st)) (rcnn_losses r),
          loss_rcnn_reg = map_option (\<lambda>x. avg (rcnn_reg_loss_disp st)) (rcnn_losses r)\<rparr>)"

text \<open>
  Lines 128-157. Without the verbose logger only the progress bars are refreshed, which
  leaves the state as it is.
\<close>

definition log_phase ::
  "'b collab \<Rightarrow> settings \<Rightarrow> int \<Rightarrow> int \<Rightarrow> int \<Rightarrow> int \<Rightarrow> 'b \<Rightarrow> step_result \<Rightarrow> 'b state \<Rightarrow> error + 'b state" where
  "log_phase coll cfg total_it_each_epoch cur_epoch start_it cur_it batch r st =
     (if use_logger_to_record cfg then
        if logger_iter_interval cfg = 0 then Inl ZeroDivisionError
        else if emit_now cfg total_it_each_epoch start_it cur_it (accumulated_iter st) then
          Inr (st\<lparr>logged := logged st
                    @ [Progress (progress_line coll cfg total_it_each_epoch cur_epoch start_it cur_it batch r st)]
                    @ (if show_gpu_stat cfg
                          \<and> accumulated_iter st mod (3 * logger_iter_interval cfg) = 0
                       then [GpuInfo] else []),
                  loss_disp := reset,
                  hm_loss_disp := reset,
                  loc_loss_disp := reset,
                  rcnn_cls_loss_disp := reset,
                  rcnn_reg_loss_disp := reset\<rparr>)
        else Inr st
      else Inr st)"

text \<open>Lines 166-174: the time-based save to the slot \<^verbatim>\<open>latest_model\<close>.\<close>

definition ckpt_phase :: "'b collab \<Rightarrow> settings \<Rightarrow> int \<Rightarrow> int \<Rightarrow> 'b state \<Rightarrow> error + 'b state" where
  "ckpt_phase coll cfg cur_epoch cur_it st =
     (let clk = clock coll cur_epoch cur_it;
          time_past_this_epoch = pbar_elapsed_ckpt clk
      in if ckpt_save_time_interval cfg = 0 then Inl ZeroDivisionError
         else if ckpt_save_cnt st \<le> \<lfloor>time_past_this_epoch / of_int (ckpt_save_time_interval cfg)\<rfloor>
         then Inr (st\<lparr>disk := save_checkpoint (torch_version coll) (file_time clk)
                                (checkpoint_state (pcdet_version coll) (Some (cur_model st))
                                   (Some (cur_optimizer st)) (Some cur_epoch)
                                   (Some (accumulated_iter st)))
                                (path_join (ckpt_save_dir cfg) ''latest_model'') (disk st),
                        logged := logged st @ [SaveLatest],
                        ckpt_save_cnt := ckpt_save_cnt st + 1\<rparr>)
         else Inr st)"

text \<open>
  Lines 63-91: the training step on the batch and what it leaves behind, the counter
  incremented by one.
\<close>

definition run_step :: "'b collab \<Rightarrow> scheduler \<Rightarrow> 'b state \<Rightarrow> 'b \<Rightarrow> step_result" where
  "run_step coll lr_scheduler st batch =
     train_step coll lr_scheduler (accumulated_iter st) (cur_model st) (cur_optimizer st) batch"

definition take_step :: "step_result \<Rightarrow> int \<Rightarrow> 'b \<Rightarrow> 'b state \<Rightarrow> 'b state" where
  "take_step r cur_it batch st =
     st\<lparr>cur_model := new_model r, cur_optimizer := new_optimizer r,
        steps := steps st @ [(cur_it, accumulated_iter st, batch)],
        outcomes := outcomes st @ [r],
        accumulated_iter := accumulated_iter st + 1\<rparr>"

text \<open>Lines 53-174: the body of the loop for the index \<open>cur_it\<close>.\<close>

definition train_iter ::
  "'b collab \<Rightarrow> settings \<Rightarrow> 'b list \<Rightarrow> scheduler \<Rightarrow> int \<Rightarrow> int \<Rightarrow> int \<Rightarrow> int \<Rightarrow> 'b state \<Rightarrow> error + 'b state" where
  "train_iter coll cfg train_loader lr_scheduler total_it_each_epoch cur_epoch start_it cur_it st =
     bind_err (next_batch train_loader st) (\<lambda>(batch, st1).
       let r = run_step coll lr_scheduler st1 batch;
           st2 = take_step r cur_it batch st1
       in if rank cfg = 0 then
            bind_err (log_phase coll cfg total_it_each_epoch cur_epoch start_it cur_it batch r
                        (update_meters (clock coll cur_epoch cur_it) r st2))
              (ckpt_phase coll cfg cur_epoch cur_it)
          else Inr st2)"

text \<open>Line 52: the loop over the indices of \<^verbatim>\<open>range(start_it, total_it_each_epoch)\<close>.\<close>

fun run_iters ::
  "'b collab \<Rightarrow> settings \<Rightarrow> 'b list \<Rightarrow> scheduler \<Rightarrow> int \<Rightarrow> int \<Rightarrow> int \<Rightarrow> int list \<Rightarrow> 'b state \<Rightarrow> error + 'b state" where
  "run_iters coll cfg train_loader lr_scheduler total_it_each_epoch cur_epoch start_it [] st = Inr st"
| "run_iters coll cfg train_loader lr_scheduler total_it_each_epoch cur_epoch start_it (cur_it # its) st =
     bind_err (train_iter coll cfg train_loader lr_scheduler total_it_each_epoch cur_epoch start_it cur_it st)
       (run_iters coll cfg train_loader lr_scheduler total_it_each_epoch cur_epoch start_it its)"

text \<open>
  Lines 22-178. The returned state carries the returned counter \<open>accumulated_iter\<close>
  together with everything the call did to its arguments and to the disk.
  \<^verbatim>\<open>accumulated_iter % total_it_each_epoch\<close> raises when the divisor is 0. Lines 26-42
  set up the locals: the iterator, the save counter and, on the lead worker, the meters.
\<close>

definition epoch_init :: "settings \<Rightarrow> 'b list \<Rightarrow> int \<Rightarrow> 'b state \<Rightarrow> 'b state" where
  "epoch_init cfg train_loader total_it_each_epoch st =
     (let st0 = st\<lparr>fresh_iter := (if total_it_each_epoch = int (length train_loader)
                                   then Some train_loader else None),
                   ckpt_save_cnt := 1\<rparr>
      in if rank cfg = 0
         then st0\<lparr>data_time := reset, batch_time := reset, forward_time := reset,
                  loss_disp := reset, hm_loss_disp := reset, loc_loss_disp := reset,
                  rcnn_cls_loss_disp := reset, rcnn_reg_loss_disp := reset\<rparr>
         else st0)"

definition train_one_epoch ::
  "'b collab \<Rightarrow> settings \<Rightarrow> 'b list \<Rightarrow> scheduler \<Rightarrow> int \<Rightarrow> int \<Rightarrow> 'b state \<Rightarrow> error + 'b state" where
  "train_one_epoch coll cfg train_loader lr_scheduler total_it_each_epoch cur_epoch st =
     (if total_it_each_epoch = 0 then Inl ZeroDivisionError
      else
        let start_it = accumulated_iter st mod total_it_each_epoch
        in run_iters coll cfg train_loader lr_scheduler total_it_each_epoch cur_epoch start_it
             [start_it..total_it_each_epoch - 1]
             (epoch_init cfg train_loader total_it_each_epoch st))"

subsection \<open>Run driver\<close>

text \<open>
  \<^verbatim>\<open>glob.glob(pathname)\<close> of the standard library reads every component of the path
  as a pattern of its own. A component without \<^verbatim>\<open>*\<close>, \<^verbatim>\<open>?\<close> and \<^verbatim>\<open>[\<close> stands for
  itself; another one is matched by \<^verbatim>\<open>fnmatch\<close>, and matches a name that starts with a
  dot only when it starts with a dot itself.
\<close>

definition has_magic :: "string \<Rightarrow> bool" where
  "has_magic s = (CHR ''*'' \<in> set s \<or> CHR ''?'' \<in> set s \<or> CHR ''['' \<in> set s)"

fun split_path :: "string \<Rightarrow> string list" where
  "split_path [] = [[]]"
| "split_path (c # s) =
     (if c = CHR ''/'' then [] # split_path s
      else (case split_path s of [] \<Rightarrow> [[c]] | h # t \<Rightarrow> (c # h) # t))"

text \<open>
  The pieces of an \<^verbatim>\<open>fnmatch\<close> pattern: \<^verbatim>\<open>*\<close>, \<^verbatim>\<open>?\<close>, a character that stands for
  itself, and the class of a closed bracket.
\<close>

datatype glob_tok = Star | AnyChar | Lit char | Class string

text \<open>
  Whether the bracket opened just before \<open>r\<close> is closed: a \<^verbatim>\<open>!\<close> and then a \<^verbatim>\<open>]\<close>
  right after the opening bracket belong to the class and do not close it.
\<close>

definition bracket_closes :: "string \<Rightarrow> bool" where
  "bracket_closes r =
     (let r1 = (case r of c # t \<Rightarrow> if c = CHR ''!'' then t else r | [] \<Rightarrow> r);
          r2 = (case r1 of c # t \<Rightarrow> if c = CHR '']'' then t else r1 | [] \<Rightarrow> r1)
      in CHR '']'' \<in> set r2)"

datatype scan_mode = Outside | Inside string

text \<open>
  The scan of \<^verbatim>\<open>fnmatch.translate\<close>: a bracket that is not closed is the character
  \<^verbatim>\<open>[\<close> itself.
\<close>

fun scan :: "scan_mode \<Rightarrow> string \<Rightarrow> glob_tok list" where
  "scan mode [] = []"
| "scan Outside (c # r) =
     (if c = CHR ''*'' then Star # scan Outside r
      else if c = CHR ''?'' then AnyChar # scan Outside r
      else if c = CHR ''['' \<and> bracket_closes r then scan (Inside []) r
      else Lit c # scan Outside r)"
| "scan (Inside stuff) (c # r) =
     (if c = CHR '']'' \<and> stuff \<noteq> [] \<and> stuff \<noteq> ''!''
      then Class stuff # scan Outside r
      else scan (Inside (stuff @ [c])) r)"

text \<open>The characters of a class: \<^verbatim>\<open>a-b\<close> is a range, any other character is itself.\<close>

fun class_member :: "string \<Rightarrow> char \<Rightarrow> bool" where
  "class_member [] c = False"
| "class_member [a] c = (a = c)"
| "class_member [a, b] c = (a = c \<or> b = c)"
| "class_member (a # d # b # rest) c =
     (if d = CHR ''-''
      then ((of_char a :: nat) \<le> of_char c \<and> (of_char c :: nat) \<le> of_char b) \<or> class_member rest c
      else a = c \<or> class_member (d # b # rest) c)"

definition in_class :: "string \<Rightarrow> char \<Rightarrow> bool" where
  "in_class stuff c =
     (case stuff of
        [] \<Rightarrow> False
      | x # body \<Rightarrow> if x = CHR ''!'' then \<not> class_member body c else class_member stuff c)"

text \<open>
  \<^verbatim>\<open>fnmatch\<close>: \<^verbatim>\<open>*\<close> matches any characters, \<^verbatim>\<open>?\<close> one character, a closed
  bracket one character of its class (or one outside it after \<^verbatim>\<open>!\<close>), and any other
  character itself.
\<close>

fun tok_match :: "glob_tok list \<Rightarrow> string \<Rightarrow> bool" where
  "tok_match [] name = (name = [])"
| "tok_match (Star # ts) [] = tok_match ts []"
| "tok_match (Star # ts) (c # cs) = (tok_match ts (c # cs) \<or> tok_match (Star # ts) cs)"
| "tok_match (AnyChar # ts) [] = False"
| "tok_match (AnyChar # ts) (c # cs) = tok_match ts cs"
| "tok_match (Lit a # ts) [] = False"
| "tok_match (Lit a # ts) (c # cs) = (c = a \<and> tok_match ts cs)"
| "tok_match (Class stuff # ts) [] = False"
| "tok_match (Class stuff # ts) (c # cs) = (in_class stuff c \<and> tok_match ts cs)"

definition fnmatch :: "string \<Rightarrow> string \<Rightarrow> bool" where
  "fnmatch pat name = tok_match (scan Outside pat) name"

definition comp_match :: "string \<Rightarrow> string \<Rightarrow> bool" where
  "comp_match pat name =
     (if has_magic pat
      then (if take 1 name = ''.'' then take 1 pat = ''.'' else True) \<and> fnmatch pat name
      else name = pat)"

definition glob_match :: "string \<Rightarrow> string \<Rightarrow> bool" where
  "glob_match pathname p = list_all2 comp_match (split_path pathname) (split_path p)"

definition glob_glob :: "string \<Rightarrow> directory \<Rightarrow> directory" where
  "glob_glob pathname dir = filter (\<lambda>(p, f). glob_match pathname p) dir"

text \<open>
  Lines 257-258: the files that \<^verbatim>\<open>glob.glob(str(ckpt_save_dir / 'checkpoint_epoch_*.pth'))\<close>
  lists, sorted by modification time (a stable sort).
\<close>

definition sorted_ckpts :: "string \<Rightarrow> directory \<Rightarrow> directory" where
  "sorted_ckpts ckpt_dir dir =
     sort_key (\<lambda>(p, f). mtime f) (glob_glob (path_join ckpt_dir ''checkpoint_epoch_*.pth'') dir)"

definition os_remove :: "string \<Rightarrow> directory \<Rightarrow> directory" where
  "os_remove name dir = filter (\<lambda>(n, f). n \<noteq> name) dir"

text \<open>
  Lines 261-262: the loop over the indices of \<^verbatim>\<open>range(0, len(ckpt_list) - max_ckpt_save_num + 1)\<close>,
  none of them negative; an index past the end of the list raises.
\<close>

fun remove_oldest :: "string list \<Rightarrow> int list \<Rightarrow> directory \<Rightarrow> error + directory" where
  "remove_oldest ckpt_list [] dir = Inr dir"
| "remove_oldest ckpt_list (cur_file_idx # idxs) dir =
     (if cur_file_idx < int (length ckpt_list)
      then remove_oldest ckpt_list idxs (os_remove (ckpt_list ! nat cur_file_idx) dir)
      else Inl IndexError)"

text \<open>The conversion \<^verbatim>\<open>%d\<close> of an integer.\<close>

fun show_nat :: "nat \<Rightarrow> string" where
  "show_nat n =
     (if n < 10 then [''0123456789'' ! n]
      else show_nat (n div 10) @ [''0123456789'' ! (n mod 10)])"

definition show_int :: "int \<Rightarrow> string" where
  "show_int i = (if i < 0 then ''-'' @ show_nat (nat (- i)) else show_nat (nat i))"

text \<open>Lines 253-267: the save at the end of the epoch \<open>cur_epoch\<close>, with the retention sweep.\<close>

definition save_trained_model :: "'b collab \<Rightarrow> settings \<Rightarrow> int \<Rightarrow> 'b state \<Rightarrow> error + 'b state" where
  "save_trained_model coll cfg cur_epoch st =
     (let trained_epoch = cur_epoch + 1
      in if ckpt_save_interval cfg = 0 then Inl ZeroDivisionError
         else if trained_epoch mod ckpt_save_interval cfg = 0 \<and> rank cfg = 0 then
           let ckpt_list = map fst (sorted_ckpts (ckpt_save_dir cfg) (disk st));
               swept = (if max_ckpt_save_num cfg \<le> int (length ckpt_list)
                        then remove_oldest ckpt_list
                               [0..int (length ckpt_list) - max_ckpt_save_num cfg] (disk st)
                        else Inr (disk st))
           in bind_err swept (\<lambda>dir.
                Inr (st\<lparr>disk := save_checkpoint (torch_version coll) (epoch_file_time coll trained_epoch)
                                   (checkpoint_state (pcdet_version coll) (Some (cur_model st))
                                      (Some (cur_optimizer st)) (Some trained_epoch)
                                      (Some (accumulated_iter st)))
                                   (path_join (ckpt_save_dir cfg)
                                      (''checkpoint_epoch_'' @ show_int trained_epoch))
                                   dir\<rparr>))
         else Inr st)"

text \<open>
  Lines 215-232: the hook that swaps the augmentor of the data set. \<open>data_augmentor\<close> is
  \<open>None\<close> while the data set has the augmentor it was built with and \<open>Some l\<close> once it
  has been replaced by one built with \<^verbatim>\<open>DISABLE_AUG_LIST = l\<close>.
\<close>

definition disable_augmentation_hook :: "settings \<Rightarrow> int \<Rightarrow> 'b state \<Rightarrow> 'b state" where
  "disable_augmentation_hook cfg cur_epoch st =
     (case DisableAugmentationHook cfg of
        None \<Rightarrow> st
      | Some hook \<Rightarrow>
          if total_epochs cfg - NUM_LAST_EPOCHS hook \<le> cur_epoch \<and> \<not> augment_disable_flag st
          then st\<lparr>logged := logged st @ [DisableAug (DISABLE_AUG_LIST hook)],
                  data_augmentor := Some (DISABLE_AUG_LIST hook),
                  augment_disable_flag := True\<rparr>
          else st)"

text \<open>Lines 206-267: the body of the loop over the epochs.\<close>

definition epoch_body ::
  "'b collab \<Rightarrow> settings \<Rightarrow> 'b list \<Rightarrow> int \<Rightarrow> int \<Rightarrow> 'b state \<Rightarrow> error + 'b state" where
  "epoch_body coll cfg train_loader total_it_each_epoch cur_epoch st =
     (let cur_scheduler = (if has_warmup cfg \<and> cur_epoch < WARMUP_EPOCH cfg
                           then Warmup_scheduler else Main_scheduler);
          st1 = disable_augmentation_hook cfg cur_epoch st
      in bind_err (train_one_epoch coll cfg train_loader cur_scheduler total_it_each_epoch cur_epoch st1)
           (save_trained_model coll cfg cur_epoch))"

fun run_epochs ::
  "'b collab \<Rightarrow> settings \<Rightarrow> 'b list \<Rightarrow> int \<Rightarrow> int list \<Rightarrow> 'b state \<Rightarrow> error + 'b state" where
  "run_epochs coll cfg train_loader total_it_each_epoch [] st = Inr st"
| "run_epochs coll cfg train_loader total_it_each_epoch (cur_epoch # rest) st =
     bind_err (epoch_body coll cfg train_loader total_it_each_epoch cur_epoch st)
       (run_epochs coll cfg train_loader total_it_each_epoch rest)"

text \<open>
  Lines 181-267. The state passed in holds the model, the optimizer and the disk; the
  counter, the flag and the iterator are set up by the driver (\<open>run_init\<close>, lines 186,
  196 and 204). With \<^verbatim>\<open>merge_all_iters_to_one_epoch\<close> the data set is asked to merge
  (the assertion fails when it cannot) and the loader then has the batches
  \<open>dataset_merge\<close> gives (\<open>merged_loader\<close>, lines 198-202, with the number of iterations
  of an epoch).
\<close>

definition merged_loader :: "'b collab \<Rightarrow> settings \<Rightarrow> 'b list \<Rightarrow> error + ('b list \<times> int)" where
  "merged_loader coll cfg train_loader =
     (if merge_all_iters_to_one_epoch cfg
      then (case dataset_merge coll of
              None \<Rightarrow> Inl AssertionError
            | Some merge_fn \<Rightarrow>
                let loader = merge_fn (total_epochs cfg) train_loader
                in Inr (loader, int (length loader) div max (total_epochs cfg) 1))
      else Inr (train_loader, int (length train_loader)))"

definition run_init :: "settings \<Rightarrow> 'b list \<Rightarrow> 'b state \<Rightarrow> 'b state" where
  "run_init cfg loader st =
     st\<lparr>accumulated_iter := start_iter cfg, augment_disable_flag := False,
        dataloader_iter := loader, fresh_iter := None\<rparr>"

definition train_model :: "'b collab \<Rightarrow> settings \<Rightarrow> 'b list \<Rightarrow> 'b state \<Rightarrow> error + 'b state" where
  "train_model coll cfg train_loader st =
     bind_err (merged_loader coll cfg train_loader) (\<lambda>(loader, total_it_each_epoch).
       run_epochs coll cfg loader total_it_each_epoch
         [start_epoch cfg..total_epochs cfg - 1] (run_init cfg loader st))"

subsection \<open>Observations and concrete inputs\<close>

text \<open>The progress lines among the messages of the logger, in order.\<close>

fun progress_lines :: "log_msg list \<Rightarrow> log_line list" where
  "progress_lines [] = []"
| "progress_lines (Progress l # rest) = l # progress_lines rest"
| "progress_lines (_ # rest) = progress_lines rest"

text \<open>
  The loop indices at which the test of line 129 holds, each with the value the counter
  has there, for a loop over the indices given that starts with the counter \<open>acc\<close>.
\<close>

fun emissions :: "settings \<Rightarrow> int \<Rightarrow> int \<Rightarrow> int list \<Rightarrow> int \<Rightarrow> (int \<times> int) list" where
  "emissions cfg total_it_each_epoch start_it [] acc = []"
| "emissions cfg total_it_each_epoch start_it (cur_it # its) acc =
     (if emit_now cfg total_it_each_epoch start_it cur_it (acc + 1) then [(cur_it, acc + 1)] else [])
     @ emissions cfg total_it_each_epoch start_it its (acc + 1)"

text \<open>
  The lists of augmentations the hook has announced to the logger, in order; whether
  the epoch \<open>cur_epoch\<close> is one of the last epochs the hook is configured for; the list
  the hook is configured to disable.
\<close>

fun aug_swaps :: "log_msg list \<Rightarrow> string list list" where
  "aug_swaps [] = []"
| "aug_swaps (DisableAug l # rest) = l # aug_swaps rest"
| "aug_swaps (_ # rest) = aug_swaps rest"

definition hook_due :: "settings \<Rightarrow> int \<Rightarrow> bool" where
  "hook_due cfg cur_epoch =
     (case DisableAugmentationHook cfg of
        None \<Rightarrow> False
      | Some hook \<Rightarrow> total_epochs cfg - NUM_LAST_EPOCHS hook \<le> cur_epoch)"

definition hook_list :: "settings \<Rightarrow> string list" where
  "hook_list cfg =
     (case DisableAugmentationHook cfg of None \<Rightarrow> [] | Some hook \<Rightarrow> DISABLE_AUG_LIST hook)"

text \<open>
  The number of whole save intervals that have passed in the epoch when the iteration
  \<open>cur_it\<close> makes the test of line 168.
\<close>

definition whole_intervals :: "'b collab \<Rightarrow> settings \<Rightarrow> int \<Rightarrow> int \<Rightarrow> int" where
  "whole_intervals coll cfg cur_epoch cur_it =
     \<lfloor>pbar_elapsed_ckpt (clock coll cur_epoch cur_it) / of_int (ckpt_save_time_interval cfg)\<rfloor>"

text \<open>The path of the slot of the latest checkpoint.\<close>

definition latest_path :: "settings \<Rightarrow> string" where
  "latest_path cfg = path_join (ckpt_save_dir cfg) ''latest_model'' @ ''.pth''"

text \<open>
  The settings under which no division of the loop body is by zero: on the lead worker
  the save interval is not 0 and, with the verbose logger, neither is the logging
  interval.
\<close>

definition intervals_ok :: "settings \<Rightarrow> bool" where
  "intervals_ok cfg \<longleftrightarrow>
     (rank cfg = 0 \<longrightarrow> ckpt_save_time_interval cfg \<noteq> 0
        \<and> (use_logger_to_record cfg \<longrightarrow> logger_iter_interval cfg \<noteq> 0))"

text \<open>
  The settings under which no step of the run driver raises for a loader that is not
  empty: the intervals are not 0 and at least one checkpoint is to be kept.
\<close>

definition run_ok :: "settings \<Rightarrow> bool" where
  "run_ok cfg \<longleftrightarrow> intervals_ok cfg \<and> ckpt_save_interval cfg \<noteq> 0 \<and> 1 \<le> max_ckpt_save_num cfg"

text \<open>
  The checkpoints of epochs on disk: the files of the directory \<open>ckpt_dir\<close> that are
  named \<^verbatim>\<open>checkpoint_epoch_\<close>, anything, \<^verbatim>\<open>.pth\<close>; and their number.
\<close>

definition is_epoch_ckpt :: "string \<Rightarrow> string \<Rightarrow> bool" where
  "is_epoch_ckpt ckpt_dir p =
     (butlast (split_path p) = split_path ckpt_dir
      \<and> comp_match ''checkpoint_epoch_*.pth'' (last (split_path p)))"

definition epoch_ckpt_count :: "string \<Rightarrow> directory \<Rightarrow> nat" where
  "epoch_ckpt_count ckpt_dir dir = length (filter (\<lambda>(p, f). is_epoch_ckpt ckpt_dir p) dir)"

text \<open>
  The number of files the retention sweep deletes: when the files it lists are at
  least \<open>max_ckpt_save_num\<close>, all but \<open>max_ckpt_save_num - 1\<close> of them.
\<close>

definition sweep_count :: "settings \<Rightarrow> directory \<Rightarrow> nat" where
  "sweep_count cfg dir =
     (if max_ckpt_save_num cfg \<le> int (length (sorted_ckpts (ckpt_save_dir cfg) dir))
      then nat (int (length (sorted_ckpts (ckpt_save_dir cfg) dir)) - max_ckpt_save_num cfg + 1)
      else 0)"

text \<open>
  The save counter after the tests of line 168 for the loop indices given, when it is
  \<open>cnt\<close> before them: a test at which the whole intervals passed have reached the
  counter advances it by one.
\<close>

fun save_counter :: "'b collab \<Rightarrow> settings \<Rightarrow> int \<Rightarrow> int list \<Rightarrow> int \<Rightarrow> int" where
  "save_counter coll cfg cur_epoch [] cnt = cnt"
| "save_counter coll cfg cur_epoch (cur_it # its) cnt =
     save_counter coll cfg cur_epoch its
       (if cnt \<le> whole_intervals coll cfg cur_epoch cur_it then cnt + 1 else cnt)"

text \<open>
  The arithmetic mean; the values a step feeds to the four meters of the head losses;
  a progress line showing the means over the steps of a window; a list of progress
  lines showing the means over consecutive windows of steps, each line emitted at
  the last step of its window, the first window starting after the counter \<open>acc\<close>.
\<close>

definition mean :: "real list \<Rightarrow> real" where
  "mean vs = sum_list vs / of_nat (length vs)"

definition fed_hm :: "step_result \<Rightarrow> real list" where
  "fed_hm r = (case centerhead_losses r of Some (hm, loc) \<Rightarrow> [hm] | None \<Rightarrow> [])"

definition fed_loc :: "step_result \<Rightarrow> real list" where
  "fed_loc r = (case centerhead_losses r of Some (hm, loc) \<Rightarrow> [loc] | None \<Rightarrow> [])"

definition fed_rcnn_cls :: "step_result \<Rightarrow> real list" where
  "fed_rcnn_cls r = (case rcnn_losses r of Some (cls, reg) \<Rightarrow> [cls] | None \<Rightarrow> [])"

definition fed_rcnn_reg :: "step_result \<Rightarrow> real list" where
  "fed_rcnn_reg r = (case rcnn_losses r of Some (cls, reg) \<Rightarrow> [reg] | None \<Rightarrow> [])"

definition line_shows_means :: "log_line \<Rightarrow> step_result list \<Rightarrow> bool" where
  "line_shows_means l w \<longleftrightarrow>
     disp_loss l = mean (map loss w)
     \<and> loss_hm l = map_option (\<lambda>x. mean (concat (map fed_hm w))) (centerhead_losses (last w))
     \<and> loss_loc l = map_option (\<lambda>x. mean (concat (map fed_loc w))) (centerhead_losses (last w))
     \<and> loss_rcnn_cls l
         = map_option (\<lambda>x. mean (concat (map fed_rcnn_cls w))) (rcnn_losses (last w))
     \<and> loss_rcnn_reg l
         = map_option (\<lambda>x. mean (concat (map fed_rcnn_reg w))) (rcnn_losses (last w))"

fun windows_shown :: "int \<Rightarrow> log_line list \<Rightarrow> step_result list list \<Rightarrow> bool" where
  "windows_shown acc [] [] = True"
| "windows_shown acc (l # ls) (w # ws) =
     (w \<noteq> [] \<and> acc_iter l = acc + int (length w) \<and> line_shows_means l w
      \<and> windows_shown (acc + int (length w)) ls ws)"
| "windows_shown acc _ _ = False"

text \<open>The five loss meters holding exactly the values the steps of a window have fed.\<close>

definition meters_hold :: "'b state \<Rightarrow> step_result list \<Rightarrow> bool" where
  "meters_hold st w \<longleftrightarrow>
     loss_disp st = fold update (map loss w) reset
     \<and> hm_loss_disp st = fold update (concat (map fed_hm w)) reset
     \<and> loc_loss_disp st = fold update (concat (map fed_loc w)) reset
     \<and> rcnn_cls_loss_disp st = fold update (concat (map fed_rcnn_cls w)) reset
     \<and> rcnn_reg_loss_disp st = fold update (concat (map fed_rcnn_reg w)) reset"

text \<open>
  A small run for evaluation: batches are numbers, every step returns loss 2 and
  leaves model and optimizer as they are, an iteration takes 3 seconds, the lead
  worker logs verbosely every 50 steps.
\<close>

definition demo_clock :: "int \<Rightarrow> int \<Rightarrow> readings" where
  "demo_clock cur_epoch cur_it =
     \<lparr>avg_data_time = 1, avg_forward_time = 2, avg_batch_time = 3,
      tbar_elapsed = 3 * of_int (cur_it + 1), pbar_elapsed_rate = 3 * of_int (cur_it + 1),
      pbar_elapsed_epoch = 3 * of_int (cur_it + 1), pbar_elapsed_ckpt = 3 * of_int (cur_it + 1),
      file_time = 3 * of_int (cur_it + 1)\<rparr>"

definition demo_coll :: "nat collab" where
  "demo_coll =
     \<lparr>train_step = (\<lambda>sched acc m opt batch.
         \<lparr>new_model = m, new_optimizer = opt, cur_lr = 1, loss = 2, tb_dict = [],
          total_norm = 1\<rparr>),
      batch_size_of = (\<lambda>batch. Some 4),
      clock = demo_clock,
      epoch_file_time = (\<lambda>trained_epoch. 1000 * of_int trained_epoch),
      pcdet_version = Some ''0.6.0'',
      torch_version = TorchVersion [1, 13, 1] False,
      dataset_merge = None\<rparr>"

text \<open>
  The same run with steps that tell one another apart: the step at the counter \<open>acc\<close>
  returns the loss \<open>acc\<close>.
\<close>

definition graded_coll :: "nat collab" where
  "graded_coll =
     demo_coll\<lparr>train_step := (\<lambda>sched acc m opt batch.
       \<lparr>new_model = m, new_optimizer = opt, cur_lr = 1, loss = of_int acc, tb_dict = [],
        total_norm = 1\<rparr>)\<rparr>"

definition demo_cfg :: settings where
  "demo_cfg =
     \<lparr>rank = 0, total_epochs = 2, use_logger_to_record = True, logger_iter_interval = 50,
      ckpt_save_dir = ''output/ckpt'', ckpt_save_time_interval = 300, show_gpu_stat = False,
      start_epoch = 0, start_iter = 0,
      ckpt_save_interval = 1, max_ckpt_save_num = 1, merge_all_iters_to_one_epoch = False,
      has_warmup = False, WARMUP_EPOCH = 0,
      DisableAugmentationHook = Some \<lparr>NUM_LAST_EPOCHS = 1, DISABLE_AUG_LIST = [''gt_sampling'']\<rparr>\<rparr>"

text \<open>
  The same run with the clock of the save test set: at the test of the iteration \<open>i\<close>
  the epoch has lasted \<open>t i\<close> seconds.
\<close>

definition timed_coll :: "(int \<Rightarrow> real) \<Rightarrow> nat collab" where
  "timed_coll t =
     demo_coll\<lparr>clock := (\<lambda>cur_epoch cur_it. (demo_clock cur_epoch cur_it)\<lparr>pbar_elapsed_ckpt := t cur_it\<rparr>)\<rparr>"

text \<open>A loader of 25 batches and one of two.\<close>

definition demo_loader :: "nat list" where
  "demo_loader = [1..<26]"

definition two_batches :: "nat list" where
  "two_batches = [1, 2]"

text \<open>
  A disk with two checkpoints of epochs in \<^verbatim>\<open>output/ckpt\<close>, the one of epoch 1 older
  than the one of epoch 2, and the latest checkpoint; the settings of the small run
  keeping two checkpoints; the settings of the small run with a checkpoint directory whose path has a bracket, and a disk with the checkpoint
  of epoch 1 in that directory.
\<close>

definition demo_disk :: directory where
  "demo_disk =
     [(''output/ckpt/checkpoint_epoch_2.pth'',
        \<lparr>mtime = 20, content = checkpoint_state None None None (Some 2) (Some 50), fmt = Legacy\<rparr>),
      (''output/ckpt/latest_model.pth'',
        \<lparr>mtime = 25, content = checkpoint_state None None None (Some 2) (Some 60), fmt = Legacy\<rparr>),
      (''output/ckpt/checkpoint_epoch_1.pth'',
        \<lparr>mtime = 10, content = checkpoint_state None None None (Some 1) (Some 25), fmt = Legacy\<rparr>)]"

definition keep_two_cfg :: settings where
  "keep_two_cfg = demo_cfg\<lparr>max_ckpt_save_num := 2\<rparr>"

definition bracket_cfg :: settings where
  "bracket_cfg = demo_cfg\<lparr>ckpt_save_dir := ''run[v2]/ckpt''\<rparr>"

definition bracket_disk :: directory where
  "bracket_disk =
     [(''run[v2]/ckpt/checkpoint_epoch_1.pth'',
        \<lparr>mtime = 10, content = checkpoint_state None None None (Some 1) (Some 25), fmt = Legacy\<rparr>)]"

definition demo_state :: "nat state" where
  "demo_state =
     \<lparr>accumulated_iter = 0, dataloader_iter = [], fresh_iter = None, ckpt_save_cnt = 1,
      data_time = reset, batch_time = reset, forward_time = reset, loss_disp = reset,
      hm_loss_disp = reset, loc_loss_disp = reset, rcnn_cls_loss_disp = reset,
      rcnn_reg_loss_disp = reset,
      cur_model = DistributedDataParallel [(''w'', \<lparr>device = CUDA 0, payload = [1, 2]\<rparr>)],
      cur_optimizer = \<lparr>opt_lr = 1, opt_state_dict = []\<rparr>,
      augment_disable_flag = False, data_augmentor = None, disk = [], logged = [], steps = [],
      outcomes = []\<rparr>"

section \<open>Properties\<close>

subsection \<open>Checkpoint subsystem\<close>

lemma map_of_write_file: "map_of (write_file name f dir) = (map_of dir)(name \<mapsto> f)"
  by (induction dir) (auto simp: fun_eq_iff)

lemma model_state_to_cpu_keys: "map fst (model_state_to_cpu sd) = map fst sd"
  by (induction sd rule: model_state_to_cpu.induct) simp_all

lemma model_state_to_cpu_payload:
  "map (\<lambda>kv. payload (snd kv)) (model_state_to_cpu sd) = map (\<lambda>kv. payload (snd kv)) sd"
  by (induction sd rule: model_state_to_cpu.induct) (simp_all add: cpu_def)

lemma model_state_to_cpu_device:
  "kv \<in> set (model_state_to_cpu sd) \<Longrightarrow> device (snd kv) = CPU"
  by (induction sd rule: model_state_to_cpu.induct) (auto simp: cpu_def)

subsection \<open>The loop of the epoch driver\<close>

lemma bind_err_Inr_iff:
  "bind_err r f = Inr y \<longleftrightarrow> (\<exists>v. r = Inr v \<and> f v = Inr y)"
  by (cases r) (simp_all add: bind_err_def)

lemma bind_err_Inl_iff:
  "bind_err r f = Inl e \<longleftrightarrow> r = Inl e \<or> (\<exists>v. r = Inr v \<and> f v = Inl e)"
  by (cases r) (simp_all add: bind_err_def)

lemma next_batch_keeps:
  assumes "next_batch train_loader st = Inr (batch, st1)"
  shows "accumulated_iter st1 = accumulated_iter st" and "steps st1 = steps st"
    and "logged st1 = logged st" and "disk st1 = disk st"
    and "ckpt_save_cnt st1 = ckpt_save_cnt st"
    and "data_time st1 = data_time st" and "forward_time st1 = forward_time st"
    and "batch_time st1 = batch_time st" and "loss_disp st1 = loss_disp st"
    and "hm_loss_disp st1 = hm_loss_disp st" and "loc_loss_disp st1 = loc_loss_disp st"
    and "rcnn_cls_loss_disp st1 = rcnn_cls_loss_disp st"
    and "rcnn_reg_loss_disp st1 = rcnn_reg_loss_disp st"
    and "augment_disable_flag st1 = augment_disable_flag st"
    and "data_augmentor st1 = data_augmentor st"
    and "outcomes st1 = outcomes st"
    and "cur_model st1 = cur_model st" and "cur_optimizer st1 = cur_optimizer st"
  using assms
  by (auto simp: next_batch_def restart_iter_def split: option.splits list.splits)

lemma next_batch_returns:
  "train_loader \<noteq> [] \<Longrightarrow> \<exists>batch st1. next_batch train_loader st = Inr (batch, st1)"
  by (auto simp: next_batch_def restart_iter_def split: option.splits list.splits)

lemma update_meters_keeps:
  shows "accumulated_iter (update_meters clk r st) = accumulated_iter st"
    and "steps (update_meters clk r st) = steps st"
    and "logged (update_meters clk r st) = logged st"
    and "disk (update_meters clk r st) = disk st"
    and "ckpt_save_cnt (update_meters clk r st) = ckpt_save_cnt st"
    and "augment_disable_flag (update_meters clk r st) = augment_disable_flag st"
    and "data_augmentor (update_meters clk r st) = data_augmentor st"
    and "cur_model (update_meters clk r st) = cur_model st"
    and "cur_optimizer (update_meters clk r st) = cur_optimizer st"
    and "outcomes (update_meters clk r st) = outcomes st"
  by (simp_all add: update_meters_def Let_def split: option.splits prod.splits)

lemma log_phase_keeps:
  assumes "log_phase coll cfg total_it cur_epoch start_it cur_it batch r st = Inr st'"
  shows "accumulated_iter st' = accumulated_iter st" and "steps st' = steps st"
    and "disk st' = disk st" and "ckpt_save_cnt st' = ckpt_save_cnt st"
    and "data_time st' = data_time st" and "forward_time st' = forward_time st"
    and "batch_time st' = batch_time st"
    and "augment_disable_flag st' = augment_disable_flag st"
    and "data_augmentor st' = data_augmentor st"
    and "cur_model st' = cur_model st" and "cur_optimizer st' = cur_optimizer st"
    and "outcomes st' = outcomes st"
  using assms by (auto simp: log_phase_def split: if_splits)

lemma ckpt_phase_keeps:
  assumes "ckpt_phase coll cfg cur_epoch cur_it st = Inr st'"
  shows "accumulated_iter st' = accumulated_iter st" and "steps st' = steps st"
    and "data_time st' = data_time st" and "forward_time st' = forward_time st"
    and "batch_time st' = batch_time st" and "loss_disp st' = loss_disp st"
    and "hm_loss_disp st' = hm_loss_disp st" and "loc_loss_disp st' = loc_loss_disp st"
    and "rcnn_cls_loss_disp st' = rcnn_cls_loss_disp st"
    and "rcnn_reg_loss_disp st' = rcnn_reg_loss_disp st"
    and "augment_disable_flag st' = augment_disable_flag st"
    and "data_augmentor st' = data_augmentor st"
    and "outcomes st' = outcomes st"
    and "cur_model st' = cur_model st" and "cur_optimizer st' = cur_optimizer st"
  using assms by (auto simp: ckpt_phase_def Let_def split: if_splits)

lemma take_step_fields:
  shows "accumulated_iter (take_step r cur_it batch st) = accumulated_iter st + 1"
    and "steps (take_step r cur_it batch st) = steps st @ [(cur_it, accumulated_iter st, batch)]"
    and "logged (take_step r cur_it batch st) = logged st"
    and "disk (take_step r cur_it batch st) = disk st"
    and "ckpt_save_cnt (take_step r cur_it batch st) = ckpt_save_cnt st"
    and "augment_disable_flag (take_step r cur_it batch st) = augment_disable_flag st"
    and "data_augmentor (take_step r cur_it batch st) = data_augmentor st"
    and "outcomes (take_step r cur_it batch st) = outcomes st @ [r]"
    and "loss_disp (take_step r cur_it batch st) = loss_disp st"
    and "hm_loss_disp (take_step r cur_it batch st) = hm_loss_disp st"
    and "loc_loss_disp (take_step r cur_it batch st) = loc_loss_disp st"
    and "rcnn_cls_loss_disp (take_step r cur_it batch st) = rcnn_cls_loss_disp st"
    and "rcnn_reg_loss_disp (take_step r cur_it batch st) = rcnn_reg_loss_disp st"
    and "cur_model (take_step r cur_it batch st) = new_model r"
    and "cur_optimizer (take_step r cur_it batch st) = new_optimizer r"
  by (simp_all add: take_step_def)

lemma train_iter_Inr_iff:
  "train_iter coll cfg train_loader sched total_it cur_epoch start_it cur_it st = Inr st' \<longleftrightarrow>
     (\<exists>batch st1. next_batch train_loader st = Inr (batch, st1) \<and>
        (if rank cfg = 0
         then \<exists>st3. log_phase coll cfg total_it cur_epoch start_it cur_it batch
                       (run_step coll sched st1 batch)
                       (update_meters (clock coll cur_epoch cur_it) (run_step coll sched st1 batch)
                          (take_step (run_step coll sched st1 batch) cur_it batch st1)) = Inr st3
                  \<and> ckpt_phase coll cfg cur_epoch cur_it st3 = Inr st'
         else st' = take_step (run_step coll sched st1 batch) cur_it batch st1))"
  by (auto simp: train_iter_def bind_err_Inr_iff Let_def)

lemma train_iter_step:
  assumes "train_iter coll cfg train_loader sched total_it cur_epoch start_it cur_it st = Inr st'"
  shows "accumulated_iter st' = accumulated_iter st + 1
         \<and> (\<exists>batch. steps st' = steps st @ [(cur_it, accumulated_iter st, batch)])"
proof -
  from assms obtain batch st1 where
    nb: "next_batch train_loader st = Inr (batch, st1)" and
    body: "if rank cfg = 0
         then \<exists>st3. log_phase coll cfg total_it cur_epoch start_it cur_it batch
                       (run_step coll sched st1 batch)
                       (update_meters (clock coll cur_epoch cur_it) (run_step coll sched st1 batch)
                          (take_step (run_step coll sched st1 batch) cur_it batch st1)) = Inr st3
                  \<and> ckpt_phase coll cfg cur_epoch cur_it st3 = Inr st'
         else st' = take_step (run_step coll sched st1 batch) cur_it batch st1"
    unfolding train_iter_Inr_iff by blast
  show ?thesis
  proof (cases "rank cfg = 0")
    case False
    with body next_batch_keeps(1,2)[OF nb] show ?thesis by (auto simp: take_step_fields)
  next
    case True
    with body obtain st3 where
      l: "log_phase coll cfg total_it cur_epoch start_it cur_it batch
                       (run_step coll sched st1 batch)
                       (update_meters (clock coll cur_epoch cur_it) (run_step coll sched st1 batch)
                          (take_step (run_step coll sched st1 batch) cur_it batch st1)) = Inr st3" and
      c: "ckpt_phase coll cfg cur_epoch cur_it st3 = Inr st'" by auto
    from log_phase_keeps(1,2)[OF l] ckpt_phase_keeps(1,2)[OF c] next_batch_keeps(1,2)[OF nb]
    show ?thesis by (auto simp: update_meters_keeps take_step_fields)
  qed
qed

lemma run_iters_steps:
  assumes "run_iters coll cfg train_loader sched total_it cur_epoch start_it its st = Inr st'"
  shows "accumulated_iter st' = accumulated_iter st + int (length its)
         \<and> (\<exists>new. steps st' = steps st @ new \<and> map fst new = its
              \<and> map (\<lambda>s. fst (snd s)) new
                  = [accumulated_iter st..accumulated_iter st + int (length its) - 1])"
  using assms
proof (induction its arbitrary: st)
  case Nil
  then show ?case by simp
next
  case (Cons i its)
  from Cons.prems obtain mid where
    it: "train_iter coll cfg train_loader sched total_it cur_epoch start_it i st = Inr mid" and
    rest: "run_iters coll cfg train_loader sched total_it cur_epoch start_it its mid = Inr st'"
    by (auto simp: bind_err_Inr_iff)
  from train_iter_step[OF it] obtain batch where
    am: "accumulated_iter mid = accumulated_iter st + 1" and
    sm: "steps mid = steps st @ [(i, accumulated_iter st, batch)]" by blast
  from Cons.IH[OF rest] obtain new where
    a': "accumulated_iter st' = accumulated_iter mid + int (length its)" and
    s': "steps st' = steps mid @ new" and f: "map fst new = its" and
    c: "map (\<lambda>s. fst (snd s)) new
          = [accumulated_iter mid..accumulated_iter mid + int (length its) - 1]" by blast
  have "[accumulated_iter st..accumulated_iter st + int (length (i # its)) - 1]
        = accumulated_iter st # [accumulated_iter mid..accumulated_iter mid + int (length its) - 1]"
    using am by (simp add: upto_rec1)
  with a' s' f c am sm show ?case
    by (intro conjI exI[of _ "(i, accumulated_iter st, batch) # new"]) simp_all
qed


lemma train_one_epoch_Inr_iff:
  "train_one_epoch coll cfg train_loader sched total_it cur_epoch st = Inr st' \<longleftrightarrow>
     total_it \<noteq> 0 \<and>
     run_iters coll cfg train_loader sched total_it cur_epoch (accumulated_iter st mod total_it)
       [accumulated_iter st mod total_it..total_it - 1]
       (epoch_init cfg train_loader total_it st) = Inr st'"
  by (simp add: train_one_epoch_def Let_def)

lemma epoch_init_fields:
  shows "accumulated_iter (epoch_init cfg train_loader total_it st) = accumulated_iter st"
    and "steps (epoch_init cfg train_loader total_it st) = steps st"
    and "logged (epoch_init cfg train_loader total_it st) = logged st"
    and "disk (epoch_init cfg train_loader total_it st) = disk st"
    and "ckpt_save_cnt (epoch_init cfg train_loader total_it st) = 1"
    and "augment_disable_flag (epoch_init cfg train_loader total_it st) = augment_disable_flag st"
    and "data_augmentor (epoch_init cfg train_loader total_it st) = data_augmentor st"
    and "outcomes (epoch_init cfg train_loader total_it st) = outcomes st"
  by (simp_all add: epoch_init_def Let_def)

lemma train_one_epoch_steps:
  assumes "train_one_epoch coll cfg train_loader sched total_it cur_epoch st = Inr st'"
  shows "\<exists>new. steps st' = steps st @ new
           \<and> map fst new = [accumulated_iter st mod total_it..total_it - 1]
           \<and> map (\<lambda>s. fst (snd s)) new = [accumulated_iter st..accumulated_iter st' - 1]
           \<and> accumulated_iter st' = accumulated_iter st + int (length new)"
proof -
  let ?its = "[accumulated_iter st mod total_it..total_it - 1]"
  from assms have
    "run_iters coll cfg train_loader sched total_it cur_epoch (accumulated_iter st mod total_it)
       ?its (epoch_init cfg train_loader total_it st) = Inr st'"
    by (simp add: train_one_epoch_Inr_iff)
  from run_iters_steps[OF this] obtain new where
    a: "accumulated_iter st' = accumulated_iter st + int (length ?its)" and
    s: "steps st' = steps st @ new" and f: "map fst new = ?its" and
    c: "map (\<lambda>s. fst (snd s)) new
          = [accumulated_iter st..accumulated_iter st + int (length ?its) - 1]"
    by (auto simp: epoch_init_fields)
  from f have "length new = length ?its" by (metis length_map)
  with a s f c show ?thesis by (intro exI[of _ new]) simp
qed

text \<open>When the driver returns.\<close>

lemma log_phase_returns:
  "use_logger_to_record cfg \<longrightarrow> logger_iter_interval cfg \<noteq> 0 \<Longrightarrow>
   \<exists>st'. log_phase coll cfg total_it cur_epoch start_it cur_it batch r st = Inr st'"
  by (simp add: log_phase_def)

lemma ckpt_phase_returns:
  "ckpt_save_time_interval cfg \<noteq> 0 \<Longrightarrow> \<exists>st'. ckpt_phase coll cfg cur_epoch cur_it st = Inr st'"
  by (simp add: ckpt_phase_def Let_def)

lemma train_iter_returns:
  assumes "train_loader \<noteq> []" and "intervals_ok cfg"
  shows "\<exists>st'. train_iter coll cfg train_loader sched total_it cur_epoch start_it cur_it st = Inr st'"
proof -
  have "\<exists>batch st1. next_batch train_loader st = Inr (batch, st1)"
    by (rule next_batch_returns[OF assms(1)])
  then obtain batch st1 where nb: "next_batch train_loader st = Inr (batch, st1)" by blast
  show ?thesis
  proof (cases "rank cfg = 0")
    case False
    with nb show ?thesis by (simp add: train_iter_Inr_iff)
  next
    case True
    with assms(2) have li: "use_logger_to_record cfg \<longrightarrow> logger_iter_interval cfg \<noteq> 0"
      and ci: "ckpt_save_time_interval cfg \<noteq> 0" by (simp_all add: intervals_ok_def)
    have "\<exists>st3. log_phase coll cfg total_it cur_epoch start_it cur_it batch (run_step coll sched st1 batch)
         (update_meters (clock coll cur_epoch cur_it) (run_step coll sched st1 batch)
            (take_step (run_step coll sched st1 batch) cur_it batch st1)) = Inr st3"
      by (rule log_phase_returns[OF li])
    then obtain st3 where l: "log_phase coll cfg total_it cur_epoch start_it cur_it batch (run_step coll sched st1 batch)
         (update_meters (clock coll cur_epoch cur_it) (run_step coll sched st1 batch)
            (take_step (run_step coll sched st1 batch) cur_it batch st1)) = Inr st3" ..
    have "\<exists>st'. ckpt_phase coll cfg cur_epoch cur_it st3 = Inr st'"
      by (rule ckpt_phase_returns[OF ci])
    then obtain st' where "ckpt_phase coll cfg cur_epoch cur_it st3 = Inr st'" ..
    with l show ?thesis using nb True by (auto simp: train_iter_Inr_iff)
  qed
qed

lemma run_iters_returns:
  assumes "train_loader \<noteq> []" and "intervals_ok cfg"
  shows "\<exists>st'. run_iters coll cfg train_loader sched total_it cur_epoch start_it its st = Inr st'"
proof (induction its arbitrary: st)
  case Nil
  show ?case by simp
next
  case (Cons i its)
  have "\<exists>mid. train_iter coll cfg train_loader sched total_it cur_epoch start_it i st = Inr mid"
    by (rule train_iter_returns[OF assms])
  then obtain mid where
    "train_iter coll cfg train_loader sched total_it cur_epoch start_it i st = Inr mid" ..
  with Cons.IH[of mid] show ?case by (auto simp: bind_err_Inr_iff)
qed

lemma train_one_epoch_returns:
  assumes "train_loader \<noteq> []" and "intervals_ok cfg" and "total_it \<noteq> 0"
  shows "\<exists>st'. train_one_epoch coll cfg train_loader sched total_it cur_epoch st = Inr st'"
  using run_iters_returns[OF assms(1,2)] assms(3) by (simp add: train_one_epoch_Inr_iff)

text \<open>End of data is the only source of \<open>StopIteration\<close>.\<close>

lemma log_phase_error:
  "log_phase coll cfg total_it cur_epoch start_it cur_it batch r st = Inl e \<Longrightarrow> e = ZeroDivisionError"
  by (auto simp: log_phase_def split: if_splits)

lemma ckpt_phase_error:
  "ckpt_phase coll cfg cur_epoch cur_it st = Inl e \<Longrightarrow> e = ZeroDivisionError"
  by (auto simp: ckpt_phase_def Let_def split: if_splits)

lemma train_iter_no_stop:
  assumes "train_loader \<noteq> []"
  shows "train_iter coll cfg train_loader sched total_it cur_epoch start_it cur_it st \<noteq> Inl StopIteration"
proof
  assume stop: "train_iter coll cfg train_loader sched total_it cur_epoch start_it cur_it st = Inl StopIteration"
  have "\<exists>batch st1. next_batch train_loader st = Inr (batch, st1)"
    by (rule next_batch_returns[OF assms])
  then obtain batch st1 where nb: "next_batch train_loader st = Inr (batch, st1)" by blast
  from stop nb show False
    by (auto simp: train_iter_def bind_err_Inl_iff Let_def split: if_splits
          dest: log_phase_error ckpt_phase_error)
qed

lemma run_iters_no_stop:
  assumes "train_loader \<noteq> []"
  shows "run_iters coll cfg train_loader sched total_it cur_epoch start_it its st \<noteq> Inl StopIteration"
proof (induction its arbitrary: st)
  case Nil
  show ?case by simp
next
  case (Cons i its)
  show ?case using train_iter_no_stop[OF assms] Cons.IH
    by (auto simp: bind_err_Inl_iff)
qed

lemma next_batch_exhausted:
  assumes "train_loader \<noteq> []"
    and "fresh_iter st = Some [] \<or> (fresh_iter st = None \<and> dataloader_iter st = [])"
  shows "next_batch train_loader st = Inr (hd train_loader, st\<lparr>fresh_iter := Some (tl train_loader)\<rparr>)"
  using assms by (cases train_loader) (auto simp: next_batch_def restart_iter_def)


subsection \<open>The claims on the checkpoint record, the counter and the iterator\<close>

lemma demo_intervals_ok: "intervals_ok demo_cfg"
  by (simp add: intervals_ok_def demo_cfg_def)

text \<open>
  C4. The record built by \<open>checkpoint_state\<close> has the epoch and the iteration it was
  given. Its optimizer state is the state of the optimizer given, and there is one
  exactly when an optimizer was given. Without a model there is no model state; the
  state of a plain module is stored as it is; for a model wrapped in
  \<open>DistributedDataParallel\<close> the stored model state is the state of the inner module
  with every tensor moved to the host: the same keys and the same values, in the same
  order, every tensor on the host.
\<close>

theorem checkpoint_state_captures:
  "epoch (checkpoint_state pver mdl optim ep iter) = ep
   \<and> it (checkpoint_state pver mdl optim ep iter) = iter
   \<and> optimizer_state (checkpoint_state pver mdl optim ep iter) = map_option opt_state_dict optim
   \<and> (optimizer_state (checkpoint_state pver mdl optim ep iter) \<noteq> None \<longleftrightarrow> optim \<noteq> None)
   \<and> (mdl = None \<longrightarrow> model_state (checkpoint_state pver mdl optim ep iter) = None)
   \<and> (\<forall>sd. mdl = Some (Module sd) \<longrightarrow>
        model_state (checkpoint_state pver mdl optim ep iter) = Some sd)
   \<and> (\<forall>inner. mdl = Some (DistributedDataParallel inner) \<longrightarrow>
        model_state (checkpoint_state pver mdl optim ep iter)
          = Some (map (\<lambda>kv. (fst kv, (snd kv)\<lparr>device := CPU\<rparr>)) inner)
        \<and> (\<exists>sd. model_state (checkpoint_state pver mdl optim ep iter) = Some sd
           \<and> map fst sd = map fst inner
           \<and> map (\<lambda>kv. payload (snd kv)) sd = map (\<lambda>kv. payload (snd kv)) inner
           \<and> (\<forall>kv \<in> set sd. device (snd kv) = CPU)))"
proof -
  have m: "model_state_to_cpu inner = map (\<lambda>kv. (fst kv, (snd kv)\<lparr>device := CPU\<rparr>)) inner"
    for inner
    by (induction inner rule: model_state_to_cpu.induct) (simp_all add: cpu_def)
  have o: "optimizer_state (checkpoint_state pver mdl optim ep iter) = map_option opt_state_dict optim"
    by (simp add: checkpoint_state_def split: option.splits)
  have d: "model_state (checkpoint_state pver (Some (DistributedDataParallel inner)) optim ep iter)
             = Some (model_state_to_cpu inner)" for inner
    by (simp add: checkpoint_state_def)
  have p: "model_state (checkpoint_state pver (Some (Module sd)) optim ep iter) = Some sd" for sd
    by (simp add: checkpoint_state_def)
  have n: "model_state (checkpoint_state pver None optim ep iter) = None"
    by (simp add: checkpoint_state_def)
  have e: "epoch (checkpoint_state pver mdl optim ep iter) = ep"
    and i: "it (checkpoint_state pver mdl optim ep iter) = iter"
    by (simp_all add: checkpoint_state_def)
  have k: "\<forall>kv \<in> set (model_state_to_cpu inner). device (snd kv) = CPU" for inner
    using model_state_to_cpu_device[of _ inner] by auto
  show ?thesis
    using e i o n p d[unfolded m] k[unfolded m]
      model_state_to_cpu_keys[unfolded m] model_state_to_cpu_payload[unfolded m]
    by (auto simp del: map_map)
qed

theorem checkpoint_state_captures_witness:
  "cur_model demo_state = DistributedDataParallel [(''w'', \<lparr>device = CUDA 0, payload = [1, 2]\<rparr>)]
   \<and> epoch (checkpoint_state None (Some (cur_model demo_state))
        (Some \<lparr>opt_lr = 1, opt_state_dict = [(''momentum'', \<lparr>device = CUDA 0, payload = [5]\<rparr>)]\<rparr>)
        (Some 3) (Some 7)) = Some 3
   \<and> it (checkpoint_state None (Some (cur_model demo_state))
        (Some \<lparr>opt_lr = 1, opt_state_dict = [(''momentum'', \<lparr>device = CUDA 0, payload = [5]\<rparr>)]\<rparr>)
        (Some 3) (Some 7)) = Some 7
   \<and> optimizer_state (checkpoint_state None (Some (cur_model demo_state))
        (Some \<lparr>opt_lr = 1, opt_state_dict = [(''momentum'', \<lparr>device = CUDA 0, payload = [5]\<rparr>)]\<rparr>)
        (Some 3) (Some 7)) = Some [(''momentum'', \<lparr>device = CUDA 0, payload = [5]\<rparr>)]
   \<and> model_state (checkpoint_state None (Some (cur_model demo_state))
        (Some \<lparr>opt_lr = 1, opt_state_dict = [(''momentum'', \<lparr>device = CUDA 0, payload = [5]\<rparr>)]\<rparr>)
        (Some 3) (Some 7)) = Some [(''w'', \<lparr>device = CPU, payload = [1, 2]\<rparr>)]
   \<and> optimizer_state (checkpoint_state None
        (Some (Module [(''w'', \<lparr>device = CUDA 0, payload = [1, 2]\<rparr>)])) None (Some 3) (Some 7)) = None
   \<and> model_state (checkpoint_state None
        (Some (Module [(''w'', \<lparr>device = CUDA 0, payload = [1, 2]\<rparr>)])) None (Some 3) (Some 7))
       = Some [(''w'', \<lparr>device = CUDA 0, payload = [1, 2]\<rparr>)]"
  using checkpoint_state_captures
    [of None "Some (cur_model demo_state)"
        "Some \<lparr>opt_lr = 1, opt_state_dict = [(''momentum'', \<lparr>device = CUDA 0, payload = [5]\<rparr>)]\<rparr>"
        "Some 3" "Some 7"]
    checkpoint_state_captures
    [of None "Some (Module [(''w'', \<lparr>device = CUDA 0, payload = [1, 2]\<rparr>)])" None "Some 3" "Some 7"]
  by (simp add: demo_state_def)



text \<open>
  C1. Whenever the epoch driver returns, the steps it took saw the counter values
  \<open>accumulated_iter\<close>, \<open>accumulated_iter + 1\<close>, ... in this order, and the counter it
  returns is the one it was given plus the number of steps taken; it never is smaller.
\<close>

theorem accumulated_iter_counts_iterations:
  assumes "train_one_epoch coll cfg train_loader sched total_it cur_epoch st = Inr st'"
  shows "\<exists>new. steps st' = steps st @ new
           \<and> accumulated_iter st' = accumulated_iter st + int (length new)
           \<and> map (\<lambda>s. fst (snd s)) new = [accumulated_iter st..accumulated_iter st' - 1]
           \<and> accumulated_iter st \<le> accumulated_iter st'"
  using train_one_epoch_steps[OF assms] by auto

theorem accumulated_iter_counts_iterations_witness:
  "train_one_epoch demo_coll demo_cfg [1, 2, 3] Main_scheduler 3 0 (demo_state\<lparr>accumulated_iter := 4\<rparr>)
     = Inr (projr (train_one_epoch demo_coll demo_cfg [1, 2, 3] Main_scheduler 3 0
                     (demo_state\<lparr>accumulated_iter := 4\<rparr>)))
   \<and> accumulated_iter (projr (train_one_epoch demo_coll demo_cfg [1, 2, 3] Main_scheduler 3 0
                     (demo_state\<lparr>accumulated_iter := 4\<rparr>))) = 6
   \<and> map (\<lambda>s. fst (snd s)) (steps (projr (train_one_epoch demo_coll demo_cfg [1, 2, 3] Main_scheduler 3 0
                     (demo_state\<lparr>accumulated_iter := 4\<rparr>)))) = [4, 5]"
proof -
  let ?r = "train_one_epoch demo_coll demo_cfg [1, 2, 3] Main_scheduler 3 0
              (demo_state\<lparr>accumulated_iter := 4\<rparr>)"
  have "\<exists>st'. ?r = Inr st'"
    by (rule train_one_epoch_returns[OF _ demo_intervals_ok]) simp_all
  then have h: "?r = Inr (projr ?r)" by auto
  have s: "steps (demo_state\<lparr>accumulated_iter := 4\<rparr>) = []"
    and a0: "accumulated_iter (demo_state\<lparr>accumulated_iter := 4\<rparr>) = 4"
    by (simp_all add: demo_state_def)
  from accumulated_iter_counts_iterations[OF h] obtain new where
    n: "steps (projr ?r) = new" and
    a: "accumulated_iter (projr ?r) = 4 + int (length new)" and
    c: "map (\<lambda>s. fst (snd s)) new = [4..accumulated_iter (projr ?r) - 1]"
    unfolding s a0 by auto
  from train_one_epoch_steps[OF h] have "map fst (steps (projr ?r)) = [1, 2]"
    unfolding s a0 by (auto simp: upto.simps)
  then have "length (steps (projr ?r)) = 2"
    by (auto dest: arg_cong[where f=length])
  with n a c h show ?thesis by (simp add: upto.simps)
qed

text \<open>
  C10. With a positive number of iterations per epoch, the loop of a returning call
  runs over the indices from \<open>accumulated_iter mod total_it_each_epoch\<close> to
  \<open>total_it_each_epoch - 1\<close>: that many steps are taken, and they are
  \<open>total_it_each_epoch\<close> steps exactly when the counter given is a multiple of it.
\<close>

theorem epoch_starts_at_remainder:
  assumes "train_one_epoch coll cfg train_loader sched total_it cur_epoch st = Inr st'"
    and "0 < total_it"
  shows "\<exists>new. steps st' = steps st @ new
           \<and> map fst new = [accumulated_iter st mod total_it..total_it - 1]
           \<and> int (length new) = total_it - accumulated_iter st mod total_it
           \<and> (int (length new) = total_it \<longleftrightarrow> accumulated_iter st mod total_it = 0)"
proof -
  from train_one_epoch_steps[OF assms(1)] obtain new where
    s: "steps st' = steps st @ new" and
    f: "map fst new = [accumulated_iter st mod total_it..total_it - 1]" by blast
  from assms(2) have "accumulated_iter st mod total_it < total_it" by simp
  with f have "int (length new) = total_it - accumulated_iter st mod total_it"
    by (auto dest: arg_cong[where f=length])
  with s f show ?thesis by (intro exI[of _ new]) auto
qed

theorem epoch_starts_at_remainder_witness:
  "train_one_epoch demo_coll demo_cfg [1, 2, 3] Main_scheduler 3 0 (demo_state\<lparr>accumulated_iter := 4\<rparr>)
     = Inr (projr (train_one_epoch demo_coll demo_cfg [1, 2, 3] Main_scheduler 3 0
                     (demo_state\<lparr>accumulated_iter := 4\<rparr>)))
   \<and> (0::int) < 3
   \<and> map fst (steps (projr (train_one_epoch demo_coll demo_cfg [1, 2, 3] Main_scheduler 3 0
                     (demo_state\<lparr>accumulated_iter := 4\<rparr>)))) = [1, 2]"
proof -
  let ?r = "train_one_epoch demo_coll demo_cfg [1, 2, 3] Main_scheduler 3 0
              (demo_state\<lparr>accumulated_iter := 4\<rparr>)"
  have "\<exists>st'. ?r = Inr st'"
    by (rule train_one_epoch_returns[OF _ demo_intervals_ok]) simp_all
  then have h: "?r = Inr (projr ?r)" by auto
  have s: "steps (demo_state\<lparr>accumulated_iter := 4\<rparr>) = []"
    and a0: "accumulated_iter (demo_state\<lparr>accumulated_iter := 4\<rparr>) = 4"
    by (simp_all add: demo_state_def)
  from epoch_starts_at_remainder[OF h] h show ?thesis
    unfolding s a0 by (auto simp: upto.simps)
qed

text \<open>
  C3, as the code has it. With a loader that yields at least one batch, a pull from
  an exhausted iterator gives the first batch of a fresh iterator over the loader and
  goes on from there, the driver never ends in \<open>StopIteration\<close>, and when no interval
  is 0 it returns after the steps for all indices up to \<open>total_it_each_epoch - 1\<close>.
\<close>

theorem exhaustion_restarts_iterator:
  assumes "train_loader \<noteq> []"
  shows "train_one_epoch coll cfg train_loader sched total_it cur_epoch st \<noteq> Inl StopIteration
    \<and> (fresh_iter s = Some [] \<or> (fresh_iter s = None \<and> dataloader_iter s = []) \<longrightarrow>
         next_batch train_loader s
           = Inr (hd train_loader, s\<lparr>fresh_iter := Some (tl train_loader)\<rparr>))
    \<and> (intervals_ok cfg \<and> total_it \<noteq> 0 \<longrightarrow>
         (\<exists>st' new. train_one_epoch coll cfg train_loader sched total_it cur_epoch st = Inr st'
            \<and> steps st' = steps st @ new
            \<and> map fst new = [accumulated_iter st mod total_it..total_it - 1]))"
proof (intro conjI impI)
  show "train_one_epoch coll cfg train_loader sched total_it cur_epoch st \<noteq> Inl StopIteration"
    using run_iters_no_stop[OF assms] by (simp add: train_one_epoch_def Let_def)
next
  assume "fresh_iter s = Some [] \<or> (fresh_iter s = None \<and> dataloader_iter s = [])"
  with assms show "next_batch train_loader s
           = Inr (hd train_loader, s\<lparr>fresh_iter := Some (tl train_loader)\<rparr>)"
    by (rule next_batch_exhausted)
next
  assume "intervals_ok cfg \<and> total_it \<noteq> 0"
  then have "\<exists>st'. train_one_epoch coll cfg train_loader sched total_it cur_epoch st = Inr st'"
    using assms by (intro train_one_epoch_returns) simp_all
  then obtain st' where
    r: "train_one_epoch coll cfg train_loader sched total_it cur_epoch st = Inr st'" ..
  from train_one_epoch_steps[OF r] r
  show "\<exists>st' new. train_one_epoch coll cfg train_loader sched total_it cur_epoch st = Inr st'
            \<and> steps st' = steps st @ new
            \<and> map fst new = [accumulated_iter st mod total_it..total_it - 1]"
    by blast
qed

theorem exhaustion_restarts_iterator_witness:
  "[1, 2] \<noteq> ([] :: nat list)
   \<and> fresh_iter (demo_state\<lparr>dataloader_iter := []\<rparr>) = None
   \<and> dataloader_iter (demo_state\<lparr>dataloader_iter := []\<rparr>) = []
   \<and> intervals_ok demo_cfg \<and> (3::int) \<noteq> 0
   \<and> train_one_epoch demo_coll demo_cfg [1, 2] Main_scheduler 3 0 (demo_state\<lparr>dataloader_iter := [2]\<rparr>)
       \<noteq> Inl StopIteration
   \<and> map fst (steps (projr (train_one_epoch demo_coll demo_cfg [1, 2] Main_scheduler 3 0
                               (demo_state\<lparr>dataloader_iter := [2]\<rparr>)))) = [0, 1, 2]
   \<and> next_batch [1, 2] (demo_state\<lparr>dataloader_iter := []\<rparr>)
       = Inr (1, demo_state\<lparr>dataloader_iter := [], fresh_iter := Some [2]\<rparr>)"
proof -
  have d: "fresh_iter (demo_state\<lparr>dataloader_iter := []\<rparr>) = None"
    "dataloader_iter (demo_state\<lparr>dataloader_iter := []\<rparr>) = []"
    "steps (demo_state\<lparr>dataloader_iter := [2]\<rparr>) = []"
    "accumulated_iter (demo_state\<lparr>dataloader_iter := [2]\<rparr>) = 0"
    by (simp_all add: demo_state_def)
  have ne: "[1, 2] \<noteq> ([] :: nat list)" by simp
  from exhaustion_restarts_iterator
    [OF ne, of demo_coll demo_cfg Main_scheduler 3 0 "demo_state\<lparr>dataloader_iter := [2]\<rparr>"
        "demo_state\<lparr>dataloader_iter := []\<rparr>"]
  show ?thesis
    unfolding d using demo_intervals_ok by (auto simp: upto.simps d)
qed

text \<open>
  C3 as stated fails: with a loader that yields no batch, the pull of the handler
  raises \<open>StopIteration\<close> in its turn and the driver ends with it.
\<close>

theorem exhaustion_propagates_counterexample:
  "train_one_epoch demo_coll demo_cfg [] Main_scheduler 1 0 demo_state = Inl StopIteration"
  by (simp add: train_one_epoch_def epoch_init_def train_iter_def next_batch_def restart_iter_def
        bind_err_def demo_state_def demo_cfg_def upto.simps Let_def)


subsection \<open>What the lead worker logs\<close>

lemma progress_lines_append:
  "progress_lines (xs @ ys) = progress_lines xs @ progress_lines ys"
  by (induction xs rule: progress_lines.induct) simp_all

lemma update_meters_timing:
  shows "data_time (update_meters clk r st) = update (avg_data_time clk) (data_time st)"
    and "forward_time (update_meters clk r st) = update (avg_forward_time clk) (forward_time st)"
    and "batch_time (update_meters clk r st) = update (avg_batch_time clk) (batch_time st)"
    and "loss_disp (update_meters clk r st) = update (loss r) (loss_disp st)"
  by (simp_all add: update_meters_def Let_def split: option.splits prod.splits)

lemma log_phase_cases:
  assumes "log_phase coll cfg total_it cur_epoch start_it cur_it batch r st = Inr st'"
  shows "(st' = st \<and> \<not> (use_logger_to_record cfg
                          \<and> emit_now cfg total_it start_it cur_it (accumulated_iter st)))
       \<or> (use_logger_to_record cfg \<and> emit_now cfg total_it start_it cur_it (accumulated_iter st)
          \<and> progress_lines (logged st')
              = progress_lines (logged st)
                @ [progress_line coll cfg total_it cur_epoch start_it cur_it batch r st]
          \<and> loss_disp st' = reset \<and> hm_loss_disp st' = reset \<and> loc_loss_disp st' = reset
          \<and> rcnn_cls_loss_disp st' = reset \<and> rcnn_reg_loss_disp st' = reset)"
  using assms by (auto simp: log_phase_def progress_lines_append split: if_splits)

lemma ckpt_phase_lines:
  assumes "ckpt_phase coll cfg cur_epoch cur_it st = Inr st'"
  shows "progress_lines (logged st') = progress_lines (logged st)"
  using assms by (auto simp: ckpt_phase_def Let_def progress_lines_append split: if_splits)

text \<open>One iteration of the lead worker, seen from the log.\<close>

lemma train_iter_lines:
  assumes "train_iter coll cfg train_loader sched total_it cur_epoch start_it cur_it st = Inr st'"
  shows "(progress_lines (logged st') = progress_lines (logged st)
          \<and> \<not> (rank cfg = 0 \<and> use_logger_to_record cfg
                \<and> emit_now cfg total_it start_it cur_it (accumulated_iter st + 1)))
       \<or> (rank cfg = 0 \<and> use_logger_to_record cfg
          \<and> emit_now cfg total_it start_it cur_it (accumulated_iter st + 1)
          \<and> (\<exists>l. progress_lines (logged st') = progress_lines (logged st) @ [l]
                \<and> cur_iter l = cur_it \<and> acc_iter l = accumulated_iter st + 1
                \<and> remaining_all l
                    = pbar_elapsed_rate (clock coll cur_epoch cur_it)
                        / max (of_int (cur_it - start_it + 1)) 1
                      * of_int ((total_epochs cfg - cur_epoch) * total_it - cur_it))
          \<and> loss_disp st' = reset \<and> hm_loss_disp st' = reset \<and> loc_loss_disp st' = reset
          \<and> rcnn_cls_loss_disp st' = reset \<and> rcnn_reg_loss_disp st' = reset)"
proof -
  from assms obtain batch st1 where
    nb: "next_batch train_loader st = Inr (batch, st1)" and
    body: "if rank cfg = 0
         then \<exists>st3. log_phase coll cfg total_it cur_epoch start_it cur_it batch
                       (run_step coll sched st1 batch)
                       (update_meters (clock coll cur_epoch cur_it) (run_step coll sched st1 batch)
                          (take_step (run_step coll sched st1 batch) cur_it batch st1)) = Inr st3
                  \<and> ckpt_phase coll cfg cur_epoch cur_it st3 = Inr st'
         else st' = take_step (run_step coll sched st1 batch) cur_it batch st1"
    unfolding train_iter_Inr_iff by blast
  let ?r = "run_step coll sched st1 batch"
  let ?st2 = "update_meters (clock coll cur_epoch cur_it) ?r (take_step ?r cur_it batch st1)"
  have a2: "accumulated_iter ?st2 = accumulated_iter st + 1"
    and l2: "logged ?st2 = logged st"
    using next_batch_keeps(1,3)[OF nb] by (simp_all add: update_meters_keeps take_step_fields)
  show ?thesis
  proof (cases "rank cfg = 0")
    case False
    with body next_batch_keeps(3)[OF nb] show ?thesis by (simp add: take_step_fields)
  next
    case True
    with body obtain st3 where
      l: "log_phase coll cfg total_it cur_epoch start_it cur_it batch ?r ?st2 = Inr st3" and
      c: "ckpt_phase coll cfg cur_epoch cur_it st3 = Inr st'" by auto
    note keep = ckpt_phase_keeps[OF c] ckpt_phase_lines[OF c]
    from log_phase_cases[OF l] show ?thesis
    proof (elim disjE conjE)
      assume "st3 = ?st2"
        and "\<not> (use_logger_to_record cfg \<and> emit_now cfg total_it start_it cur_it (accumulated_iter ?st2))"
      with keep a2 l2 show ?thesis by simp
    next
      assume e: "use_logger_to_record cfg" "emit_now cfg total_it start_it cur_it (accumulated_iter ?st2)"
        and p: "progress_lines (logged st3) = progress_lines (logged ?st2)
                  @ [progress_line coll cfg total_it cur_epoch start_it cur_it batch ?r ?st2]"
        and m: "loss_disp st3 = reset" "hm_loss_disp st3 = reset" "loc_loss_disp st3 = reset"
          "rcnn_cls_loss_disp st3 = reset" "rcnn_reg_loss_disp st3 = reset"
      let ?l = "progress_line coll cfg total_it cur_epoch start_it cur_it batch ?r ?st2"
      have "cur_iter ?l = cur_it" "acc_iter ?l = accumulated_iter st + 1"
        "remaining_all ?l
           = pbar_elapsed_rate (clock coll cur_epoch cur_it) / max (of_int (cur_it - start_it + 1)) 1
             * of_int ((total_epochs cfg - cur_epoch) * total_it - cur_it)"
        using a2 by (simp_all add: progress_line_def Let_def)
      with True e p m keep a2 l2 show ?thesis by simp
    qed
  qed
qed

lemma train_iter_timing:
  assumes "train_iter coll cfg train_loader sched total_it cur_epoch start_it cur_it st = Inr st'"
    and "rank cfg = 0"
  shows "data_time st' = update (avg_data_time (clock coll cur_epoch cur_it)) (data_time st)"
    and "forward_time st' = update (avg_forward_time (clock coll cur_epoch cur_it)) (forward_time st)"
    and "batch_time st' = update (avg_batch_time (clock coll cur_epoch cur_it)) (batch_time st)"
proof -
  from assms obtain batch st1 st3 where
    nb: "next_batch train_loader st = Inr (batch, st1)" and
    l: "log_phase coll cfg total_it cur_epoch start_it cur_it batch
                       (run_step coll sched st1 batch)
                       (update_meters (clock coll cur_epoch cur_it) (run_step coll sched st1 batch)
                          (take_step (run_step coll sched st1 batch) cur_it batch st1)) = Inr st3" and
    c: "ckpt_phase coll cfg cur_epoch cur_it st3 = Inr st'"
    unfolding train_iter_Inr_iff by auto
  have t: "data_time (take_step (run_step coll sched st1 batch) cur_it batch st1) = data_time st"
    "forward_time (take_step (run_step coll sched st1 batch) cur_it batch st1) = forward_time st"
    "batch_time (take_step (run_step coll sched st1 batch) cur_it batch st1) = batch_time st"
    using next_batch_keeps[OF nb] by (simp_all add: take_step_def)
  show "data_time st' = update (avg_data_time (clock coll cur_epoch cur_it)) (data_time st)"
    and "forward_time st' = update (avg_forward_time (clock coll cur_epoch cur_it)) (forward_time st)"
    and "batch_time st' = update (avg_batch_time (clock coll cur_epoch cur_it)) (batch_time st)"
    using log_phase_keeps[OF l] ckpt_phase_keeps[OF c] t
    by (simp_all add: update_meters_timing)
qed

lemma run_iters_lines:
  assumes "run_iters coll cfg train_loader sched total_it cur_epoch start_it its st = Inr st'"
    and "rank cfg = 0" and "use_logger_to_record cfg"
  shows "\<exists>new. progress_lines (logged st') = progress_lines (logged st) @ new
           \<and> map (\<lambda>l. (cur_iter l, acc_iter l)) new
               = emissions cfg total_it start_it its (accumulated_iter st)
           \<and> (\<forall>l \<in> set new. remaining_all l
                  = pbar_elapsed_rate (clock coll cur_epoch (cur_iter l))
                      / max (of_int (cur_iter l - start_it + 1)) 1
                    * of_int ((total_epochs cfg - cur_epoch) * total_it - cur_iter l))"
  using assms(1)
proof (induction its arbitrary: st)
  case Nil
  then show ?case by simp
next
  case (Cons i its)
  let ?ok = "\<lambda>l. remaining_all l
                  = pbar_elapsed_rate (clock coll cur_epoch (cur_iter l))
                      / max (of_int (cur_iter l - start_it + 1)) 1
                    * of_int ((total_epochs cfg - cur_epoch) * total_it - cur_iter l)"
  from Cons.prems obtain mid where
    it: "train_iter coll cfg train_loader sched total_it cur_epoch start_it i st = Inr mid" and
    rest: "run_iters coll cfg train_loader sched total_it cur_epoch start_it its mid = Inr st'"
    by (auto simp: bind_err_Inr_iff)
  from train_iter_step[OF it] have am: "accumulated_iter mid = accumulated_iter st + 1" by simp
  from Cons.IH[OF rest] obtain new where
    n1: "progress_lines (logged st') = progress_lines (logged mid) @ new" and
    n2: "map (\<lambda>l. (cur_iter l, acc_iter l)) new
           = emissions cfg total_it start_it its (accumulated_iter st + 1)" and
    n3: "\<forall>l \<in> set new. ?ok l"
    unfolding am by blast
  from train_iter_lines[OF it] show ?case
  proof (elim disjE conjE exE)
    assume "progress_lines (logged mid) = progress_lines (logged st)"
      and "\<not> (rank cfg = 0 \<and> use_logger_to_record cfg
              \<and> emit_now cfg total_it start_it i (accumulated_iter st + 1))"
    with assms(2,3) n1 n2 n3 show ?case by (intro exI[of _ new]) simp
  next
    fix l
    assume "emit_now cfg total_it start_it i (accumulated_iter st + 1)"
      and "progress_lines (logged mid) = progress_lines (logged st) @ [l]"
      and "cur_iter l = i" and "acc_iter l = accumulated_iter st + 1"
      and "remaining_all l
             = pbar_elapsed_rate (clock coll cur_epoch i) / max (of_int (i - start_it + 1)) 1
               * of_int ((total_epochs cfg - cur_epoch) * total_it - i)"
    with n1 n2 n3 show ?case by (intro exI[of _ "l # new"]) simp
  qed
qed

lemma meter_window:
  "m_sum (fold update vs m) = m_sum m + sum_list vs
   \<and> m_count (fold update vs m) = m_count m + length vs"
  by (induction vs arbitrary: m) (simp_all add: update_def)

lemma avg_fold_mean: "avg (fold update vs reset) = mean vs"
  using meter_window[of vs reset] by (simp add: avg_def reset_def mean_def)

text \<open>The loss meters of the lead worker, window by window.\<close>

lemma meters_hold_fed:
  assumes "meters_hold st w"
  shows "meters_hold (update_meters clk r st) (w @ [r])"
  using assms
  by (simp add: meters_hold_def update_meters_def Let_def fed_hm_def fed_loc_def
        fed_rcnn_cls_def fed_rcnn_reg_def split: option.splits prod.splits)

lemma line_of_window:
  assumes "meters_hold st w"
  shows "line_shows_means
           (progress_line coll cfg total_it cur_epoch start_it cur_it batch (last w) st) w"
  using assms
  by (simp add: meters_hold_def line_shows_means_def progress_line_def Let_def avg_fold_mean)

lemma train_iter_window:
  assumes "train_iter coll cfg train_loader sched total_it cur_epoch start_it cur_it st = Inr st'"
    and "rank cfg = 0" and "use_logger_to_record cfg" and "meters_hold st w"
  shows "\<exists>r. outcomes st' = outcomes st @ [r]
           \<and> (if emit_now cfg total_it start_it cur_it (accumulated_iter st + 1)
              then (\<exists>l. progress_lines (logged st') = progress_lines (logged st) @ [l]
                      \<and> acc_iter l = accumulated_iter st + 1
                      \<and> line_shows_means l (w @ [r]))
                   \<and> meters_hold st' []
              else progress_lines (logged st') = progress_lines (logged st)
                   \<and> meters_hold st' (w @ [r]))"
proof -
  from assms(1,2) obtain batch st1 st3 where
    nb: "next_batch train_loader st = Inr (batch, st1)" and
    l: "log_phase coll cfg total_it cur_epoch start_it cur_it batch
                       (run_step coll sched st1 batch)
                       (update_meters (clock coll cur_epoch cur_it) (run_step coll sched st1 batch)
                          (take_step (run_step coll sched st1 batch) cur_it batch st1)) = Inr st3" and
    c: "ckpt_phase coll cfg cur_epoch cur_it st3 = Inr st'"
    unfolding train_iter_Inr_iff by auto
  let ?r = "run_step coll sched st1 batch"
  let ?st2 = "update_meters (clock coll cur_epoch cur_it) ?r (take_step ?r cur_it batch st1)"
  have "meters_hold (take_step ?r cur_it batch st1) w"
    using assms(4) next_batch_keeps[OF nb] by (simp add: meters_hold_def take_step_fields)
  then have h2: "meters_hold ?st2 (w @ [?r])" by (rule meters_hold_fed)
  have a2: "accumulated_iter ?st2 = accumulated_iter st + 1"
    and l2: "logged ?st2 = logged st"
    and o2: "outcomes ?st2 = outcomes st @ [?r]"
    using next_batch_keeps[OF nb] by (simp_all add: update_meters_keeps take_step_fields)
  have o: "outcomes st' = outcomes st @ [?r]"
    using ckpt_phase_keeps(13)[OF c] log_phase_keeps(12)[OF l] o2 by simp
  have m: "meters_hold st' v = meters_hold st3 v" for v
    using ckpt_phase_keeps[OF c] by (simp add: meters_hold_def)
  note p = ckpt_phase_lines[OF c]
  show ?thesis
  proof (cases "emit_now cfg total_it start_it cur_it (accumulated_iter st + 1)")
    case False
    with log_phase_cases[OF l] a2 have "st3 = ?st2" by auto
    with False o h2 m p l2 show ?thesis by (intro exI[of _ ?r]) simp
  next
    case True
    let ?l = "progress_line coll cfg total_it cur_epoch start_it cur_it batch ?r ?st2"
    from log_phase_cases[OF l] True assms(3) a2 have
      e: "progress_lines (logged st3) = progress_lines (logged ?st2) @ [?l]" and
      z: "loss_disp st3 = reset" "hm_loss_disp st3 = reset" "loc_loss_disp st3 = reset"
        "rcnn_cls_loss_disp st3 = reset" "rcnn_reg_loss_disp st3 = reset"
      by auto
    have "acc_iter ?l = accumulated_iter st + 1"
      using a2 by (simp add: progress_line_def Let_def)
    moreover have "line_shows_means ?l (w @ [?r])"
      using line_of_window[OF h2, of coll cfg total_it cur_epoch start_it cur_it batch] by simp
    moreover have "meters_hold st3 []" using z by (simp add: meters_hold_def)
    then have "meters_hold st' []" by (simp only: m)
    ultimately show ?thesis using True o e p l2 by (intro exI[of _ ?r]) simp
  qed
qed

lemma run_iters_windows:
  assumes "run_iters coll cfg train_loader sched total_it cur_epoch start_it its st = Inr st'"
    and "rank cfg = 0" and "use_logger_to_record cfg" and "meters_hold st w0"
  shows "\<exists>ls ws rest new. progress_lines (logged st') = progress_lines (logged st) @ ls
           \<and> outcomes st' = outcomes st @ new
           \<and> w0 @ new = concat ws @ rest
           \<and> windows_shown (accumulated_iter st - int (length w0)) ls ws
           \<and> meters_hold st' rest
           \<and> (its = [] \<longrightarrow> rest = w0)
           \<and> (its \<noteq> [] \<and> last its + 1 = total_it \<longrightarrow> rest = [])"
  using assms(1,4)
proof (induction its arbitrary: st w0)
  case Nil
  then show ?case
    by (intro exI[of _ "[]"] exI[of _ w0]) simp
next
  case (Cons i its)
  from Cons.prems(1) obtain mid where
    it: "train_iter coll cfg train_loader sched total_it cur_epoch start_it i st = Inr mid" and
    rest: "run_iters coll cfg train_loader sched total_it cur_epoch start_it its mid = Inr st'"
    by (auto simp: bind_err_Inr_iff)
  from train_iter_step[OF it] have am: "accumulated_iter mid = accumulated_iter st + 1" by simp
  from train_iter_window[OF it assms(2,3) Cons.prems(2)] obtain r where
    o: "outcomes mid = outcomes st @ [r]" and
    w: "if emit_now cfg total_it start_it i (accumulated_iter st + 1)
        then (\<exists>l. progress_lines (logged mid) = progress_lines (logged st) @ [l]
                \<and> acc_iter l = accumulated_iter st + 1
                \<and> line_shows_means l (w0 @ [r]))
             \<and> meters_hold mid []
        else progress_lines (logged mid) = progress_lines (logged st)
             \<and> meters_hold mid (w0 @ [r])"
    by blast
  show ?case
  proof (cases "emit_now cfg total_it start_it i (accumulated_iter st + 1)")
    case True
    with w obtain l where
      pl: "progress_lines (logged mid) = progress_lines (logged st) @ [l]" and
      al: "acc_iter l = accumulated_iter st + 1" and
      sl: "line_shows_means l (w0 @ [r])" and
      hm: "meters_hold mid []" by auto
    from Cons.IH[OF rest hm] obtain ls ws tl new where
      p': "progress_lines (logged st') = progress_lines (logged mid) @ ls" and
      o': "outcomes st' = outcomes mid @ new" and
      c': "new = concat ws @ tl" and
      s': "windows_shown (accumulated_iter mid) ls ws" and
      h': "meters_hold st' tl" and
      e': "its = [] \<longrightarrow> tl = []" and
      f': "its \<noteq> [] \<and> last its + 1 = total_it \<longrightarrow> tl = []"
      by auto
    have "windows_shown (accumulated_iter st - int (length w0)) (l # ls) ((w0 @ [r]) # ws)"
      using al sl s' am by simp
    with p' o' c' h' e' f' pl o show ?thesis
      by (intro exI[of _ "l # ls"] exI[of _ "(w0 @ [r]) # ws"] exI[of _ tl] exI[of _ "r # new"])
        auto
  next
    case False
    with w have
      pl: "progress_lines (logged mid) = progress_lines (logged st)" and
      hm: "meters_hold mid (w0 @ [r])" by auto
    from False have nl: "i + 1 \<noteq> total_it" by (auto simp: emit_now_def)
    from Cons.IH[OF rest hm] obtain ls ws tl new where
      p': "progress_lines (logged st') = progress_lines (logged mid) @ ls" and
      o': "outcomes st' = outcomes mid @ new" and
      c': "(w0 @ [r]) @ new = concat ws @ tl" and
      s': "windows_shown (accumulated_iter mid - int (length (w0 @ [r]))) ls ws" and
      h': "meters_hold st' tl" and
      f': "its \<noteq> [] \<and> last its + 1 = total_it \<longrightarrow> tl = []"
      by auto
    have "windows_shown (accumulated_iter st - int (length w0)) ls ws"
      using s' am by simp
    with p' o' c' h' f' pl o nl show ?thesis
      by (intro exI[of _ ls] exI[of _ ws] exI[of _ tl] exI[of _ "r # new"]) auto
  qed
qed

lemma run_iters_timing:
  assumes "run_iters coll cfg train_loader sched total_it cur_epoch start_it its st = Inr st'"
    and "rank cfg = 0"
  shows "data_time st'
           = fold update (map (\<lambda>i. avg_data_time (clock coll cur_epoch i)) its) (data_time st)"
    and "forward_time st'
           = fold update (map (\<lambda>i. avg_forward_time (clock coll cur_epoch i)) its) (forward_time st)"
    and "batch_time st'
           = fold update (map (\<lambda>i. avg_batch_time (clock coll cur_epoch i)) its) (batch_time st)"
  using assms(1)
proof (induction its arbitrary: st)
  case Nil
  {
    case 1
    then show ?case by simp
  next
    case 2
    then show ?case by simp
  next
    case 3
    then show ?case by simp
  }
next
  case (Cons i its)
  {
    case 1
    then obtain mid where
      it: "train_iter coll cfg train_loader sched total_it cur_epoch start_it i st = Inr mid" and
      rest: "run_iters coll cfg train_loader sched total_it cur_epoch start_it its mid = Inr st'"
      by (auto simp: bind_err_Inr_iff)
    from Cons.IH(1)[OF rest] train_iter_timing(1)[OF it assms(2)] show ?case by simp
  next
    case 2
    then obtain mid where
      it: "train_iter coll cfg train_loader sched total_it cur_epoch start_it i st = Inr mid" and
      rest: "run_iters coll cfg train_loader sched total_it cur_epoch start_it its mid = Inr st'"
      by (auto simp: bind_err_Inr_iff)
    from Cons.IH(2)[OF rest] train_iter_timing(2)[OF it assms(2)] show ?case by simp
  next
    case 3
    then obtain mid where
      it: "train_iter coll cfg train_loader sched total_it cur_epoch start_it i st = Inr mid" and
      rest: "run_iters coll cfg train_loader sched total_it cur_epoch start_it its mid = Inr st'"
      by (auto simp: bind_err_Inr_iff)
    from Cons.IH(3)[OF rest] train_iter_timing(3)[OF it assms(2)] show ?case by simp
  }
qed

lemma epoch_init_meters:
  assumes "rank cfg = 0"
  shows "meters_hold (epoch_init cfg train_loader total_it st) []"
    and "data_time (epoch_init cfg train_loader total_it st) = reset"
    and "forward_time (epoch_init cfg train_loader total_it st) = reset"
    and "batch_time (epoch_init cfg train_loader total_it st) = reset"
  using assms by (simp_all add: epoch_init_def meters_hold_def Let_def)

lemma last_upto: "i \<le> j \<Longrightarrow> last [i..j] = j"
  using upto_rec2[of i j] by simp

text \<open>What the steps of the loop return: the outcome of the training step at each counter.\<close>

lemma train_iter_outcome:
  assumes "train_iter coll cfg train_loader sched total_it cur_epoch start_it cur_it st = Inr st'"
  shows "\<exists>batch. outcomes st'
           = outcomes st @ [train_step coll sched (accumulated_iter st) (cur_model st)
                              (cur_optimizer st) batch]"
proof -
  from assms obtain batch st1 where
    nb: "next_batch train_loader st = Inr (batch, st1)" and
    body: "if rank cfg = 0
         then \<exists>st3. log_phase coll cfg total_it cur_epoch start_it cur_it batch
                       (run_step coll sched st1 batch)
                       (update_meters (clock coll cur_epoch cur_it) (run_step coll sched st1 batch)
                          (take_step (run_step coll sched st1 batch) cur_it batch st1)) = Inr st3
                  \<and> ckpt_phase coll cfg cur_epoch cur_it st3 = Inr st'
         else st' = take_step (run_step coll sched st1 batch) cur_it batch st1"
    unfolding train_iter_Inr_iff by blast
  have r: "run_step coll sched st1 batch
             = train_step coll sched (accumulated_iter st) (cur_model st) (cur_optimizer st) batch"
    using next_batch_keeps[OF nb] by (simp add: run_step_def)
  show ?thesis
  proof (cases "rank cfg = 0")
    case False
    with body next_batch_keeps(16)[OF nb] r show ?thesis by (auto simp: take_step_fields)
  next
    case True
    with body obtain st3 where
      l: "log_phase coll cfg total_it cur_epoch start_it cur_it batch
                       (run_step coll sched st1 batch)
                       (update_meters (clock coll cur_epoch cur_it) (run_step coll sched st1 batch)
                          (take_step (run_step coll sched st1 batch) cur_it batch st1)) = Inr st3" and
      c: "ckpt_phase coll cfg cur_epoch cur_it st3 = Inr st'" by auto
    from ckpt_phase_keeps(13)[OF c] log_phase_keeps(12)[OF l] next_batch_keeps(16)[OF nb] r
    show ?thesis by (auto simp: update_meters_keeps take_step_fields)
  qed
qed

lemma run_iters_outcomes:
  assumes "run_iters coll cfg train_loader sched total_it cur_epoch start_it its st = Inr st'"
  shows "\<exists>new. outcomes st' = outcomes st @ new \<and> length new = length its
           \<and> (\<forall>k < length new. \<exists>m opt batch.
                  new ! k = train_step coll sched (accumulated_iter st + int k) m opt batch)"
  using assms
proof (induction its arbitrary: st)
  case Nil
  then show ?case by simp
next
  case (Cons i its)
  from Cons.prems obtain mid where
    it: "train_iter coll cfg train_loader sched total_it cur_epoch start_it i st = Inr mid" and
    rest: "run_iters coll cfg train_loader sched total_it cur_epoch start_it its mid = Inr st'"
    by (auto simp: bind_err_Inr_iff)
  from train_iter_step[OF it] have am: "accumulated_iter mid = accumulated_iter st + 1" by simp
  from train_iter_outcome[OF it] obtain batch where
    om: "outcomes mid = outcomes st @ [train_step coll sched (accumulated_iter st) (cur_model st)
                                         (cur_optimizer st) batch]" by blast
  from Cons.IH[OF rest] obtain new where
    o: "outcomes st' = outcomes mid @ new" and n: "length new = length its" and
    e: "\<forall>k < length new. \<exists>m opt batch.
           new ! k = train_step coll sched (accumulated_iter mid + int k) m opt batch" by blast
  let ?r = "train_step coll sched (accumulated_iter st) (cur_model st) (cur_optimizer st) batch"
  have "\<exists>m opt batch. (?r # new) ! k = train_step coll sched (accumulated_iter st + int k) m opt batch"
    if "k < length (?r # new)" for k
  proof (cases k)
    case 0
    then show ?thesis by auto
  next
    case (Suc j)
    with that e am show ?thesis by (auto simp: algebra_simps)
  qed
  with o om n show ?case by (intro exI[of _ "?r # new"]) simp
qed

lemma windows_shown_single:
  assumes "windows_shown acc [l] ws"
  shows "\<exists>w. ws = [w] \<and> line_shows_means l w"
  using assms by (cases ws; cases "tl ws") auto

text \<open>
  C6, as the code has it. When an iteration has emitted a progress line, the five loss
  meters are empty after it, while each of the three timing meters has taken the value
  of the iteration and been left with it. So, for the lead worker with the verbose
  logger, the steps of an epoch fall into consecutive windows, one for each progress
  line of the epoch and each ending with the step that emits its line; the line shows
  the arithmetic means of the losses of the steps of its window and of no other step;
  at the end of the epoch the five loss meters are empty, and each timing meter has
  taken the values of all iterations of the epoch.
\<close>

theorem loss_meters_average_their_window:
  "(train_iter coll cfg train_loader sched total_it cur_epoch start_it cur_it s = Inr s'
      \<and> progress_lines (logged s') \<noteq> progress_lines (logged s) \<longrightarrow>
    loss_disp s' = reset \<and> hm_loss_disp s' = reset \<and> loc_loss_disp s' = reset
    \<and> rcnn_cls_loss_disp s' = reset \<and> rcnn_reg_loss_disp s' = reset
    \<and> data_time s' = update (avg_data_time (clock coll cur_epoch cur_it)) (data_time s)
    \<and> forward_time s' = update (avg_forward_time (clock coll cur_epoch cur_it)) (forward_time s)
    \<and> batch_time s' = update (avg_batch_time (clock coll cur_epoch cur_it)) (batch_time s))
   \<and> (train_one_epoch coll cfg train_loader sched total_it cur_epoch st = Inr st'
      \<and> rank cfg = 0 \<and> use_logger_to_record cfg \<longrightarrow>
    (\<exists>ls ws. progress_lines (logged st') = progress_lines (logged st) @ ls
        \<and> outcomes st' = outcomes st @ concat ws
        \<and> windows_shown (accumulated_iter st) ls ws)
    \<and> loss_disp st' = reset \<and> hm_loss_disp st' = reset \<and> loc_loss_disp st' = reset
    \<and> rcnn_cls_loss_disp st' = reset \<and> rcnn_reg_loss_disp st' = reset
    \<and> data_time st'
        = fold update (map (\<lambda>i. avg_data_time (clock coll cur_epoch i))
                         [accumulated_iter st mod total_it..total_it - 1]) reset
    \<and> forward_time st'
        = fold update (map (\<lambda>i. avg_forward_time (clock coll cur_epoch i))
                         [accumulated_iter st mod total_it..total_it - 1]) reset
    \<and> batch_time st'
        = fold update (map (\<lambda>i. avg_batch_time (clock coll cur_epoch i))
                         [accumulated_iter st mod total_it..total_it - 1]) reset)"
proof (rule conjI; rule impI)
  assume a: "train_iter coll cfg train_loader sched total_it cur_epoch start_it cur_it s = Inr s'
      \<and> progress_lines (logged s') \<noteq> progress_lines (logged s)"
  then have it: "train_iter coll cfg train_loader sched total_it cur_epoch start_it cur_it s = Inr s'"
    by simp
  from train_iter_lines[OF it] a have
    lead: "rank cfg = 0" and
    m: "loss_disp s' = reset \<and> hm_loss_disp s' = reset \<and> loc_loss_disp s' = reset
    \<and> rcnn_cls_loss_disp s' = reset \<and> rcnn_reg_loss_disp s' = reset" by auto
  from m train_iter_timing[OF it lead] show
    "loss_disp s' = reset \<and> hm_loss_disp s' = reset \<and> loc_loss_disp s' = reset
    \<and> rcnn_cls_loss_disp s' = reset \<and> rcnn_reg_loss_disp s' = reset
    \<and> data_time s' = update (avg_data_time (clock coll cur_epoch cur_it)) (data_time s)
    \<and> forward_time s' = update (avg_forward_time (clock coll cur_epoch cur_it)) (forward_time s)
    \<and> batch_time s' = update (avg_batch_time (clock coll cur_epoch cur_it)) (batch_time s)"
    by simp
next
  assume a: "train_one_epoch coll cfg train_loader sched total_it cur_epoch st = Inr st'
      \<and> rank cfg = 0 \<and> use_logger_to_record cfg"
  let ?s = "accumulated_iter st mod total_it"
  let ?st0 = "epoch_init cfg train_loader total_it st"
  from a have lead: "rank cfg = 0" and verbose: "use_logger_to_record cfg" and
    r: "run_iters coll cfg train_loader sched total_it cur_epoch ?s [?s..total_it - 1] ?st0 = Inr st'"
    by (simp_all add: train_one_epoch_Inr_iff)
  from run_iters_windows[OF r lead verbose epoch_init_meters(1)[OF lead]]
  obtain ls ws tl new where
    p: "progress_lines (logged st') = progress_lines (logged st) @ ls" and
    o: "outcomes st' = outcomes st @ new" and
    c: "new = concat ws @ tl" and
    w: "windows_shown (accumulated_iter st) ls ws" and
    h: "meters_hold st' tl" and
    e: "[?s..total_it - 1] = [] \<longrightarrow> tl = []" and
    f: "[?s..total_it - 1] \<noteq> [] \<and> last [?s..total_it - 1] + 1 = total_it \<longrightarrow> tl = []"
    by (auto simp: epoch_init_fields)
  have "tl = []"
  proof (cases "?s \<le> total_it - 1")
    case True
    with f last_upto[OF True] show ?thesis by simp
  next
    case False
    with e show ?thesis by simp
  qed
  with h c have z: "meters_hold st' []" and c': "new = concat ws" by simp_all
  from p o c' w have "\<exists>ls ws. progress_lines (logged st') = progress_lines (logged st) @ ls
        \<and> outcomes st' = outcomes st @ concat ws
        \<and> windows_shown (accumulated_iter st) ls ws" by blast
  moreover from z have "loss_disp st' = reset" "hm_loss_disp st' = reset"
    "loc_loss_disp st' = reset" "rcnn_cls_loss_disp st' = reset" "rcnn_reg_loss_disp st' = reset"
    by (simp_all add: meters_hold_def)
  moreover from run_iters_timing[OF r lead] have
    "data_time st'
        = fold update (map (\<lambda>i. avg_data_time (clock coll cur_epoch i))
                         [accumulated_iter st mod total_it..total_it - 1]) reset"
    "forward_time st'
        = fold update (map (\<lambda>i. avg_forward_time (clock coll cur_epoch i))
                         [accumulated_iter st mod total_it..total_it - 1]) reset"
    "batch_time st'
        = fold update (map (\<lambda>i. avg_batch_time (clock coll cur_epoch i))
                         [accumulated_iter st mod total_it..total_it - 1]) reset"
    by (simp_all add: epoch_init_meters[OF lead])
  ultimately show
    "(\<exists>ls ws. progress_lines (logged st') = progress_lines (logged st) @ ls
        \<and> outcomes st' = outcomes st @ concat ws
        \<and> windows_shown (accumulated_iter st) ls ws)
    \<and> loss_disp st' = reset \<and> hm_loss_disp st' = reset \<and> loc_loss_disp st' = reset
    \<and> rcnn_cls_loss_disp st' = reset \<and> rcnn_reg_loss_disp st' = reset
    \<and> data_time st'
        = fold update (map (\<lambda>i. avg_data_time (clock coll cur_epoch i))
                         [accumulated_iter st mod total_it..total_it - 1]) reset
    \<and> forward_time st'
        = fold update (map (\<lambda>i. avg_forward_time (clock coll cur_epoch i))
                         [accumulated_iter st mod total_it..total_it - 1]) reset
    \<and> batch_time st'
        = fold update (map (\<lambda>i. avg_batch_time (clock coll cur_epoch i))
                         [accumulated_iter st mod total_it..total_it - 1]) reset"
    by (simp only: simp_thms)
qed

theorem loss_meters_average_their_window_witness:
  "train_iter graded_coll demo_cfg two_batches Main_scheduler 2 0 0 1 demo_state
     = Inr (projr (train_iter graded_coll demo_cfg two_batches Main_scheduler 2 0 0 1 demo_state))
   \<and> progress_lines (logged (projr (train_iter graded_coll demo_cfg two_batches Main_scheduler
                                       2 0 0 1 demo_state)))
       \<noteq> progress_lines (logged demo_state)
   \<and> loss_disp (projr (train_iter graded_coll demo_cfg two_batches Main_scheduler 2 0 0 1
                          demo_state)) = reset
   \<and> m_count (data_time (projr (train_iter graded_coll demo_cfg two_batches Main_scheduler 2 0 0 1
                                   demo_state))) = 1
   \<and> train_one_epoch graded_coll demo_cfg two_batches Main_scheduler 2 0 demo_state
       = Inr (projr (train_one_epoch graded_coll demo_cfg two_batches Main_scheduler 2 0 demo_state))
   \<and> rank demo_cfg = 0 \<and> use_logger_to_record demo_cfg
   \<and> map loss (outcomes (projr (train_one_epoch graded_coll demo_cfg two_batches Main_scheduler
                                   2 0 demo_state))) = [0, 1]
   \<and> map disp_loss (progress_lines (logged (projr (train_one_epoch graded_coll demo_cfg
                                                      two_batches Main_scheduler 2 0 demo_state))))
       = [1 / 2]
   \<and> loss_disp (projr (train_one_epoch graded_coll demo_cfg two_batches Main_scheduler 2 0
                          demo_state)) = reset
   \<and> m_count (data_time (projr (train_one_epoch graded_coll demo_cfg two_batches Main_scheduler
                                   2 0 demo_state))) = 2"
proof -
  let ?i = "train_iter graded_coll demo_cfg two_batches Main_scheduler 2 0 0 1 demo_state"
  let ?e = "train_one_epoch graded_coll demo_cfg two_batches Main_scheduler 2 0 demo_state"
  have c: "rank demo_cfg = 0" "use_logger_to_record demo_cfg"
    by (simp_all add: demo_cfg_def)
  have d: "data_time demo_state = reset" "accumulated_iter demo_state = 0"
    "logged demo_state = []" "outcomes demo_state = []"
    by (simp_all add: demo_state_def)
  have ne: "two_batches \<noteq> []" by (simp add: two_batches_def)
  have "\<exists>st'. ?i = Inr st'"
    by (rule train_iter_returns[OF ne demo_intervals_ok])
  then have hi: "?i = Inr (projr ?i)" by auto
  have em: "emit_now demo_cfg 2 0 1 (accumulated_iter demo_state + 1)"
    by (simp add: emit_now_def)
  from train_iter_lines[OF hi] c em have
    pi: "progress_lines (logged (projr ?i)) \<noteq> progress_lines (logged demo_state)"
    by auto
  have "\<exists>st'. ?e = Inr st'"
    by (rule train_one_epoch_returns[OF ne demo_intervals_ok]) simp
  then have he: "?e = Inr (projr ?e)" by auto
  let ?st0 = "epoch_init demo_cfg two_batches 2 demo_state"
  from he have r: "run_iters graded_coll demo_cfg two_batches Main_scheduler 2 0 0 [0..1] ?st0
                     = Inr (projr ?e)"
    by (simp add: train_one_epoch_Inr_iff d)
  from run_iters_outcomes[OF r] obtain new where
    on: "outcomes (projr ?e) = new" and ln: "length new = 2" and
    en: "\<forall>k < length new. \<exists>m opt batch. new ! k = train_step graded_coll Main_scheduler (int k) m opt batch"
    by (auto simp: epoch_init_fields d upto.simps)
  from en[rule_format, of 0] en[rule_format, of 1] ln
  have "loss (new ! 0) = 0" "loss (new ! 1) = 1"
    by (auto simp: graded_coll_def demo_coll_def)
  moreover from ln have "new = [new ! 0, new ! 1]"
    by (cases new; cases "tl new") auto
  ultimately have lo: "map loss new = [0, 1]" by (metis list.simps(8,9))
  from run_iters_lines[OF r c] obtain lines where
    pl: "progress_lines (logged (projr ?e)) = lines" and
    "map (\<lambda>l. (cur_iter l, acc_iter l)) lines = emissions demo_cfg 2 0 [0..1] 0"
    by (auto simp: epoch_init_fields d)
  then have "length lines = 1"
    by (auto simp: upto.simps emit_now_def demo_cfg_def dest: arg_cong[where f=length])
  then obtain l where ll: "lines = [l]" by (cases lines) auto
  note T = loss_meters_average_their_window
    [of graded_coll demo_cfg two_batches Main_scheduler 2 0 0 1 demo_state "projr ?i"
        demo_state "projr ?e"]
  from T[THEN conjunct1, THEN mp, OF conjI[OF hi pi]] have
    si: "loss_disp (projr ?i) = reset"
      "data_time (projr ?i) = update (avg_data_time (clock graded_coll 0 1)) reset"
    unfolding d by simp_all
  from T[THEN conjunct2, THEN mp, OF conjI[OF he conjI[OF c]]] have
    ex: "\<exists>ls ws. lines = ls \<and> new = concat ws \<and> windows_shown 0 ls ws" and
    z: "loss_disp (projr ?e) = reset" and
    t: "data_time (projr ?e)
          = fold update (map (\<lambda>i. avg_data_time (clock graded_coll 0 i)) [0..1]) reset"
    unfolding d pl on by simp_all
  from ex ll windows_shown_single obtain wn where
    "ws = [wn] \<Longrightarrow> True" "new = wn" "line_shows_means l wn" for ws by fastforce
  with lo have "disp_loss l = 1 / 2"
    by (simp add: line_shows_means_def mean_def)
  with si z t on lo pl ll have
    "loss_disp (projr ?i) = reset" "m_count (data_time (projr ?i)) = 1"
    "map loss (outcomes (projr ?e)) = [0, 1]"
    "map disp_loss (progress_lines (logged (projr ?e))) = [1 / 2]"
    "loss_disp (projr ?e) = reset" "m_count (data_time (projr ?e)) = 2"
    by (simp_all add: update_def reset_def upto.simps)
  with hi pi he c show ?thesis by (intro conjI)
qed

text \<open>
  C6 as stated fails: after an epoch of one iteration, which has emitted its progress
  line, the timing meters still hold the value of the iteration.
\<close>

theorem timing_meters_not_reset_counterexample:
  "\<not> isl (train_one_epoch demo_coll demo_cfg [1] Main_scheduler 1 0 demo_state)
   \<and> length (progress_lines (logged (projr (train_one_epoch demo_coll demo_cfg [1] Main_scheduler 1 0 demo_state)))) = 1
   \<and> data_time (projr (train_one_epoch demo_coll demo_cfg [1] Main_scheduler 1 0 demo_state)) \<noteq> reset
   \<and> m_count (batch_time (projr (train_one_epoch demo_coll demo_cfg [1] Main_scheduler 1 0 demo_state))) = 1"
proof -
  let ?e = "train_one_epoch demo_coll demo_cfg [1] Main_scheduler 1 0 demo_state"
  have c: "rank demo_cfg = 0" "use_logger_to_record demo_cfg"
    by (simp_all add: demo_cfg_def)
  have d: "accumulated_iter demo_state = 0" "logged demo_state = []"
    by (simp_all add: demo_state_def)
  have "\<exists>st'. ?e = Inr st'"
    by (rule train_one_epoch_returns[OF _ demo_intervals_ok]) simp_all
  then have he: "?e = Inr (projr ?e)" by auto
  then have r: "run_iters demo_coll demo_cfg [1] Main_scheduler 1 0 0 [0..0]
                  (epoch_init demo_cfg [1] 1 demo_state) = Inr (projr ?e)"
    by (simp add: train_one_epoch_Inr_iff d)
  from run_iters_lines[OF r c] obtain lines where
    "progress_lines (logged (projr ?e)) = lines"
    "map (\<lambda>l. (cur_iter l, acc_iter l)) lines = emissions demo_cfg 1 0 [0..0] 0"
    by (auto simp: epoch_init_fields d)
  then have n: "length (progress_lines (logged (projr ?e))) = 1"
    by (auto simp: upto.simps emit_now_def dest: arg_cong[where f=length])
  from run_iters_timing(1,3)[OF r c(1)] have
    m: "m_count (data_time (projr ?e)) = 1" "m_count (batch_time (projr ?e)) = 1"
    by (simp_all add: epoch_init_meters[OF c(1)] upto.simps update_def reset_def)
  from m(1) have "data_time (projr ?e) \<noteq> reset" by (auto simp: reset_def)
  moreover from he have "\<not> isl ?e" by (metis sum.disc(2))
  ultimately show ?thesis using n m(2) by simp
qed


subsection \<open>The progress lines of an epoch\<close>

lemma emissions_upto:
  "emissions cfg total_it start_it [a..b] acc
     = map (\<lambda>i. (i, acc + (i - a) + 1))
         (filter (\<lambda>i. emit_now cfg total_it start_it i (acc + (i - a) + 1)) [a..b])"
proof (induction a b arbitrary: acc rule: upto.induct)
  case (1 a b)
  show ?case
  proof (cases "a \<le> b")
    case False
    then show ?thesis by simp
  next
    case True
    then have u: "[a..b] = a # [a + 1..b]" by (rule upto_rec1)
    have "emissions cfg total_it start_it [a + 1..b] (acc + 1)
            = map (\<lambda>i. (i, acc + (i - a) + 1))
                (filter (\<lambda>i. emit_now cfg total_it start_it i (acc + (i - a) + 1)) [a + 1..b])"
      using "1.IH"[OF True, of "acc + 1"] by (simp add: algebra_simps)
    then show ?thesis unfolding u by simp
  qed
qed

lemma filter_upto_single:
  assumes "a \<le> k" and "k \<le> b" and "\<And>i. a \<le> i \<Longrightarrow> i \<le> b \<Longrightarrow> P i \<longleftrightarrow> i = k"
  shows "filter P [a..b] = [k]"
proof -
  have "[a..b] = [a..k - 1] @ k # [k + 1..b]" using assms(1,2) by (rule upto_split3)
  moreover have "filter P [a..k - 1] = []" using assms by (auto simp: filter_empty_conv)
  moreover have "filter P [k + 1..b] = []" using assms by (auto simp: filter_empty_conv)
  moreover have "P k" using assms by simp
  ultimately show ?thesis by simp
qed

lemma first_fifty_emissions:
  assumes "logger_iter_interval cfg = 50" and "50 \<le> total_it"
  shows "filter (\<lambda>k. snd k \<le> 50) (emissions cfg total_it 0 [0..total_it - 1] 0) = [(49, 50)]"
proof -
  have "filter (\<lambda>i. i + 1 \<le> 50 \<and> emit_now cfg total_it 0 i (i + 1)) [0..total_it - 1] = [49]"
  proof (rule filter_upto_single)
    show "(0::int) \<le> 49" by simp
    show "49 \<le> total_it - 1" using assms(2) by simp
    fix i :: int
    assume "0 \<le> i" and "i \<le> total_it - 1"
    then show "(i + 1 \<le> 50 \<and> emit_now cfg total_it 0 i (i + 1)) \<longleftrightarrow> i = 49"
      unfolding emit_now_def assms(1) using assms(2) by presburger
  qed
  then show ?thesis
    by (simp add: emissions_upto filter_map o_def conj_commute)
qed

text \<open>
  C7, as the code has it. On the lead worker with the verbose logger, every progress
  line of an epoch carries the estimate
  \<open>second_each_iter * ((total_epochs - cur_epoch) * total_it_each_epoch - cur_it)\<close>,
  the first factor being the elapsed time of the epoch over the iterations done in
  this call. With the interval 50, an epoch of at least 50 iterations that starts
  with the counter 0 logs exactly one line until the counter is 50, at the loop index 49.
\<close>

theorem one_line_by_fifty:
  assumes "train_one_epoch coll cfg train_loader sched total_it cur_epoch st = Inr st'"
    and "rank cfg = 0" and "use_logger_to_record cfg"
  shows "\<exists>new. progress_lines (logged st') = progress_lines (logged st) @ new
     \<and> (\<forall>l \<in> set new. remaining_all l
            = pbar_elapsed_rate (clock coll cur_epoch (cur_iter l))
                / max (of_int (cur_iter l - accumulated_iter st mod total_it + 1)) 1
              * of_int ((total_epochs cfg - cur_epoch) * total_it - cur_iter l))
     \<and> (logger_iter_interval cfg = 50 \<and> accumulated_iter st = 0 \<and> 50 \<le> total_it \<longrightarrow>
          map (\<lambda>l. (cur_iter l, acc_iter l)) (filter (\<lambda>l. acc_iter l \<le> 50) new) = [(49, 50)])"
proof -
  from assms(1) have
    "run_iters coll cfg train_loader sched total_it cur_epoch (accumulated_iter st mod total_it)
       [accumulated_iter st mod total_it..total_it - 1]
       (epoch_init cfg train_loader total_it st) = Inr st'"
    by (simp add: train_one_epoch_Inr_iff)
  from run_iters_lines[OF this assms(2,3)] obtain new where
    n1: "progress_lines (logged st') = progress_lines (logged st) @ new" and
    n2: "map (\<lambda>l. (cur_iter l, acc_iter l)) new
           = emissions cfg total_it (accumulated_iter st mod total_it)
               [accumulated_iter st mod total_it..total_it - 1] (accumulated_iter st)" and
    n3: "\<forall>l \<in> set new. remaining_all l
            = pbar_elapsed_rate (clock coll cur_epoch (cur_iter l))
                / max (of_int (cur_iter l - accumulated_iter st mod total_it + 1)) 1
              * of_int ((total_epochs cfg - cur_epoch) * total_it - cur_iter l)"
    by (auto simp: epoch_init_fields)
  have "map (\<lambda>l. (cur_iter l, acc_iter l)) (filter (\<lambda>l. acc_iter l \<le> 50) new) = [(49, 50)]"
    if c: "logger_iter_interval cfg = 50" "accumulated_iter st = 0" "50 \<le> total_it"
  proof -
    have "map (\<lambda>l. (cur_iter l, acc_iter l)) (filter (\<lambda>l. acc_iter l \<le> 50) new)
            = filter (\<lambda>k. snd k \<le> 50) (map (\<lambda>l. (cur_iter l, acc_iter l)) new)"
      by (simp add: filter_map o_def)
    also have "\<dots> = filter (\<lambda>k. snd k \<le> 50) (emissions cfg total_it 0 [0..total_it - 1] 0)"
      using n2 c by simp
    also have "\<dots> = [(49, 50)]" using c(1,3) by (rule first_fifty_emissions)
    finally show ?thesis .
  qed
  with n1 n3 show ?thesis by (intro exI[of _ new]) simp
qed


theorem one_line_by_fifty_witness:
  "train_one_epoch demo_coll demo_cfg [1, 2] Main_scheduler 50 0 demo_state
     = Inr (projr (train_one_epoch demo_coll demo_cfg [1, 2] Main_scheduler 50 0 demo_state))
   \<and> rank demo_cfg = 0 \<and> use_logger_to_record demo_cfg
   \<and> logger_iter_interval demo_cfg = 50 \<and> accumulated_iter demo_state = 0 \<and> (50::int) \<le> 50
   \<and> map (\<lambda>l. (cur_iter l, acc_iter l))
        (filter (\<lambda>l. acc_iter l \<le> 50)
           (progress_lines (logged (projr (train_one_epoch demo_coll demo_cfg [1, 2]
                                             Main_scheduler 50 0 demo_state))))) = [(49, 50)]"
proof -
  let ?r = "train_one_epoch demo_coll demo_cfg [1, 2] Main_scheduler 50 0 demo_state"
  have "\<exists>st'. ?r = Inr st'"
    by (rule train_one_epoch_returns[OF _ demo_intervals_ok]) simp_all
  then have h: "?r = Inr (projr ?r)" by auto
  have c: "rank demo_cfg = 0" "use_logger_to_record demo_cfg" "logger_iter_interval demo_cfg = 50"
    by (simp_all add: demo_cfg_def)
  have s: "accumulated_iter demo_state = 0" "logged demo_state = []"
    by (simp_all add: demo_state_def)
  from one_line_by_fifty[OF h c(1,2)] h c s show ?thesis by auto
qed

subsection \<open>The loop of the run driver\<close>

lemma disable_augmentation_hook_keeps:
  shows "accumulated_iter (disable_augmentation_hook cfg cur_epoch st) = accumulated_iter st"
    and "steps (disable_augmentation_hook cfg cur_epoch st) = steps st"
    and "disk (disable_augmentation_hook cfg cur_epoch st) = disk st"
    and "progress_lines (logged (disable_augmentation_hook cfg cur_epoch st))
           = progress_lines (logged st)"
    and "count_list (logged (disable_augmentation_hook cfg cur_epoch st)) SaveLatest
           = count_list (logged st) SaveLatest"
  by (simp_all add: disable_augmentation_hook_def progress_lines_append split: option.splits)

lemma save_trained_model_keeps:
  assumes "save_trained_model coll cfg cur_epoch st = Inr st'"
  shows "accumulated_iter st' = accumulated_iter st" and "logged st' = logged st"
    and "steps st' = steps st" and "augment_disable_flag st' = augment_disable_flag st"
    and "data_augmentor st' = data_augmentor st"
  using assms
  by (auto simp: save_trained_model_def Let_def bind_err_Inr_iff split: if_splits)

lemma epoch_body_Inr_iff:
  "epoch_body coll cfg train_loader total_it cur_epoch st = Inr st' \<longleftrightarrow>
     (\<exists>mid. train_one_epoch coll cfg train_loader
               (if has_warmup cfg \<and> cur_epoch < WARMUP_EPOCH cfg
                then Warmup_scheduler else Main_scheduler)
               total_it cur_epoch (disable_augmentation_hook cfg cur_epoch st) = Inr mid
        \<and> save_trained_model coll cfg cur_epoch mid = Inr st')"
  by (simp add: epoch_body_def Let_def bind_err_Inr_iff)

lemma epoch_body_lines:
  assumes "epoch_body coll cfg train_loader total_it cur_epoch st = Inr st'"
    and "rank cfg = 0" and "use_logger_to_record cfg"
  shows "accumulated_iter st'
           = accumulated_iter st + int (length [accumulated_iter st mod total_it..total_it - 1])
       \<and> (\<exists>new. progress_lines (logged st') = progress_lines (logged st) @ new
             \<and> map (\<lambda>l. (cur_iter l, acc_iter l)) new
                 = emissions cfg total_it (accumulated_iter st mod total_it)
                     [accumulated_iter st mod total_it..total_it - 1] (accumulated_iter st))"
proof -
  let ?h = "disable_augmentation_hook cfg cur_epoch st"
  from assms(1) obtain sched mid where
    t: "train_one_epoch coll cfg train_loader sched total_it cur_epoch ?h = Inr mid" and
    s: "save_trained_model coll cfg cur_epoch mid = Inr st'"
    unfolding epoch_body_Inr_iff by blast
  from t have r:
    "run_iters coll cfg train_loader sched total_it cur_epoch (accumulated_iter st mod total_it)
       [accumulated_iter st mod total_it..total_it - 1]
       (epoch_init cfg train_loader total_it ?h) = Inr mid"
    by (simp add: train_one_epoch_Inr_iff disable_augmentation_hook_keeps)
  from run_iters_steps[OF r] have
    "accumulated_iter mid
       = accumulated_iter st + int (length [accumulated_iter st mod total_it..total_it - 1])"
    by (simp add: epoch_init_fields disable_augmentation_hook_keeps)
  moreover from run_iters_lines[OF r assms(2,3)] obtain new where
    "progress_lines (logged mid) = progress_lines (logged st) @ new"
    "map (\<lambda>l. (cur_iter l, acc_iter l)) new
       = emissions cfg total_it (accumulated_iter st mod total_it)
           [accumulated_iter st mod total_it..total_it - 1] (accumulated_iter st)"
    by (auto simp: epoch_init_fields disable_augmentation_hook_keeps)
  ultimately show ?thesis using save_trained_model_keeps(1,2)[OF s] by auto
qed

text \<open>When the run driver returns.\<close>

lemma remove_oldest_returns:
  "\<forall>i \<in> set idxs. i < int (length ckpt_list) \<Longrightarrow> \<exists>dir'. remove_oldest ckpt_list idxs dir = Inr dir'"
  by (induction idxs arbitrary: dir) simp_all

lemma save_trained_model_returns:
  assumes "ckpt_save_interval cfg \<noteq> 0" and "1 \<le> max_ckpt_save_num cfg"
  shows "\<exists>st'. save_trained_model coll cfg cur_epoch st = Inr st'"
proof -
  let ?names = "map fst (sorted_ckpts (ckpt_save_dir cfg) (disk st))"
  have "\<exists>dir'. remove_oldest ?names [0..int (length ?names) - max_ckpt_save_num cfg] (disk st)
          = Inr dir'"
    using assms(2) by (intro remove_oldest_returns) auto
  with assms(1) show ?thesis
    by (auto simp: save_trained_model_def Let_def bind_err_Inr_iff)
qed

lemma epoch_body_returns:
  assumes "train_loader \<noteq> []" and "run_ok cfg" and "total_it \<noteq> 0"
  shows "\<exists>st'. epoch_body coll cfg train_loader total_it cur_epoch st = Inr st'"
proof -
  from assms(2) have i: "intervals_ok cfg" and c: "ckpt_save_interval cfg \<noteq> 0"
    and m: "1 \<le> max_ckpt_save_num cfg" by (simp_all add: run_ok_def)
  have "\<exists>mid. train_one_epoch coll cfg train_loader
               (if has_warmup cfg \<and> cur_epoch < WARMUP_EPOCH cfg
                then Warmup_scheduler else Main_scheduler)
               total_it cur_epoch (disable_augmentation_hook cfg cur_epoch st) = Inr mid"
    by (rule train_one_epoch_returns[OF assms(1) i assms(3)])
  then obtain mid where t: "train_one_epoch coll cfg train_loader
               (if has_warmup cfg \<and> cur_epoch < WARMUP_EPOCH cfg
                then Warmup_scheduler else Main_scheduler)
               total_it cur_epoch (disable_augmentation_hook cfg cur_epoch st) = Inr mid" ..
  have "\<exists>st'. save_trained_model coll cfg cur_epoch mid = Inr st'"
    by (rule save_trained_model_returns[OF c m])
  with t show ?thesis unfolding epoch_body_Inr_iff by blast
qed

lemma run_epochs_returns:
  assumes "train_loader \<noteq> []" and "run_ok cfg" and "total_it \<noteq> 0"
  shows "\<exists>st'. run_epochs coll cfg train_loader total_it es st = Inr st'"
proof (induction es arbitrary: st)
  case Nil
  show ?case by simp
next
  case (Cons e es)
  have "\<exists>mid. epoch_body coll cfg train_loader total_it e st = Inr mid"
    by (rule epoch_body_returns[OF assms])
  then obtain mid where "epoch_body coll cfg train_loader total_it e st = Inr mid" ..
  with Cons.IH[of mid] show ?case by (auto simp: bind_err_Inr_iff)
qed

lemma train_model_plain:
  "\<not> merge_all_iters_to_one_epoch cfg \<Longrightarrow>
   train_model coll cfg train_loader st
     = run_epochs coll cfg train_loader (int (length train_loader))
         [start_epoch cfg..total_epochs cfg - 1] (run_init cfg train_loader st)"
  by (simp add: train_model_def merged_loader_def bind_err_def)

lemma demo_run_ok: "run_ok demo_cfg"
  by (simp add: run_ok_def intervals_ok_def demo_cfg_def)

lemma last_index_emits:
  assumes "logger_iter_interval cfg = 50" and "acc = 0 \<or> acc = 25"
  shows "emissions cfg 25 0 [0..24] acc = [(24, acc + 25)]"
proof -
  have "filter (\<lambda>i. emit_now cfg 25 0 i (acc + (i - 0) + 1)) [0..24] = [24]"
  proof (rule filter_upto_single)
    fix i :: int
    assume "0 \<le> i" and "i \<le> 24"
    then show "emit_now cfg 25 0 i (acc + (i - 0) + 1) \<longleftrightarrow> i = 24"
      unfolding emit_now_def assms(1) using assms(2) by presburger
  qed simp_all
  then show ?thesis by (simp add: emissions_upto)
qed

text \<open>
  C7 as stated fails: a run of two epochs of 25 iterations each, started with the
  counter 0, reaches the counter 50 with two progress lines, one at the end of each
  epoch.
\<close>

theorem two_lines_by_fifty_counterexample:
  "\<not> isl (train_model demo_coll demo_cfg demo_loader demo_state)
   \<and> logger_iter_interval demo_cfg = 50
   \<and> accumulated_iter (projr (train_model demo_coll demo_cfg demo_loader demo_state)) = 50
   \<and> map (\<lambda>l. (cur_iter l, acc_iter l))
       (progress_lines (logged (projr (train_model demo_coll demo_cfg demo_loader demo_state))))
       = [(24, 25), (24, 50)]"
proof -
  let ?L = "demo_loader"
  have len: "demo_loader \<noteq> []" "int (length demo_loader) = 25"
    by (simp_all add: demo_loader_def)
  let ?s0 = "run_init demo_cfg ?L demo_state"
  have c: "rank demo_cfg = 0" "use_logger_to_record demo_cfg" "logger_iter_interval demo_cfg = 50"
    "\<not> merge_all_iters_to_one_epoch demo_cfg"
    "[start_epoch demo_cfg..total_epochs demo_cfg - 1] = [0, 1]"
    by (simp_all add: demo_cfg_def upto.simps)
  have tm: "train_model demo_coll demo_cfg ?L demo_state
              = run_epochs demo_coll demo_cfg ?L 25 [0, 1] ?s0"
    using train_model_plain[OF c(4), of demo_coll ?L demo_state] c(5) len by simp
  have "\<exists>st'. run_epochs demo_coll demo_cfg ?L 25 [0, 1] ?s0 = Inr st'"
    by (rule run_epochs_returns[OF len(1) demo_run_ok]) simp
  then obtain st' where r: "run_epochs demo_coll demo_cfg ?L 25 [0, 1] ?s0 = Inr st'" ..
  then obtain mid where
    e0: "epoch_body demo_coll demo_cfg ?L 25 0 ?s0 = Inr mid" and
    e1: "epoch_body demo_coll demo_cfg ?L 25 1 mid = Inr st'"
    by (auto simp: bind_err_Inr_iff)
  have s0: "accumulated_iter ?s0 = 0" "logged ?s0 = []"
    by (simp_all add: run_init_def demo_cfg_def demo_state_def)
  from epoch_body_lines[OF e0 c(1,2)] obtain new0 where
    am: "accumulated_iter mid = 25" and
    l0: "progress_lines (logged mid) = new0" and
    k0: "map (\<lambda>l. (cur_iter l, acc_iter l)) new0 = [(24, 25)]"
    by (auto simp: s0 last_index_emits[OF c(3)])
  from epoch_body_lines[OF e1 c(1,2)] obtain new1 where
    a': "accumulated_iter st' = 50" and
    l1: "progress_lines (logged st') = new0 @ new1" and
    k1: "map (\<lambda>l. (cur_iter l, acc_iter l)) new1 = [(24, 50)]"
    by (auto simp: am l0 last_index_emits[OF c(3)])
  from tm r a' l1 k0 k1 c(3) show ?thesis by simp
qed


subsection \<open>The time-based save\<close>

lemma names_write_file: "fst ` set (write_file name f dir) = insert name (fst ` set dir)"
  by (induction name f dir rule: write_file.induct) (auto simp: image_iff)

lemma filter_write_file_other:
  "\<not> P name \<Longrightarrow> filter (\<lambda>(n, g). P n) (write_file name f dir) = filter (\<lambda>(n, g). P n) dir"
  by (induction name f dir rule: write_file.induct) auto

lemma names_save_checkpoint:
  "fst ` set (save_checkpoint tver now state filename dir)
     = insert (filename @ ''.pth'') (fst ` set dir)"
  by (simp add: save_checkpoint_def torch_save_def names_write_file Let_def)

lemma map_of_save_checkpoint:
  "map_of (save_checkpoint tver now state filename dir)
     = (map_of dir)(filename @ ''.pth'' \<mapsto>
          \<lparr>mtime = now, content = state,
           fmt = (if version_ge_1_4 tver then Legacy else Default)\<rparr>)"
  by (simp add: save_checkpoint_def torch_save_def map_of_write_file)

text \<open>Paths and their components.\<close>

lemma split_path_nonempty: "split_path s \<noteq> []"
  by (cases s) (auto split: list.splits)

lemma split_path_join: "split_path (a @ CHR ''/'' # b) = split_path a @ split_path b"
  by (induction a) (auto simp: split_path_nonempty split: list.splits)

lemma split_path_single: "CHR ''/'' \<notin> set n \<Longrightarrow> split_path n = [n]"
  by (induction n) (auto split: list.splits)

lemma path_join_components:
  "CHR ''/'' \<notin> set name \<Longrightarrow> split_path (path_join d name) = split_path d @ [name]"
  by (simp add: path_join_def split_path_join split_path_single)

lemma list_all2_snoc_both:
  "list_all2 P (xs @ [x]) (ys @ [y]) \<longleftrightarrow> list_all2 P xs ys \<and> P x y"
  using list_all2_rev[of P "xs @ [x]" "ys @ [y]"] list_all2_rev[of P xs ys] by auto

text \<open>The slot of the latest checkpoint is none of the files the sweep lists.\<close>

lemma latest_file_no_match: "\<not> comp_match ''checkpoint_epoch_*.pth'' ''latest_model.pth''"
  by (simp add: comp_match_def has_magic_def fnmatch_def)

lemma latest_path_components:
  "split_path (latest_path cfg) = split_path (ckpt_save_dir cfg) @ [''latest_model.pth'']"
  using path_join_components[of "''latest_model.pth''" "ckpt_save_dir cfg"]
  by (simp add: latest_path_def path_join_def)

lemma latest_not_listed:
  "\<not> glob_match (path_join d ''checkpoint_epoch_*.pth'') (latest_path cfg)"
  using path_join_components[of "''checkpoint_epoch_*.pth''" d]
  by (simp add: glob_match_def latest_path_components list_all2_snoc_both latest_file_no_match)

lemma latest_is_no_epoch_ckpt: "\<not> is_epoch_ckpt d (latest_path cfg)"
  by (simp add: is_epoch_ckpt_def latest_path_components latest_file_no_match)

lemma save_latest_writes:
  "save_checkpoint tver now state (path_join (ckpt_save_dir cfg) ''latest_model'') dir
     = write_file (latest_path cfg)
         \<lparr>mtime = now, content = state,
          fmt = (if version_ge_1_4 tver then Legacy else Default)\<rparr> dir"
  by (simp add: save_checkpoint_def torch_save_def latest_path_def)

lemma epoch_files_save_latest:
  fixes cfg :: settings
  shows "glob_glob (path_join d ''checkpoint_epoch_*.pth'')
           (save_checkpoint tver now state (path_join (ckpt_save_dir cfg) ''latest_model'') dir)
         = glob_glob (path_join d ''checkpoint_epoch_*.pth'') dir"
    and "filter (\<lambda>(p, f). is_epoch_ckpt d p)
           (save_checkpoint tver now state (path_join (ckpt_save_dir cfg) ''latest_model'') dir)
         = filter (\<lambda>(p, f). is_epoch_ckpt d p) dir"
proof -
  show "glob_glob (path_join d ''checkpoint_epoch_*.pth'')
           (save_checkpoint tver now state (path_join (ckpt_save_dir cfg) ''latest_model'') dir)
         = glob_glob (path_join d ''checkpoint_epoch_*.pth'') dir"
    unfolding save_latest_writes glob_glob_def
    by (rule filter_write_file_other
          [of "glob_match (path_join d ''checkpoint_epoch_*.pth'')" "latest_path cfg",
           OF latest_not_listed])
  show "filter (\<lambda>(p, f). is_epoch_ckpt d p)
           (save_checkpoint tver now state (path_join (ckpt_save_dir cfg) ''latest_model'') dir)
         = filter (\<lambda>(p, f). is_epoch_ckpt d p) dir"
    unfolding save_latest_writes
    by (rule filter_write_file_other
          [of "is_epoch_ckpt d" "latest_path cfg", OF latest_is_no_epoch_ckpt])
qed

lemma ckpt_phase_cases:
  assumes "ckpt_phase coll cfg cur_epoch cur_it st = Inr st'"
  shows "if ckpt_save_cnt st \<le> whole_intervals coll cfg cur_epoch cur_it
         then ckpt_save_cnt st' = ckpt_save_cnt st + 1
              \<and> logged st' = logged st @ [SaveLatest]
              \<and> disk st' = save_checkpoint (torch_version coll)
                             (file_time (clock coll cur_epoch cur_it))
                             (checkpoint_state (pcdet_version coll) (Some (cur_model st))
                                (Some (cur_optimizer st)) (Some cur_epoch)
                                (Some (accumulated_iter st)))
                             (path_join (ckpt_save_dir cfg) ''latest_model'') (disk st)
         else st' = st"
  using assms by (auto simp: ckpt_phase_def whole_intervals_def Let_def split: if_splits)

lemma log_phase_saves:
  assumes "log_phase coll cfg total_it cur_epoch start_it cur_it batch r st = Inr st'"
  shows "count_list (logged st') SaveLatest = count_list (logged st) SaveLatest"
  using assms by (auto simp: log_phase_def split: if_splits)

text \<open>
  One iteration, seen from the save counter, the log and the disk. The checkpoint it
  writes holds the model and the optimizer the training step has left.
\<close>

lemma train_iter_saves:
  assumes "train_iter coll cfg train_loader sched total_it cur_epoch start_it cur_it st = Inr st'"
  shows "if rank cfg = 0 \<and> ckpt_save_cnt st \<le> whole_intervals coll cfg cur_epoch cur_it
         then ckpt_save_cnt st' = ckpt_save_cnt st + 1
              \<and> count_list (logged st') SaveLatest = count_list (logged st) SaveLatest + 1
              \<and> (\<exists>batch. disk st'
                   = save_checkpoint (torch_version coll) (file_time (clock coll cur_epoch cur_it))
                       (checkpoint_state (pcdet_version coll)
                          (Some (new_model (train_step coll sched (accumulated_iter st)
                                              (cur_model st) (cur_optimizer st) batch)))
                          (Some (new_optimizer (train_step coll sched (accumulated_iter st)
                                                  (cur_model st) (cur_optimizer st) batch)))
                          (Some cur_epoch) (Some (accumulated_iter st + 1)))
                       (path_join (ckpt_save_dir cfg) ''latest_model'') (disk st))
         else ckpt_save_cnt st' = ckpt_save_cnt st
              \<and> count_list (logged st') SaveLatest = count_list (logged st) SaveLatest
              \<and> disk st' = disk st"
proof -
  from assms obtain batch st1 where
    nb: "next_batch train_loader st = Inr (batch, st1)" and
    body: "if rank cfg = 0
         then \<exists>st3. log_phase coll cfg total_it cur_epoch start_it cur_it batch
                       (run_step coll sched st1 batch)
                       (update_meters (clock coll cur_epoch cur_it) (run_step coll sched st1 batch)
                          (take_step (run_step coll sched st1 batch) cur_it batch st1)) = Inr st3
                  \<and> ckpt_phase coll cfg cur_epoch cur_it st3 = Inr st'
         else st' = take_step (run_step coll sched st1 batch) cur_it batch st1"
    unfolding train_iter_Inr_iff by blast
  let ?r = "run_step coll sched st1 batch"
  let ?st2 = "update_meters (clock coll cur_epoch cur_it) ?r (take_step ?r cur_it batch st1)"
  have r: "?r = train_step coll sched (accumulated_iter st) (cur_model st) (cur_optimizer st) batch"
    using next_batch_keeps[OF nb] by (simp add: run_step_def)
  have k2: "ckpt_save_cnt ?st2 = ckpt_save_cnt st" "logged ?st2 = logged st" "disk ?st2 = disk st"
    "accumulated_iter ?st2 = accumulated_iter st + 1"
    "cur_model ?st2 = new_model ?r" "cur_optimizer ?st2 = new_optimizer ?r"
    using next_batch_keeps(1,3,4,5)[OF nb] by (simp_all add: update_meters_keeps take_step_fields)
  show ?thesis
  proof (cases "rank cfg = 0")
    case False
    with body next_batch_keeps(3,4,5)[OF nb] show ?thesis by (simp add: take_step_fields)
  next
    case True
    with body obtain st3 where
      l: "log_phase coll cfg total_it cur_epoch start_it cur_it batch ?r ?st2 = Inr st3" and
      c: "ckpt_phase coll cfg cur_epoch cur_it st3 = Inr st'" by auto
    have k3: "ckpt_save_cnt st3 = ckpt_save_cnt st" "disk st3 = disk st"
      "count_list (logged st3) SaveLatest = count_list (logged st) SaveLatest"
      "accumulated_iter st3 = accumulated_iter st + 1"
      "cur_model st3 = new_model ?r" "cur_optimizer st3 = new_optimizer ?r"
      using log_phase_keeps(1,3,4,10,11)[OF l] log_phase_saves[OF l] k2 by simp_all
    show ?thesis
    proof (cases "ckpt_save_cnt st \<le> whole_intervals coll cfg cur_epoch cur_it")
      case False
      with ckpt_phase_cases[OF c] k3 True show ?thesis by simp
    next
      case save: True
      with ckpt_phase_cases[OF c] k3 have
        "ckpt_save_cnt st' = ckpt_save_cnt st + 1"
        "logged st' = logged st3 @ [SaveLatest]"
        "disk st' = save_checkpoint (torch_version coll) (file_time (clock coll cur_epoch cur_it))
                       (checkpoint_state (pcdet_version coll) (Some (new_model ?r))
                          (Some (new_optimizer ?r)) (Some cur_epoch)
                          (Some (accumulated_iter st + 1)))
                       (path_join (ckpt_save_dir cfg) ''latest_model'') (disk st)"
        by simp_all
      with k3 True save show ?thesis unfolding r by auto
    qed
  qed
qed

lemma train_iter_disk:
  assumes "train_iter coll cfg train_loader sched total_it cur_epoch start_it cur_it st = Inr st'"
  shows "if rank cfg = 0 \<and> ckpt_save_cnt st \<le> whole_intervals coll cfg cur_epoch cur_it
         then set (map fst (disk st')) = insert (latest_path cfg) (set (map fst (disk st)))
         else disk st' = disk st"
    and "glob_glob (path_join d ''checkpoint_epoch_*.pth'') (disk st')
           = glob_glob (path_join d ''checkpoint_epoch_*.pth'') (disk st)"
    and "filter (\<lambda>(p, f). is_epoch_ckpt d p) (disk st')
           = filter (\<lambda>(p, f). is_epoch_ckpt d p) (disk st)"
proof -
  let ?C = "rank cfg = 0 \<and> ckpt_save_cnt st \<le> whole_intervals coll cfg cur_epoch cur_it"
  have d: "if ?C
           then \<exists>tver now state. disk st'
                  = save_checkpoint tver now state (path_join (ckpt_save_dir cfg) ''latest_model'')
                      (disk st)
           else disk st' = disk st"
  proof (cases ?C)
    case True
    from train_iter_saves[OF assms] have
      "\<exists>tver now state. disk st'
         = save_checkpoint tver now state (path_join (ckpt_save_dir cfg) ''latest_model'') (disk st)"
      unfolding if_P[OF True] by blast
    then show ?thesis unfolding if_P[OF True] .
  next
    case False
    from train_iter_saves[OF assms] have "disk st' = disk st"
      unfolding if_not_P[OF False] by blast
    then show ?thesis unfolding if_not_P[OF False] .
  qed
  show "if ?C
        then set (map fst (disk st')) = insert (latest_path cfg) (set (map fst (disk st)))
        else disk st' = disk st"
  proof (cases ?C)
    case True
    from d[unfolded if_P[OF True]] obtain tver now state where
      e: "disk st' = save_checkpoint tver now state
                       (path_join (ckpt_save_dir cfg) ''latest_model'') (disk st)" by blast
    have "set (map fst (disk st')) = insert (latest_path cfg) (set (map fst (disk st)))"
      unfolding e by (simp add: names_save_checkpoint latest_path_def)
    then show ?thesis unfolding if_P[OF True] .
  next
    case False
    from d[unfolded if_not_P[OF False]] show ?thesis unfolding if_not_P[OF False] .
  qed
  show "glob_glob (path_join d ''checkpoint_epoch_*.pth'') (disk st')
           = glob_glob (path_join d ''checkpoint_epoch_*.pth'') (disk st)"
    using d by (cases ?C) (auto simp: epoch_files_save_latest)
  show "filter (\<lambda>(p, f). is_epoch_ckpt d p) (disk st')
           = filter (\<lambda>(p, f). is_epoch_ckpt d p) (disk st)"
    using d by (cases ?C) (auto simp: epoch_files_save_latest)
qed

lemma run_iters_saves:
  assumes "run_iters coll cfg train_loader sched total_it cur_epoch start_it its st = Inr st'"
  shows "\<exists>n. count_list (logged st') SaveLatest = count_list (logged st) SaveLatest + n
           \<and> ckpt_save_cnt st' = ckpt_save_cnt st + int n
           \<and> n \<le> length its
           \<and> (rank cfg \<noteq> 0 \<longrightarrow> n = 0)
           \<and> (rank cfg = 0 \<longrightarrow>
                ckpt_save_cnt st' = save_counter coll cfg cur_epoch its (ckpt_save_cnt st))
           \<and> set (map fst (disk st')) \<subseteq> insert (latest_path cfg) (set (map fst (disk st)))
           \<and> (0 < n \<longrightarrow> latest_path cfg \<in> set (map fst (disk st')))
           \<and> set (map fst (disk st)) \<subseteq> set (map fst (disk st'))"
  using assms
proof (induction its arbitrary: st)
  case Nil
  then show ?case by auto
next
  case (Cons i its)
  from Cons.prems obtain mid where
    it: "train_iter coll cfg train_loader sched total_it cur_epoch start_it i st = Inr mid" and
    rest: "run_iters coll cfg train_loader sched total_it cur_epoch start_it its mid = Inr st'"
    by (auto simp: bind_err_Inr_iff)
  from Cons.IH[OF rest] obtain n where n:
    "count_list (logged st') SaveLatest = count_list (logged mid) SaveLatest + n"
    "ckpt_save_cnt st' = ckpt_save_cnt mid + int n" "n \<le> length its" "rank cfg \<noteq> 0 \<longrightarrow> n = 0"
    "rank cfg = 0 \<longrightarrow> ckpt_save_cnt st' = save_counter coll cfg cur_epoch its (ckpt_save_cnt mid)"
    "set (map fst (disk st')) \<subseteq> insert (latest_path cfg) (set (map fst (disk mid)))"
    "0 < n \<longrightarrow> latest_path cfg \<in> set (map fst (disk st'))"
    "set (map fst (disk mid)) \<subseteq> set (map fst (disk st'))" by blast
  show ?case
  proof (cases "rank cfg = 0 \<and> ckpt_save_cnt st \<le> whole_intervals coll cfg cur_epoch i")
    case True
    with train_iter_saves[OF it] train_iter_disk(1)[OF it] have m:
      "ckpt_save_cnt mid = ckpt_save_cnt st + 1"
      "count_list (logged mid) SaveLatest = count_list (logged st) SaveLatest + 1"
      "set (map fst (disk mid)) = insert (latest_path cfg) (set (map fst (disk st)))"
      by simp_all
    from n m True show ?thesis by (intro exI[of _ "Suc n"]) auto
  next
    case False
    with train_iter_saves[OF it] have m:
      "ckpt_save_cnt mid = ckpt_save_cnt st"
      "count_list (logged mid) SaveLatest = count_list (logged st) SaveLatest"
      "disk mid = disk st" by simp_all
    from n m False show ?thesis by (intro exI[of _ n]) auto
  qed
qed

lemma run_iters_files:
  assumes "run_iters coll cfg train_loader sched total_it cur_epoch start_it its st = Inr st'"
  shows "glob_glob (path_join d ''checkpoint_epoch_*.pth'') (disk st')
           = glob_glob (path_join d ''checkpoint_epoch_*.pth'') (disk st)"
    and "filter (\<lambda>(p, f). is_epoch_ckpt d p) (disk st')
           = filter (\<lambda>(p, f). is_epoch_ckpt d p) (disk st)"
  using assms
proof (induction its arbitrary: st)
  case Nil
  {
    case 1
    then show ?case by simp
  next
    case 2
    then show ?case by simp
  }
next
  case (Cons i its)
  {
    case 1
    then obtain mid where
      it: "train_iter coll cfg train_loader sched total_it cur_epoch start_it i st = Inr mid" and
      rest: "run_iters coll cfg train_loader sched total_it cur_epoch start_it its mid = Inr st'"
      by (auto simp: bind_err_Inr_iff)
    from Cons.IH(1)[OF rest] train_iter_disk(2)[OF it, of d] show ?case by simp
  next
    case 2
    then obtain mid where
      it: "train_iter coll cfg train_loader sched total_it cur_epoch start_it i st = Inr mid" and
      rest: "run_iters coll cfg train_loader sched total_it cur_epoch start_it its mid = Inr st'"
      by (auto simp: bind_err_Inr_iff)
    from Cons.IH(2)[OF rest] train_iter_disk(3)[OF it, of d] show ?case by simp
  }
qed

lemma run_iters_cnt_mono:
  assumes "run_iters coll cfg train_loader sched total_it cur_epoch start_it its st = Inr st'"
  shows "ckpt_save_cnt st \<le> ckpt_save_cnt st'"
  using run_iters_saves[OF assms] by auto

lemma run_iters_cnt_bound:
  assumes "run_iters coll cfg train_loader sched total_it cur_epoch start_it its st = Inr st'"
    and "\<forall>i \<in> set its. whole_intervals coll cfg cur_epoch i \<le> K"
    and "ckpt_save_cnt st \<le> K + 1"
  shows "ckpt_save_cnt st' \<le> K + 1"
  using assms
proof (induction its arbitrary: st)
  case Nil
  then show ?case by simp
next
  case (Cons i its)
  from Cons.prems(1) obtain mid where
    it: "train_iter coll cfg train_loader sched total_it cur_epoch start_it i st = Inr mid" and
    rest: "run_iters coll cfg train_loader sched total_it cur_epoch start_it its mid = Inr st'"
    by (auto simp: bind_err_Inr_iff)
  from train_iter_saves[OF it] Cons.prems(2,3) have "ckpt_save_cnt mid \<le> K + 1"
    by (auto split: if_splits)
  with Cons.IH[OF rest] Cons.prems(2) show ?case by simp
qed

lemma run_iters_cnt_progress:
  assumes "run_iters coll cfg train_loader sched total_it cur_epoch start_it its st = Inr st'"
    and "rank cfg = 0"
    and "\<exists>i \<in> set its. ckpt_save_cnt st \<le> whole_intervals coll cfg cur_epoch i"
  shows "ckpt_save_cnt st + 1 \<le> ckpt_save_cnt st'"
  using assms(1,3)
proof (induction its arbitrary: st)
  case Nil
  then show ?case by simp
next
  case (Cons i its)
  from Cons.prems(1) obtain mid where
    it: "train_iter coll cfg train_loader sched total_it cur_epoch start_it i st = Inr mid" and
    rest: "run_iters coll cfg train_loader sched total_it cur_epoch start_it its mid = Inr st'"
    by (auto simp: bind_err_Inr_iff)
  show ?case
  proof (cases "ckpt_save_cnt st \<le> whole_intervals coll cfg cur_epoch i")
    case True
    with train_iter_saves[OF it] assms(2) have "ckpt_save_cnt mid = ckpt_save_cnt st + 1" by simp
    with run_iters_cnt_mono[OF rest] show ?thesis by simp
  next
    case False
    with train_iter_saves[OF it] have m: "ckpt_save_cnt mid = ckpt_save_cnt st" by simp
    from False Cons.prems(2) have
      "\<exists>j \<in> set its. ckpt_save_cnt mid \<le> whole_intervals coll cfg cur_epoch j"
      unfolding m by auto
    from Cons.IH[OF rest this] m show ?thesis by simp
  qed
qed

text \<open>The saves of an epoch.\<close>

lemma train_one_epoch_saves:
  assumes "train_one_epoch coll cfg train_loader sched total_it cur_epoch st = Inr st'"
  shows "\<exists>n. count_list (logged st') SaveLatest = count_list (logged st) SaveLatest + n
     \<and> ckpt_save_cnt st' = 1 + int n
     \<and> (rank cfg \<noteq> 0 \<longrightarrow> n = 0)
     \<and> (rank cfg = 0 \<longrightarrow>
          1 + int n = save_counter coll cfg cur_epoch
                        [accumulated_iter st mod total_it..total_it - 1] 1)
     \<and> n \<le> length [accumulated_iter st mod total_it..total_it - 1]
     \<and> (\<forall>K. 0 \<le> K \<and> (\<forall>i \<in> {accumulated_iter st mod total_it..total_it - 1}.
                          whole_intervals coll cfg cur_epoch i \<le> K) \<longrightarrow> int n \<le> K)
     \<and> (rank cfg = 0
          \<and> (\<exists>i \<in> {accumulated_iter st mod total_it..total_it - 1}.
                 1 \<le> whole_intervals coll cfg cur_epoch i)
          \<and> (\<forall>i \<in> {accumulated_iter st mod total_it..total_it - 1}.
                 whole_intervals coll cfg cur_epoch i \<le> 1) \<longrightarrow> n = 1)
     \<and> set (map fst (disk st')) \<subseteq> insert (latest_path cfg) (set (map fst (disk st)))
     \<and> (0 < n \<longrightarrow> latest_path cfg \<in> set (map fst (disk st')))"
proof -
  let ?s = "accumulated_iter st mod total_it"
  let ?st0 = "epoch_init cfg train_loader total_it st"
  from assms have r:
    "run_iters coll cfg train_loader sched total_it cur_epoch ?s [?s..total_it - 1] ?st0 = Inr st'"
    by (simp add: train_one_epoch_Inr_iff)
  from run_iters_saves[OF r] obtain n where n:
    "count_list (logged st') SaveLatest = count_list (logged st) SaveLatest + n"
    "ckpt_save_cnt st' = 1 + int n" "n \<le> length [?s..total_it - 1]" "rank cfg \<noteq> 0 \<longrightarrow> n = 0"
    "rank cfg = 0 \<longrightarrow> ckpt_save_cnt st' = save_counter coll cfg cur_epoch [?s..total_it - 1] 1"
    "set (map fst (disk st')) \<subseteq> insert (latest_path cfg) (set (map fst (disk st)))"
    "0 < n \<longrightarrow> latest_path cfg \<in> set (map fst (disk st'))"
    unfolding epoch_init_fields by blast
  have bound: "int n \<le> K"
    if "0 \<le> K" and "\<forall>i \<in> {?s..total_it - 1}. whole_intervals coll cfg cur_epoch i \<le> K" for K
  proof -
    have "ckpt_save_cnt st' \<le> K + 1"
      using that by (intro run_iters_cnt_bound[OF r]) (simp_all add: epoch_init_fields)
    with n(2) show ?thesis by simp
  qed
  have one: "n = 1"
    if "rank cfg = 0" and "\<exists>i \<in> {?s..total_it - 1}. 1 \<le> whole_intervals coll cfg cur_epoch i"
      and "\<forall>i \<in> {?s..total_it - 1}. whole_intervals coll cfg cur_epoch i \<le> 1"
  proof -
    have "ckpt_save_cnt ?st0 + 1 \<le> ckpt_save_cnt st'"
      using that(2) by (intro run_iters_cnt_progress[OF r that(1)]) (simp add: epoch_init_fields)
    moreover have "int n \<le> 1" using that(3) by (intro bound) simp_all
    ultimately show ?thesis using n(2) by (simp add: epoch_init_fields)
  qed
  from n(2,5) have cnt: "rank cfg = 0 \<longrightarrow>
      1 + int n = save_counter coll cfg cur_epoch [?s..total_it - 1] 1" by simp
  from n(1,2,3,4,6,7) cnt bound one show ?thesis by (intro exI[of _ n]) blast
qed

text \<open>
  C8, as the code has it. The test of line 168 is made once in every iteration of the
  lead worker, at its end: when the whole intervals that have passed in the epoch have
  reached the save counter, the iteration writes one checkpoint, holding the model and
  the optimizer its training step has left, the epoch and the counter, to the slot
  \<^verbatim>\<open>latest_model.pth\<close> of the checkpoint directory, replacing the file that was
  there, and advances the save counter by one; otherwise it writes nothing. So in an
  epoch, which starts with the save counter 1, the lead worker writes as many
  checkpoints as tests advance \<open>save_counter\<close>, no other worker writes, the slot is
  the only file the epoch can add, and the writes are never more than the iterations
  nor than the whole intervals that have passed. When at some test one interval has
  passed and at no test two have, exactly one checkpoint is written: so it is for the
  interval 300 and an epoch of 301 seconds.
\<close>

theorem latest_checkpoint_cadence:
  "(train_iter coll cfg train_loader sched total_it cur_epoch start_it cur_it s = Inr s' \<longrightarrow>
      (if rank cfg = 0 \<and> ckpt_save_cnt s \<le> whole_intervals coll cfg cur_epoch cur_it
       then ckpt_save_cnt s' = ckpt_save_cnt s + 1
            \<and> count_list (logged s') SaveLatest = count_list (logged s) SaveLatest + 1
            \<and> (\<exists>batch. map_of (disk s')
                 = (map_of (disk s))(latest_path cfg \<mapsto>
                     \<lparr>mtime = file_time (clock coll cur_epoch cur_it),
                      content = checkpoint_state (pcdet_version coll)
                          (Some (new_model (train_step coll sched (accumulated_iter s)
                                              (cur_model s) (cur_optimizer s) batch)))
                          (Some (new_optimizer (train_step coll sched (accumulated_iter s)
                                                  (cur_model s) (cur_optimizer s) batch)))
                          (Some cur_epoch) (Some (accumulated_iter s + 1)),
                      fmt = (if version_ge_1_4 (torch_version coll) then Legacy else Default)\<rparr>))
       else ckpt_save_cnt s' = ckpt_save_cnt s
            \<and> count_list (logged s') SaveLatest = count_list (logged s) SaveLatest
            \<and> disk s' = disk s))
   \<and> (train_one_epoch coll cfg train_loader sched total_it cur_epoch st = Inr st' \<longrightarrow>
      (\<exists>n. count_list (logged st') SaveLatest = count_list (logged st) SaveLatest + n
         \<and> ckpt_save_cnt st' = 1 + int n
         \<and> (rank cfg \<noteq> 0 \<longrightarrow> n = 0)
         \<and> (rank cfg = 0 \<longrightarrow>
              1 + int n = save_counter coll cfg cur_epoch
                            [accumulated_iter st mod total_it..total_it - 1] 1)
         \<and> n \<le> length [accumulated_iter st mod total_it..total_it - 1]
         \<and> (\<forall>K. 0 \<le> K \<and> (\<forall>i \<in> {accumulated_iter st mod total_it..total_it - 1}.
                              whole_intervals coll cfg cur_epoch i \<le> K) \<longrightarrow> int n \<le> K)
         \<and> (rank cfg = 0
              \<and> (\<exists>i \<in> {accumulated_iter st mod total_it..total_it - 1}.
                     1 \<le> whole_intervals coll cfg cur_epoch i)
              \<and> (\<forall>i \<in> {accumulated_iter st mod total_it..total_it - 1}.
                     whole_intervals coll cfg cur_epoch i \<le> 1) \<longrightarrow> n = 1)
         \<and> set (map fst (disk st')) \<subseteq> insert (latest_path cfg) (set (map fst (disk st)))
         \<and> (0 < n \<longrightarrow> latest_path cfg \<in> set (map fst (disk st')))))"
proof (rule conjI; rule impI)
  assume a: "train_iter coll cfg train_loader sched total_it cur_epoch start_it cur_it s = Inr s'"
  show "if rank cfg = 0 \<and> ckpt_save_cnt s \<le> whole_intervals coll cfg cur_epoch cur_it
       then ckpt_save_cnt s' = ckpt_save_cnt s + 1
            \<and> count_list (logged s') SaveLatest = count_list (logged s) SaveLatest + 1
            \<and> (\<exists>batch. map_of (disk s')
                 = (map_of (disk s))(latest_path cfg \<mapsto>
                     \<lparr>mtime = file_time (clock coll cur_epoch cur_it),
                      content = checkpoint_state (pcdet_version coll)
                          (Some (new_model (train_step coll sched (accumulated_iter s)
                                              (cur_model s) (cur_optimizer s) batch)))
                          (Some (new_optimizer (train_step coll sched (accumulated_iter s)
                                                  (cur_model s) (cur_optimizer s) batch)))
                          (Some cur_epoch) (Some (accumulated_iter s + 1)),
                      fmt = (if version_ge_1_4 (torch_version coll) then Legacy else Default)\<rparr>))
       else ckpt_save_cnt s' = ckpt_save_cnt s
            \<and> count_list (logged s') SaveLatest = count_list (logged s) SaveLatest
            \<and> disk s' = disk s"
  proof (cases "rank cfg = 0 \<and> ckpt_save_cnt s \<le> whole_intervals coll cfg cur_epoch cur_it")
    case True
    with train_iter_saves[OF a] obtain batch where
      "ckpt_save_cnt s' = ckpt_save_cnt s + 1"
      "count_list (logged s') SaveLatest = count_list (logged s) SaveLatest + 1"
      "disk s' = save_checkpoint (torch_version coll) (file_time (clock coll cur_epoch cur_it))
                       (checkpoint_state (pcdet_version coll)
                          (Some (new_model (train_step coll sched (accumulated_iter s)
                                              (cur_model s) (cur_optimizer s) batch)))
                          (Some (new_optimizer (train_step coll sched (accumulated_iter s)
                                                  (cur_model s) (cur_optimizer s) batch)))
                          (Some cur_epoch) (Some (accumulated_iter s + 1)))
                       (path_join (ckpt_save_dir cfg) ''latest_model'') (disk s)"
      by auto
    with True show ?thesis
      by (auto simp: map_of_save_checkpoint latest_path_def intro!: exI[of _ batch])
  next
    case False
    with train_iter_saves[OF a] show ?thesis by auto
  qed
next
  assume "train_one_epoch coll cfg train_loader sched total_it cur_epoch st = Inr st'"
  then show "\<exists>n. count_list (logged st') SaveLatest = count_list (logged st) SaveLatest + n
         \<and> ckpt_save_cnt st' = 1 + int n
         \<and> (rank cfg \<noteq> 0 \<longrightarrow> n = 0)
         \<and> (rank cfg = 0 \<longrightarrow>
              1 + int n = save_counter coll cfg cur_epoch
                            [accumulated_iter st mod total_it..total_it - 1] 1)
         \<and> n \<le> length [accumulated_iter st mod total_it..total_it - 1]
         \<and> (\<forall>K. 0 \<le> K \<and> (\<forall>i \<in> {accumulated_iter st mod total_it..total_it - 1}.
                              whole_intervals coll cfg cur_epoch i \<le> K) \<longrightarrow> int n \<le> K)
         \<and> (rank cfg = 0
              \<and> (\<exists>i \<in> {accumulated_iter st mod total_it..total_it - 1}.
                     1 \<le> whole_intervals coll cfg cur_epoch i)
              \<and> (\<forall>i \<in> {accumulated_iter st mod total_it..total_it - 1}.
                     whole_intervals coll cfg cur_epoch i \<le> 1) \<longrightarrow> n = 1)
         \<and> set (map fst (disk st')) \<subseteq> insert (latest_path cfg) (set (map fst (disk st)))
         \<and> (0 < n \<longrightarrow> latest_path cfg \<in> set (map fst (disk st')))"
    by (rule train_one_epoch_saves)
qed

theorem latest_checkpoint_cadence_witness:
  "train_iter (timed_coll (\<lambda>i. 301)) demo_cfg two_batches Main_scheduler 2 0 0 0 demo_state
     = Inr (projr (train_iter (timed_coll (\<lambda>i. 301)) demo_cfg two_batches Main_scheduler 2 0 0 0
                     demo_state))
   \<and> rank demo_cfg = 0 \<and> ckpt_save_time_interval demo_cfg = 300
   \<and> latest_path demo_cfg = ''output/ckpt/latest_model.pth''
   \<and> ckpt_save_cnt demo_state = 1
   \<and> whole_intervals (timed_coll (\<lambda>i. 301)) demo_cfg 0 0 = 1
   \<and> ckpt_save_cnt (projr (train_iter (timed_coll (\<lambda>i. 301)) demo_cfg two_batches Main_scheduler
                              2 0 0 0 demo_state)) = 2
   \<and> map_option (\<lambda>f. it (content f))
        (map_of (disk (projr (train_iter (timed_coll (\<lambda>i. 301)) demo_cfg two_batches
                                Main_scheduler 2 0 0 0 demo_state)))
           ''output/ckpt/latest_model.pth'') = Some (Some 1)
   \<and> train_one_epoch (timed_coll (\<lambda>i. 301)) demo_cfg two_batches Main_scheduler 2 0 demo_state
       = Inr (projr (train_one_epoch (timed_coll (\<lambda>i. 301)) demo_cfg two_batches Main_scheduler
                       2 0 demo_state))
   \<and> whole_intervals (timed_coll (\<lambda>i. 301)) demo_cfg 0 1 = 1
   \<and> count_list (logged (projr (train_one_epoch (timed_coll (\<lambda>i. 301)) demo_cfg two_batches
                                   Main_scheduler 2 0 demo_state))) SaveLatest = 1
   \<and> set (map fst (disk (projr (train_one_epoch (timed_coll (\<lambda>i. 301)) demo_cfg two_batches
                                   Main_scheduler 2 0 demo_state))))
       = {''output/ckpt/latest_model.pth''}
   \<and> train_one_epoch (timed_coll (\<lambda>i. 301 * (of_int i + 1))) demo_cfg two_batches
         Main_scheduler 2 0 demo_state
       = Inr (projr (train_one_epoch (timed_coll (\<lambda>i. 301 * (of_int i + 1))) demo_cfg
                       two_batches Main_scheduler 2 0 demo_state))
   \<and> save_counter (timed_coll (\<lambda>i. 301 * (of_int i + 1))) demo_cfg 0 [0..1] 1 = 3
   \<and> count_list (logged (projr (train_one_epoch (timed_coll (\<lambda>i. 301 * (of_int i + 1)))
                                   demo_cfg two_batches Main_scheduler 2 0 demo_state)))
        SaveLatest = 2"
proof -
  let ?c = "timed_coll (\<lambda>i. 301)"
  let ?c2 = "timed_coll (\<lambda>i. 301 * (of_int i + 1))"
  let ?i = "train_iter ?c demo_cfg two_batches Main_scheduler 2 0 0 0 demo_state"
  let ?r = "train_one_epoch ?c demo_cfg two_batches Main_scheduler 2 0 demo_state"
  let ?r2 = "train_one_epoch ?c2 demo_cfg two_batches Main_scheduler 2 0 demo_state"
  have ne: "two_batches \<noteq> []" by (simp add: two_batches_def)
  have "\<exists>st'. ?i = Inr st'" by (rule train_iter_returns[OF ne demo_intervals_ok])
  then have hi: "?i = Inr (projr ?i)" by auto
  have "\<exists>st'. ?r = Inr st'"
    by (rule train_one_epoch_returns[OF ne demo_intervals_ok]) simp
  then have h: "?r = Inr (projr ?r)" by auto
  have "\<exists>st'. ?r2 = Inr st'"
    by (rule train_one_epoch_returns[OF ne demo_intervals_ok]) simp
  then have h2: "?r2 = Inr (projr ?r2)" by auto
  have c: "rank demo_cfg = 0" "ckpt_save_time_interval demo_cfg = 300"
    "latest_path demo_cfg = ''output/ckpt/latest_model.pth''"
    by (simp_all add: demo_cfg_def latest_path_def path_join_def)
  have w: "whole_intervals ?c demo_cfg 0 i = 1" for i
    by (simp add: whole_intervals_def demo_cfg_def timed_coll_def)
  have sc: "save_counter ?c2 demo_cfg 0 [0..1] 1 = 3"
    by (simp add: upto.simps whole_intervals_def demo_cfg_def timed_coll_def)
  have s: "accumulated_iter demo_state = 0" "logged demo_state = []" "disk demo_state = []"
    "ckpt_save_cnt demo_state = 1"
    by (simp_all add: demo_state_def)
  note T = latest_checkpoint_cadence
    [of ?c demo_cfg two_batches Main_scheduler 2 0 0 0 demo_state "projr ?i" demo_state "projr ?r"]
  note T2 = latest_checkpoint_cadence
    [of ?c2 demo_cfg two_batches Main_scheduler 2 0 0 0 demo_state "projr ?i" demo_state "projr ?r2"]
  from T[THEN conjunct1, THEN mp, OF hi] have
    i1: "ckpt_save_cnt (projr ?i) = 2" and
    i2: "map_option (\<lambda>f. it (content f))
           (map_of (disk (projr ?i)) ''output/ckpt/latest_model.pth'') = Some (Some 1)"
    unfolding c s w by (auto simp: checkpoint_state_def)
  from T[THEN conjunct2, THEN mp, OF h] obtain n where n:
    "count_list (logged (projr ?r)) SaveLatest = n"
    "rank demo_cfg = 0 \<and> (\<exists>i \<in> {0..1}. 1 \<le> whole_intervals ?c demo_cfg 0 i)
       \<and> (\<forall>i \<in> {0..1}. whole_intervals ?c demo_cfg 0 i \<le> 1) \<longrightarrow> n = 1"
    "set (map fst (disk (projr ?r))) \<subseteq> {''output/ckpt/latest_model.pth''}"
    "0 < n \<longrightarrow> ''output/ckpt/latest_model.pth'' \<in> set (map fst (disk (projr ?r)))"
    unfolding s c(3) by auto
  have "\<exists>i\<ge>0. i \<le> (1::int)" by (intro exI[of _ 0]) simp
  with n(2) c(1) have n1: "n = 1" by (simp add: w)
  with n(3,4) have d: "set (map fst (disk (projr ?r))) = {''output/ckpt/latest_model.pth''}"
    by auto
  from T2[THEN conjunct2, THEN mp, OF h2] obtain m where
    "count_list (logged (projr ?r2)) SaveLatest = m"
    "rank demo_cfg = 0 \<longrightarrow> 1 + int m = save_counter ?c2 demo_cfg 0 [0..1] 1"
    unfolding s by auto
  with c(1) sc have m2: "count_list (logged (projr ?r2)) SaveLatest = 2" by simp
  from hi h h2 c s(4) w[of 0] w[of 1] i1 i2 n(1) n1 d sc m2 show ?thesis
    by (intro conjI) simp_all
qed

text \<open>
  C8 as stated fails: with the interval 300, an epoch whose single iteration ends
  after 700 seconds has seen two intervals pass and writes one checkpoint.
\<close>

theorem one_save_for_two_intervals_counterexample:
  "\<not> isl (train_one_epoch (timed_coll (\<lambda>i. 700)) demo_cfg [1] Main_scheduler 1 0 demo_state)
   \<and> ckpt_save_time_interval demo_cfg = 300
   \<and> whole_intervals (timed_coll (\<lambda>i. 700)) demo_cfg 0 0 = 2
   \<and> count_list (logged (projr (train_one_epoch (timed_coll (\<lambda>i. 700)) demo_cfg [1]
                                   Main_scheduler 1 0 demo_state))) SaveLatest = 1"
proof -
  let ?c = "timed_coll (\<lambda>i. 700)"
  let ?r = "train_one_epoch ?c demo_cfg [1] Main_scheduler 1 0 demo_state"
  have "\<exists>st'. ?r = Inr st'"
    by (rule train_one_epoch_returns[OF _ demo_intervals_ok]) simp_all
  then have h: "?r = Inr (projr ?r)" by auto
  then have ni: "\<not> isl ?r" by (metis sum.disc(2))
  have c: "rank demo_cfg = 0" "ckpt_save_time_interval demo_cfg = 300"
    by (simp_all add: demo_cfg_def)
  have w: "whole_intervals ?c demo_cfg 0 0 = 2"
    by (simp add: whole_intervals_def demo_cfg_def timed_coll_def)
  have s: "accumulated_iter demo_state = 0" "logged demo_state = []"
    by (simp_all add: demo_state_def)
  from train_one_epoch_saves[OF h] obtain n where
    "count_list (logged (projr ?r)) SaveLatest = n"
    "rank demo_cfg = 0 \<longrightarrow> 1 + int n = save_counter ?c demo_cfg 0 [0..0] 1"
    unfolding s by auto
  with c(1) w have "count_list (logged (projr ?r)) SaveLatest = 1"
    by (simp add: upto.simps)
  with ni c(2) w show ?thesis by simp
qed


subsection \<open>The augmentation hook\<close>

lemma aug_swaps_append: "aug_swaps (xs @ ys) = aug_swaps xs @ aug_swaps ys"
  by (induction xs rule: aug_swaps.induct) simp_all

lemma log_phase_swaps:
  assumes "log_phase coll cfg total_it cur_epoch start_it cur_it batch r st = Inr st'"
  shows "aug_swaps (logged st') = aug_swaps (logged st)"
  using assms by (auto simp: log_phase_def aug_swaps_append split: if_splits)

lemma ckpt_phase_swaps:
  assumes "ckpt_phase coll cfg cur_epoch cur_it st = Inr st'"
  shows "aug_swaps (logged st') = aug_swaps (logged st)"
  using assms by (auto simp: ckpt_phase_def Let_def aug_swaps_append split: if_splits)

lemma train_iter_hook:
  assumes "train_iter coll cfg train_loader sched total_it cur_epoch start_it cur_it st = Inr st'"
  shows "augment_disable_flag st' = augment_disable_flag st
       \<and> data_augmentor st' = data_augmentor st
       \<and> aug_swaps (logged st') = aug_swaps (logged st)"
proof -
  from assms obtain batch st1 where
    nb: "next_batch train_loader st = Inr (batch, st1)" and
    body: "if rank cfg = 0
         then \<exists>st3. log_phase coll cfg total_it cur_epoch start_it cur_it batch
                       (run_step coll sched st1 batch)
                       (update_meters (clock coll cur_epoch cur_it) (run_step coll sched st1 batch)
                          (take_step (run_step coll sched st1 batch) cur_it batch st1)) = Inr st3
                  \<and> ckpt_phase coll cfg cur_epoch cur_it st3 = Inr st'
         else st' = take_step (run_step coll sched st1 batch) cur_it batch st1"
    unfolding train_iter_Inr_iff by blast
  note nbk = next_batch_keeps(3,14,15)[OF nb]
  show ?thesis
  proof (cases "rank cfg = 0")
    case False
    with body nbk show ?thesis by (simp add: take_step_fields)
  next
    case True
    with body obtain st3 where
      l: "log_phase coll cfg total_it cur_epoch start_it cur_it batch
                       (run_step coll sched st1 batch)
                       (update_meters (clock coll cur_epoch cur_it) (run_step coll sched st1 batch)
                          (take_step (run_step coll sched st1 batch) cur_it batch st1)) = Inr st3" and
      c: "ckpt_phase coll cfg cur_epoch cur_it st3 = Inr st'" by auto
    from log_phase_keeps(8,9)[OF l] log_phase_swaps[OF l] ckpt_phase_keeps(11,12)[OF c]
      ckpt_phase_swaps[OF c] nbk
    show ?thesis by (simp add: update_meters_keeps take_step_fields)
  qed
qed

lemma run_iters_hook:
  assumes "run_iters coll cfg train_loader sched total_it cur_epoch start_it its st = Inr st'"
  shows "augment_disable_flag st' = augment_disable_flag st
       \<and> data_augmentor st' = data_augmentor st
       \<and> aug_swaps (logged st') = aug_swaps (logged st)"
  using assms
proof (induction its arbitrary: st)
  case Nil
  then show ?case by simp
next
  case (Cons i its)
  from Cons.prems obtain mid where
    it: "train_iter coll cfg train_loader sched total_it cur_epoch start_it i st = Inr mid" and
    rest: "run_iters coll cfg train_loader sched total_it cur_epoch start_it its mid = Inr st'"
    by (auto simp: bind_err_Inr_iff)
  from train_iter_hook[OF it] Cons.IH[OF rest] show ?case by simp
qed

lemma disable_augmentation_hook_cases:
  "if hook_due cfg cur_epoch \<and> \<not> augment_disable_flag st
   then augment_disable_flag (disable_augmentation_hook cfg cur_epoch st)
        \<and> data_augmentor (disable_augmentation_hook cfg cur_epoch st) = Some (hook_list cfg)
        \<and> aug_swaps (logged (disable_augmentation_hook cfg cur_epoch st))
            = aug_swaps (logged st) @ [hook_list cfg]
   else disable_augmentation_hook cfg cur_epoch st = st"
  by (simp add: disable_augmentation_hook_def hook_due_def hook_list_def aug_swaps_append
        split: option.splits)

text \<open>One epoch of the run, seen from the hook.\<close>

lemma epoch_body_hook:
  assumes "epoch_body coll cfg train_loader total_it cur_epoch st = Inr st'"
  shows "if hook_due cfg cur_epoch \<and> \<not> augment_disable_flag st
         then augment_disable_flag st' \<and> data_augmentor st' = Some (hook_list cfg)
              \<and> aug_swaps (logged st') = aug_swaps (logged st) @ [hook_list cfg]
         else augment_disable_flag st' = augment_disable_flag st
              \<and> data_augmentor st' = data_augmentor st
              \<and> aug_swaps (logged st') = aug_swaps (logged st)"
proof -
  let ?h = "disable_augmentation_hook cfg cur_epoch st"
  from assms obtain sched mid where
    t: "train_one_epoch coll cfg train_loader sched total_it cur_epoch ?h = Inr mid" and
    s: "save_trained_model coll cfg cur_epoch mid = Inr st'"
    unfolding epoch_body_Inr_iff by blast
  from t have "\<exists>start_it its.
      run_iters coll cfg train_loader sched total_it cur_epoch start_it its
        (epoch_init cfg train_loader total_it ?h) = Inr mid"
    unfolding train_one_epoch_Inr_iff by blast
  then obtain start_it its where
    "run_iters coll cfg train_loader sched total_it cur_epoch start_it its
        (epoch_init cfg train_loader total_it ?h) = Inr mid" by blast
  from run_iters_hook[OF this] have
    "augment_disable_flag mid = augment_disable_flag ?h
       \<and> data_augmentor mid = data_augmentor ?h
       \<and> aug_swaps (logged mid) = aug_swaps (logged ?h)"
    by (simp add: epoch_init_fields)
  with save_trained_model_keeps(2,4,5)[OF s] have
    "augment_disable_flag st' = augment_disable_flag ?h
       \<and> data_augmentor st' = data_augmentor ?h
       \<and> aug_swaps (logged st') = aug_swaps (logged ?h)" by simp
  with disable_augmentation_hook_cases[of cfg cur_epoch st] show ?thesis
    by (auto split: if_splits)
qed

lemma run_epochs_hook_set:
  assumes "run_epochs coll cfg train_loader total_it es st = Inr st'"
    and "augment_disable_flag st"
  shows "augment_disable_flag st' \<and> data_augmentor st' = data_augmentor st
       \<and> aug_swaps (logged st') = aug_swaps (logged st)"
  using assms
proof (induction es arbitrary: st)
  case Nil
  then show ?case by simp
next
  case (Cons e es)
  from Cons.prems(1) obtain mid where
    b: "epoch_body coll cfg train_loader total_it e st = Inr mid" and
    rest: "run_epochs coll cfg train_loader total_it es mid = Inr st'"
    by (auto simp: bind_err_Inr_iff)
  from epoch_body_hook[OF b] Cons.prems(2) have
    m: "augment_disable_flag mid" "data_augmentor mid = data_augmentor st"
      "aug_swaps (logged mid) = aug_swaps (logged st)" by simp_all
  from Cons.IH[OF rest m(1)] m show ?case by simp
qed

lemma run_epochs_hook:
  assumes "run_epochs coll cfg train_loader total_it es st = Inr st'"
    and "\<not> augment_disable_flag st"
  shows "(augment_disable_flag st' \<longleftrightarrow> (\<exists>e \<in> set es. hook_due cfg e))
       \<and> aug_swaps (logged st')
           = aug_swaps (logged st) @ (if augment_disable_flag st' then [hook_list cfg] else [])
       \<and> data_augmentor st'
           = (if augment_disable_flag st' then Some (hook_list cfg) else data_augmentor st)"
  using assms
proof (induction es arbitrary: st)
  case Nil
  then show ?case by simp
next
  case (Cons e es)
  from Cons.prems(1) obtain mid where
    b: "epoch_body coll cfg train_loader total_it e st = Inr mid" and
    rest: "run_epochs coll cfg train_loader total_it es mid = Inr st'"
    by (auto simp: bind_err_Inr_iff)
  show ?case
  proof (cases "hook_due cfg e")
    case True
    with epoch_body_hook[OF b] Cons.prems(2) have
      m: "augment_disable_flag mid" "data_augmentor mid = Some (hook_list cfg)"
        "aug_swaps (logged mid) = aug_swaps (logged st) @ [hook_list cfg]" by simp_all
    from run_epochs_hook_set[OF rest m(1)] m True show ?thesis by simp
  next
    case False
    with epoch_body_hook[OF b] have
      m: "augment_disable_flag mid = augment_disable_flag st"
        "data_augmentor mid = data_augmentor st"
        "aug_swaps (logged mid) = aug_swaps (logged st)" by simp_all
    from m(1) Cons.prems(2) have "\<not> augment_disable_flag mid" by simp
    from Cons.IH[OF rest this] m False show ?thesis by simp
  qed
qed

lemma train_model_Inr_iff:
  "train_model coll cfg train_loader st = Inr st' \<longleftrightarrow>
     (\<exists>loader total_it. merged_loader coll cfg train_loader = Inr (loader, total_it)
        \<and> run_epochs coll cfg loader total_it [start_epoch cfg..total_epochs cfg - 1]
            (run_init cfg loader st) = Inr st')"
  by (auto simp: train_model_def bind_err_Inr_iff)

lemma run_init_fields:
  shows "accumulated_iter (run_init cfg loader st) = start_iter cfg"
    and "augment_disable_flag (run_init cfg loader st) = False"
    and "data_augmentor (run_init cfg loader st) = data_augmentor st"
    and "logged (run_init cfg loader st) = logged st"
    and "disk (run_init cfg loader st) = disk st"
    and "steps (run_init cfg loader st) = steps st"
  by (simp_all add: run_init_def)

text \<open>
  C9. In a run that returns, the hook announces and installs the reduced augmentor
  in the first epoch that is one of the last \<open>NUM_LAST_EPOCHS\<close> and in no other: after
  any number of epochs of the run the flag is set exactly when one of them was such
  an epoch, the logger has then heard of one replacement and the augmentor is the
  reduced one; otherwise nothing has been announced and the augmentor is the one the
  run started with.
\<close>

theorem augmentation_disabled_once:
  assumes "train_model coll cfg train_loader st = Inr st'"
  shows "\<exists>loader total_it. merged_loader coll cfg train_loader = Inr (loader, total_it)
     \<and> (\<forall>k mid. run_epochs coll cfg loader total_it
                    (take k [start_epoch cfg..total_epochs cfg - 1]) (run_init cfg loader st) = Inr mid
          \<longrightarrow> (augment_disable_flag mid
                 \<longleftrightarrow> (\<exists>e \<in> set (take k [start_epoch cfg..total_epochs cfg - 1]). hook_due cfg e))
            \<and> aug_swaps (logged mid)
                = aug_swaps (logged st) @ (if augment_disable_flag mid then [hook_list cfg] else [])
            \<and> data_augmentor mid
                = (if augment_disable_flag mid then Some (hook_list cfg) else data_augmentor st))
     \<and> (augment_disable_flag st'
          \<longleftrightarrow> (\<exists>e \<in> {start_epoch cfg..total_epochs cfg - 1}. hook_due cfg e))
     \<and> aug_swaps (logged st')
         = aug_swaps (logged st) @ (if augment_disable_flag st' then [hook_list cfg] else [])
     \<and> data_augmentor st'
         = (if augment_disable_flag st' then Some (hook_list cfg) else data_augmentor st)
     \<and> length (aug_swaps (logged st')) \<le> length (aug_swaps (logged st)) + 1"
proof -
  from assms obtain loader total_it where
    m: "merged_loader coll cfg train_loader = Inr (loader, total_it)" and
    r: "run_epochs coll cfg loader total_it [start_epoch cfg..total_epochs cfg - 1]
          (run_init cfg loader st) = Inr st'"
    unfolding train_model_Inr_iff by blast
  have f: "\<not> augment_disable_flag (run_init cfg loader st)" by (simp add: run_init_fields)
  have part: "(augment_disable_flag mid \<longleftrightarrow> (\<exists>e \<in> set es. hook_due cfg e))
            \<and> aug_swaps (logged mid)
                = aug_swaps (logged st) @ (if augment_disable_flag mid then [hook_list cfg] else [])
            \<and> data_augmentor mid
                = (if augment_disable_flag mid then Some (hook_list cfg) else data_augmentor st)"
    if "run_epochs coll cfg loader total_it es (run_init cfg loader st) = Inr mid" for es mid
    using run_epochs_hook[OF that f] by (simp add: run_init_fields)
  from part[OF r] have fin:
    "augment_disable_flag st' \<longleftrightarrow> (\<exists>e \<in> {start_epoch cfg..total_epochs cfg - 1}. hook_due cfg e)"
    "aug_swaps (logged st')
       = aug_swaps (logged st) @ (if augment_disable_flag st' then [hook_list cfg] else [])"
    "data_augmentor st'
       = (if augment_disable_flag st' then Some (hook_list cfg) else data_augmentor st)"
    by simp_all
  from fin(2) have "length (aug_swaps (logged st')) \<le> length (aug_swaps (logged st)) + 1"
    by simp
  with m part fin show ?thesis by (intro exI[of _ loader] exI[of _ total_it]) blast
qed


lemma train_model_returns:
  assumes "\<not> merge_all_iters_to_one_epoch cfg" and "train_loader \<noteq> []" and "run_ok cfg"
  shows "\<exists>st'. train_model coll cfg train_loader st = Inr st'"
  unfolding train_model_plain[OF assms(1)]
  by (rule run_epochs_returns[OF assms(2,3)]) (use assms(2) in simp)

theorem augmentation_disabled_once_witness:
  "train_model demo_coll demo_cfg demo_loader demo_state
     = Inr (projr (train_model demo_coll demo_cfg demo_loader demo_state))
   \<and> augment_disable_flag (projr (train_model demo_coll demo_cfg demo_loader demo_state))
   \<and> aug_swaps (logged (projr (train_model demo_coll demo_cfg demo_loader demo_state)))
       = [[''gt_sampling'']]
   \<and> data_augmentor (projr (train_model demo_coll demo_cfg demo_loader demo_state))
       = Some [''gt_sampling'']
   \<and> \<not> augment_disable_flag
         (projr (run_epochs demo_coll demo_cfg demo_loader 25 [0]
                   (run_init demo_cfg demo_loader demo_state)))"
proof -
  let ?r = "train_model demo_coll demo_cfg demo_loader demo_state"
  let ?m = "run_epochs demo_coll demo_cfg demo_loader 25 [0]
              (run_init demo_cfg demo_loader demo_state)"
  have ne: "demo_loader \<noteq> []" by (simp add: demo_loader_def)
  have nm: "\<not> merge_all_iters_to_one_epoch demo_cfg" by (simp add: demo_cfg_def)
  have "\<exists>st'. ?r = Inr st'" by (rule train_model_returns[OF nm ne demo_run_ok])
  then have h: "?r = Inr (projr ?r)" by auto
  have "\<exists>mid. ?m = Inr mid" by (rule run_epochs_returns[OF ne demo_run_ok]) simp
  then have hm: "?m = Inr (projr ?m)" by auto
  have ml: "merged_loader demo_coll demo_cfg demo_loader = Inr (demo_loader, 25)"
    by (simp add: merged_loader_def demo_cfg_def demo_loader_def)
  have ep: "[start_epoch demo_cfg..total_epochs demo_cfg - 1] = [0, 1]"
    by (simp add: demo_cfg_def upto.simps)
  have due: "hook_due demo_cfg 1" "\<not> hook_due demo_cfg 0" "hook_list demo_cfg = [''gt_sampling'']"
    by (simp_all add: hook_due_def hook_list_def demo_cfg_def)
  have s: "logged demo_state = []" "data_augmentor demo_state = None"
    by (simp_all add: demo_state_def)
  from augmentation_disabled_once[OF h] obtain loader total_it where
    a: "merged_loader demo_coll demo_cfg demo_loader = Inr (loader, total_it)" and
    b: "\<forall>k mid. run_epochs demo_coll demo_cfg loader total_it
                    (take k [start_epoch demo_cfg..total_epochs demo_cfg - 1])
                    (run_init demo_cfg loader demo_state) = Inr mid
          \<longrightarrow> (augment_disable_flag mid
                 \<longleftrightarrow> (\<exists>e \<in> set (take k [start_epoch demo_cfg..total_epochs demo_cfg - 1]).
                        hook_due demo_cfg e))
            \<and> aug_swaps (logged mid)
                = aug_swaps (logged demo_state)
                  @ (if augment_disable_flag mid then [hook_list demo_cfg] else [])
            \<and> data_augmentor mid
                = (if augment_disable_flag mid then Some (hook_list demo_cfg)
                   else data_augmentor demo_state)" and
    c1: "augment_disable_flag (projr ?r)
          \<longleftrightarrow> (\<exists>e \<in> {start_epoch demo_cfg..total_epochs demo_cfg - 1}. hook_due demo_cfg e)" and
    c2: "aug_swaps (logged (projr ?r))
         = aug_swaps (logged demo_state)
           @ (if augment_disable_flag (projr ?r) then [hook_list demo_cfg] else [])" and
    c3: "data_augmentor (projr ?r)
         = (if augment_disable_flag (projr ?r) then Some (hook_list demo_cfg)
            else data_augmentor demo_state)"
    by blast
  from a ml have lt: "loader = demo_loader" "total_it = 25" by simp_all
  have "take 1 [start_epoch demo_cfg..total_epochs demo_cfg - 1] = [0]" by (simp add: ep)
  with b hm have "augment_disable_flag (projr ?m) \<longleftrightarrow> (\<exists>e \<in> set [0]. hook_due demo_cfg e)"
    unfolding lt by metis
  with due have nf: "\<not> augment_disable_flag (projr ?m)" by simp
  have "(1::int) \<in> {start_epoch demo_cfg..total_epochs demo_cfg - 1}"
    by (simp add: demo_cfg_def)
  with c1 due(1) have "augment_disable_flag (projr ?r)" by blast
  with nf h c2 c3 show ?thesis by (simp add: s due)
qed

subsection \<open>The retention sweep\<close>

lemma remove_oldest_result:
  assumes "remove_oldest ckpt_list idxs dir = Inr dir'"
  shows "(\<forall>i \<in> set idxs. i < int (length ckpt_list))
       \<and> dir' = filter (\<lambda>(n, g). n \<notin> set (map (\<lambda>i. ckpt_list ! nat i) idxs)) dir"
  using assms
proof (induction idxs arbitrary: dir)
  case Nil
  then show ?case by simp
next
  case (Cons i idxs)
  from Cons.prems have lt: "i < int (length ckpt_list)"
    and rest: "remove_oldest ckpt_list idxs (os_remove (ckpt_list ! nat i) dir) = Inr dir'"
    by (simp_all split: if_splits)
  from Cons.IH[OF rest] lt show ?case
    by (auto simp: os_remove_def intro!: filter_cong)
qed

lemma nth_upto_take:
  "k \<le> length xs \<Longrightarrow> map (\<lambda>i. xs ! nat i) [0..int k - 1] = take k xs"
proof (induction k)
  case 0
  then show ?case by simp
next
  case (Suc k)
  then have "take (Suc k) xs = take k xs @ [xs ! k]"
    by (simp add: take_Suc_conv_app_nth)
  moreover have "[0..int (Suc k) - 1] = [0..int k - 1] @ [int k]"
    using upto_rec2[of 0 "int k"] by simp
  ultimately show ?case using Suc by simp
qed

text \<open>
  In a checkpoint directory whose path has none of the characters \<^verbatim>\<open>*\<close>, \<^verbatim>\<open>?\<close> and
  \<^verbatim>\<open>[\<close> the sweep lists the checkpoints of epochs of that directory.
\<close>

lemma split_path_chars: "pc \<in> set (split_path s) \<Longrightarrow> set pc \<subseteq> set s"
proof (induction s arbitrary: pc)
  case Nil
  then show ?case by simp
next
  case (Cons c s)
  obtain h t where ht: "split_path s = h # t"
    using split_path_nonempty[of s] by (cases "split_path s") auto
  show ?case
  proof (cases "c = CHR ''/''")
    case True
    with Cons.prems have "pc = [] \<or> pc \<in> set (split_path s)" by simp
    with Cons.IH show ?thesis by auto
  next
    case False
    with Cons.prems ht have "pc = c # h \<or> pc \<in> set t" by simp
    moreover have "set h \<subseteq> set s" using Cons.IH[of h] ht by simp
    moreover have "pc \<in> set t \<Longrightarrow> set pc \<subseteq> set s" using Cons.IH[of pc] ht by simp
    ultimately show ?thesis by auto
  qed
qed

lemma magic_component: "pc \<in> set (split_path s) \<Longrightarrow> has_magic pc \<Longrightarrow> has_magic s"
  using split_path_chars[of pc s] by (auto simp: has_magic_def)

lemma plain_components_match:
  "\<forall>pc \<in> set pcs. \<not> has_magic pc \<Longrightarrow> list_all2 comp_match pcs ncs \<longleftrightarrow> ncs = pcs"
  by (induction pcs arbitrary: ncs) (auto simp: comp_match_def list_all2_Cons1)

lemma glob_plain_directory:
  assumes "\<not> has_magic d"
  shows "glob_match (path_join d ''checkpoint_epoch_*.pth'') p \<longleftrightarrow> is_epoch_ckpt d p"
proof -
  let ?pat = "''checkpoint_epoch_*.pth''"
  let ?sp = "split_path p"
  from assms have pl: "\<forall>pc \<in> set (split_path d). \<not> has_magic pc"
    using magic_component by blast
  have "list_all2 comp_match (split_path d @ [?pat]) (butlast ?sp @ [last ?sp])
          \<longleftrightarrow> list_all2 comp_match (split_path d) (butlast ?sp) \<and> comp_match ?pat (last ?sp)"
    by (rule list_all2_snoc_both)
  then have "list_all2 comp_match (split_path d @ [?pat]) ?sp
          \<longleftrightarrow> list_all2 comp_match (split_path d) (butlast ?sp) \<and> comp_match ?pat (last ?sp)"
    by (simp add: split_path_nonempty)
  moreover have "split_path (path_join d ?pat) = split_path d @ [?pat]"
    by (rule path_join_components) simp
  ultimately show ?thesis
    unfolding glob_match_def is_epoch_ckpt_def plain_components_match[OF pl] by simp
qed

lemma sorted_ckpts_plain:
  assumes "\<not> has_magic d"
  shows "sorted_ckpts d dir
           = sort_key (\<lambda>(p, f). mtime f) (filter (\<lambda>(p, f). is_epoch_ckpt d p) dir)"
proof -
  have "filter (\<lambda>(p, f). glob_match (path_join d ''checkpoint_epoch_*.pth'') p) dir
          = filter (\<lambda>(p, f). is_epoch_ckpt d p) dir"
    by (rule filter_cong) (auto simp: glob_plain_directory[OF assms])
  then show ?thesis by (simp add: sorted_ckpts_def glob_glob_def)
qed

lemma length_sorted_ckpts:
  "\<not> has_magic d \<Longrightarrow> length (sorted_ckpts d dir) = epoch_ckpt_count d dir"
  by (simp add: sorted_ckpts_plain epoch_ckpt_count_def)

text \<open>What is left of the files of the sweep when the first \<open>k\<close> of the sorted list go.\<close>

lemma count_after_sweep:
  assumes "\<not> has_magic d" and "k \<le> length (sorted_ckpts d dir)"
  shows "epoch_ckpt_count d
           (filter (\<lambda>(n, g). n \<notin> set (take k (map fst (sorted_ckpts d dir)))) dir)
           \<le> length (sorted_ckpts d dir) - k"
proof -
  let ?S = "sorted_ckpts d dir"
  let ?E = "\<lambda>(p, f). is_epoch_ckpt d p"
  define K where "K = set (take k (map fst ?S))"
  let ?P = "\<lambda>(n, g). n \<notin> K"
  have "filter ?E (filter ?P dir) = filter ?P (filter ?E dir)"
    unfolding filter_filter by (rule filter_cong) auto
  then have "epoch_ckpt_count d (filter ?P dir) = length (filter ?P (filter ?E dir))"
    by (simp add: epoch_ckpt_count_def)
  also have "\<dots> = length (filter ?P ?S)"
    by (simp add: sorted_ckpts_plain[OF assms(1)] filter_sort)
  also have "filter ?P ?S = filter ?P (take k ?S) @ filter ?P (drop k ?S)"
    by (metis append_take_drop_id filter_append)
  also have "filter ?P (take k ?S) = []"
    unfolding K_def by (force simp: filter_empty_conv take_map)
  finally have "epoch_ckpt_count d (filter ?P dir) = length (filter ?P (drop k ?S))" by simp
  also have "\<dots> \<le> length (drop k ?S)" by (rule length_filter_le)
  finally show ?thesis unfolding K_def by simp
qed

lemma count_write_file:
  "epoch_ckpt_count d (write_file name f dir) \<le> epoch_ckpt_count d dir + 1"
  by (induction name f dir rule: write_file.induct) (auto simp: epoch_ckpt_count_def)

lemma count_save_checkpoint:
  "epoch_ckpt_count d (save_checkpoint tver now state filename dir) \<le> epoch_ckpt_count d dir + 1"
  by (simp add: save_checkpoint_def torch_save_def Let_def count_write_file[simplified])

lemma oldest_first:
  "\<forall>x \<in> set (take k (sorted_ckpts d dir)). \<forall>y \<in> set (drop k (sorted_ckpts d dir)).
     mtime (snd x) \<le> mtime (snd y)"
proof -
  let ?f = "\<lambda>(n, g). mtime (g :: ckpt_file)"
  have "sorted (map ?f (take k (sorted_ckpts d dir) @ drop k (sorted_ckpts d dir)))"
    unfolding append_take_drop_id sorted_ckpts_def by (rule sorted_sort_key)
  then have "sorted (map ?f (take k (sorted_ckpts d dir)) @ map ?f (drop k (sorted_ckpts d dir)))"
    by (simp only: map_append)
  then have "\<forall>a \<in> set (map ?f (take k (sorted_ckpts d dir))).
               \<forall>b \<in> set (map ?f (drop k (sorted_ckpts d dir))). a \<le> b"
    unfolding sorted_append by blast
  then show ?thesis by force
qed

text \<open>The save at the end of an epoch, whatever the directory.\<close>

lemma save_trained_model_cases:
  assumes "save_trained_model coll cfg cur_epoch st = Inr st'"
  shows "if (cur_epoch + 1) mod ckpt_save_interval cfg = 0 \<and> rank cfg = 0
         then sweep_count cfg (disk st) \<le> length (sorted_ckpts (ckpt_save_dir cfg) (disk st))
              \<and> (max_ckpt_save_num cfg \<le> int (length (sorted_ckpts (ckpt_save_dir cfg) (disk st)))
                    \<longrightarrow> 1 \<le> max_ckpt_save_num cfg)
              \<and> disk st' = save_checkpoint (torch_version coll) (epoch_file_time coll (cur_epoch + 1))
                   (checkpoint_state (pcdet_version coll) (Some (cur_model st))
                      (Some (cur_optimizer st)) (Some (cur_epoch + 1)) (Some (accumulated_iter st)))
                   (path_join (ckpt_save_dir cfg) (''checkpoint_epoch_'' @ show_int (cur_epoch + 1)))
                   (filter (\<lambda>(n, g). n \<notin> set (take (sweep_count cfg (disk st))
                                                  (map fst (sorted_ckpts (ckpt_save_dir cfg)
                                                              (disk st)))))
                      (disk st))
         else st' = st"
proof (cases "(cur_epoch + 1) mod ckpt_save_interval cfg = 0 \<and> rank cfg = 0")
  case False
  with assms show ?thesis
    by (auto simp: save_trained_model_def Let_def split: if_splits)
next
  case True
  let ?names = "map fst (sorted_ckpts (ckpt_save_dir cfg) (disk st))"
  let ?L = "int (length ?names)"
  let ?N = "max_ckpt_save_num cfg"
  let ?k = "sweep_count cfg (disk st)"
  let ?save = "\<lambda>dir. save_checkpoint (torch_version coll) (epoch_file_time coll (cur_epoch + 1))
                   (checkpoint_state (pcdet_version coll) (Some (cur_model st))
                      (Some (cur_optimizer st)) (Some (cur_epoch + 1)) (Some (accumulated_iter st)))
                   (path_join (ckpt_save_dir cfg) (''checkpoint_epoch_'' @ show_int (cur_epoch + 1)))
                   dir"
  from assms True obtain dir where
    sw: "(if ?N \<le> ?L then remove_oldest ?names [0..?L - ?N] (disk st) else Inr (disk st)) = Inr dir"
    and d: "disk st' = ?save dir"
    by (auto simp: save_trained_model_def Let_def bind_err_Inr_iff split: if_splits)
  have "?k \<le> length (sorted_ckpts (ckpt_save_dir cfg) (disk st))
        \<and> (?N \<le> ?L \<longrightarrow> 1 \<le> ?N)
        \<and> dir = filter (\<lambda>(n, g). n \<notin> set (take ?k ?names)) (disk st)"
  proof (cases "?N \<le> ?L")
    case False
    with sw show ?thesis by (simp add: sweep_count_def)
  next
    case many: True
    with sw have ro: "remove_oldest ?names [0..?L - ?N] (disk st) = Inr dir" by simp
    from remove_oldest_result[OF ro] have
      idx: "\<forall>i \<in> set [0..?L - ?N]. i < ?L" and
      dir: "dir = filter (\<lambda>(n, g). n \<notin> set (map (\<lambda>i. ?names ! nat i) [0..?L - ?N])) (disk st)"
      by blast+
    from idx many have n1: "1 \<le> ?N" by auto
    from many have k: "int ?k = ?L - ?N + 1" by (simp add: sweep_count_def)
    with n1 have kl: "?k \<le> length ?names" by simp
    from k have e: "[0..?L - ?N] = [0..int ?k - 1]" by simp
    have "map (\<lambda>i. ?names ! nat i) [0..?L - ?N] = take ?k ?names"
      unfolding e by (rule nth_upto_take[OF kl])
    with dir have "dir = filter (\<lambda>(n, g). n \<notin> set (take ?k ?names)) (disk st)"
      by (simp only:)
    with kl n1 show ?thesis by simp
  qed
  with d True show ?thesis by simp
qed

text \<open>The count of the checkpoints of epochs, for a directory with a plain path.\<close>

lemma save_trained_model_count:
  assumes "save_trained_model coll cfg cur_epoch st = Inr st'"
    and "(cur_epoch + 1) mod ckpt_save_interval cfg = 0 \<and> rank cfg = 0"
    and "\<not> has_magic (ckpt_save_dir cfg)"
  shows "int (epoch_ckpt_count (ckpt_save_dir cfg) (disk st')) \<le> max_ckpt_save_num cfg"
proof -
  let ?D = "ckpt_save_dir cfg"
  let ?k = "sweep_count cfg (disk st)"
  let ?d = "filter (\<lambda>(n, g). n \<notin> set (take ?k (map fst (sorted_ckpts ?D (disk st))))) (disk st)"
  note len = length_sorted_ckpts[OF assms(3)]
  from save_trained_model_cases[OF assms(1)] assms(2) have
    kl: "?k \<le> length (sorted_ckpts ?D (disk st))" and
    n1: "max_ckpt_save_num cfg \<le> int (epoch_ckpt_count ?D (disk st)) \<longrightarrow> 1 \<le> max_ckpt_save_num cfg" and
    "\<exists>tver now state filename. disk st' = save_checkpoint tver now state filename ?d"
    by (auto simp: len)
  then obtain tver now state filename where
    "disk st' = save_checkpoint tver now state filename ?d" by blast
  then have "epoch_ckpt_count ?D (disk st') \<le> epoch_ckpt_count ?D ?d + 1"
    by (simp add: count_save_checkpoint[simplified])
  moreover from count_after_sweep[OF assms(3) kl] have
    "epoch_ckpt_count ?D ?d \<le> epoch_ckpt_count ?D (disk st) - ?k"
    by (simp add: len)
  ultimately have
    "int (epoch_ckpt_count ?D (disk st')) \<le> int (epoch_ckpt_count ?D (disk st) - ?k) + 1"
    by linarith
  with n1 show ?thesis by (auto simp: sweep_count_def len split: if_splits)
qed

lemma epoch_body_count:
  assumes "epoch_body coll cfg train_loader total_it cur_epoch st = Inr st'"
    and "int (epoch_ckpt_count (ckpt_save_dir cfg) (disk st)) \<le> max_ckpt_save_num cfg"
    and "\<not> has_magic (ckpt_save_dir cfg)"
  shows "int (epoch_ckpt_count (ckpt_save_dir cfg) (disk st')) \<le> max_ckpt_save_num cfg"
proof -
  let ?h = "disable_augmentation_hook cfg cur_epoch st"
  from assms(1) obtain sched mid where
    t: "train_one_epoch coll cfg train_loader sched total_it cur_epoch ?h = Inr mid" and
    s: "save_trained_model coll cfg cur_epoch mid = Inr st'"
    unfolding epoch_body_Inr_iff by blast
  from t have "\<exists>start_it its.
      run_iters coll cfg train_loader sched total_it cur_epoch start_it its
        (epoch_init cfg train_loader total_it ?h) = Inr mid"
    unfolding train_one_epoch_Inr_iff by blast
  then obtain start_it its where
    "run_iters coll cfg train_loader sched total_it cur_epoch start_it its
        (epoch_init cfg train_loader total_it ?h) = Inr mid" by blast
  from run_iters_files(2)[OF this, of "ckpt_save_dir cfg"] have
    m: "epoch_ckpt_count (ckpt_save_dir cfg) (disk mid)
          = epoch_ckpt_count (ckpt_save_dir cfg) (disk st)"
    by (simp add: epoch_ckpt_count_def epoch_init_fields disable_augmentation_hook_keeps)
  show ?thesis
  proof (cases "(cur_epoch + 1) mod ckpt_save_interval cfg = 0 \<and> rank cfg = 0")
    case True
    from save_trained_model_count[OF s True assms(3)] show ?thesis .
  next
    case False
    with save_trained_model_cases[OF s] have "st' = mid" by simp
    with m assms(2) show ?thesis by simp
  qed
qed

lemma run_epochs_count:
  assumes "run_epochs coll cfg train_loader total_it es st = Inr st'"
    and "int (epoch_ckpt_count (ckpt_save_dir cfg) (disk st)) \<le> max_ckpt_save_num cfg"
    and "\<not> has_magic (ckpt_save_dir cfg)"
  shows "int (epoch_ckpt_count (ckpt_save_dir cfg) (disk st')) \<le> max_ckpt_save_num cfg"
  using assms(1,2)
proof (induction es arbitrary: st)
  case Nil
  then show ?case by simp
next
  case (Cons e es)
  from Cons.prems(1) obtain mid where
    b: "epoch_body coll cfg train_loader total_it e st = Inr mid" and
    rest: "run_epochs coll cfg train_loader total_it es mid = Inr st'"
    by (auto simp: bind_err_Inr_iff)
  from Cons.IH[OF rest epoch_body_count[OF b Cons.prems(2) assms(3)]] show ?case .
qed

text \<open>
  Retention in a checkpoint directory whose path has none of the characters \<^verbatim>\<open>*\<close>,
  \<^verbatim>\<open>?\<close> and \<^verbatim>\<open>[\<close>. A returning save at the end of an epoch leaves the state alone
  unless \<open>(cur_epoch + 1) mod ckpt_save_interval = 0\<close> on the lead worker. Then it
  deletes the first \<open>sweep_count\<close> files of the list of epoch checkpoints sorted by
  modification time, none of which is younger than one that stays, writes the
  checkpoint of the epoch into what is left, and the directory has at most
  \<open>max_ckpt_save_num\<close> epoch checkpoints. A run that starts with at most that many has
  at most that many after any number of its epochs.
\<close>

lemma retention_in_plain_directory:
  assumes "\<not> has_magic (ckpt_save_dir cfg)"
  shows "(save_trained_model coll cfg cur_epoch st = Inr st' \<longrightarrow>
      (if (cur_epoch + 1) mod ckpt_save_interval cfg = 0 \<and> rank cfg = 0
       then int (epoch_ckpt_count (ckpt_save_dir cfg) (disk st')) \<le> max_ckpt_save_num cfg
            \<and> disk st' = save_checkpoint (torch_version coll) (epoch_file_time coll (cur_epoch + 1))
                 (checkpoint_state (pcdet_version coll) (Some (cur_model st))
                    (Some (cur_optimizer st)) (Some (cur_epoch + 1)) (Some (accumulated_iter st)))
                 (path_join (ckpt_save_dir cfg) (''checkpoint_epoch_'' @ show_int (cur_epoch + 1)))
                 (filter (\<lambda>(n, g). n \<notin> set (take (sweep_count cfg (disk st))
                                                (map fst (sorted_ckpts (ckpt_save_dir cfg)
                                                            (disk st)))))
                    (disk st))
            \<and> (\<forall>x \<in> set (take (sweep_count cfg (disk st))
                             (sorted_ckpts (ckpt_save_dir cfg) (disk st))).
                 \<forall>y \<in> set (drop (sweep_count cfg (disk st))
                               (sorted_ckpts (ckpt_save_dir cfg) (disk st))).
                   mtime (snd x) \<le> mtime (snd y))
       else st' = st))
   \<and> (train_model coll cfg train_loader s = Inr s'
        \<and> int (epoch_ckpt_count (ckpt_save_dir cfg) (disk s)) \<le> max_ckpt_save_num cfg \<longrightarrow>
      int (epoch_ckpt_count (ckpt_save_dir cfg) (disk s')) \<le> max_ckpt_save_num cfg
      \<and> (\<exists>loader total_it. merged_loader coll cfg train_loader = Inr (loader, total_it)
            \<and> (\<forall>k mid. run_epochs coll cfg loader total_it
                           (take k [start_epoch cfg..total_epochs cfg - 1])
                           (run_init cfg loader s) = Inr mid
                  \<longrightarrow> int (epoch_ckpt_count (ckpt_save_dir cfg) (disk mid))
                        \<le> max_ckpt_save_num cfg)))"
proof (rule conjI; rule impI)
  let ?D = "ckpt_save_dir cfg"
  assume a: "save_trained_model coll cfg cur_epoch st = Inr st'"
  show "if (cur_epoch + 1) mod ckpt_save_interval cfg = 0 \<and> rank cfg = 0
       then int (epoch_ckpt_count ?D (disk st')) \<le> max_ckpt_save_num cfg
            \<and> disk st' = save_checkpoint (torch_version coll) (epoch_file_time coll (cur_epoch + 1))
                 (checkpoint_state (pcdet_version coll) (Some (cur_model st))
                    (Some (cur_optimizer st)) (Some (cur_epoch + 1)) (Some (accumulated_iter st)))
                 (path_join ?D (''checkpoint_epoch_'' @ show_int (cur_epoch + 1)))
                 (filter (\<lambda>(n, g). n \<notin> set (take (sweep_count cfg (disk st))
                                                (map fst (sorted_ckpts ?D (disk st)))))
                    (disk st))
            \<and> (\<forall>x \<in> set (take (sweep_count cfg (disk st)) (sorted_ckpts ?D (disk st))).
                 \<forall>y \<in> set (drop (sweep_count cfg (disk st)) (sorted_ckpts ?D (disk st))).
                   mtime (snd x) \<le> mtime (snd y))
       else st' = st"
  proof (cases "(cur_epoch + 1) mod ckpt_save_interval cfg = 0 \<and> rank cfg = 0")
    case True
    with save_trained_model_cases[OF a] save_trained_model_count[OF a True assms]
      oldest_first[of "sweep_count cfg (disk st)" ?D "disk st"]
    show ?thesis by simp
  next
    case False
    from save_trained_model_cases[OF a] have "st' = st" by (simp only: False if_False)
    then show ?thesis by (simp only: False if_False)
  qed
next
  let ?D = "ckpt_save_dir cfg"
  assume "train_model coll cfg train_loader s = Inr s'
        \<and> int (epoch_ckpt_count ?D (disk s)) \<le> max_ckpt_save_num cfg"
  then have t: "train_model coll cfg train_loader s = Inr s'"
    and c: "int (epoch_ckpt_count ?D (disk s)) \<le> max_ckpt_save_num cfg" by simp_all
  from t obtain loader total_it where
    m: "merged_loader coll cfg train_loader = Inr (loader, total_it)" and
    r: "run_epochs coll cfg loader total_it [start_epoch cfg..total_epochs cfg - 1]
          (run_init cfg loader s) = Inr s'"
    unfolding train_model_Inr_iff by blast
  have part: "int (epoch_ckpt_count ?D (disk mid)) \<le> max_ckpt_save_num cfg"
    if "run_epochs coll cfg loader total_it es (run_init cfg loader s) = Inr mid" for es mid
    using c by (intro run_epochs_count[OF that _ assms]) (simp add: run_init_fields)
  from part[OF r] have "int (epoch_ckpt_count ?D (disk s')) \<le> max_ckpt_save_num cfg" .
  moreover from m part have
    "\<exists>loader total_it. merged_loader coll cfg train_loader = Inr (loader, total_it)
            \<and> (\<forall>k mid. run_epochs coll cfg loader total_it
                           (take k [start_epoch cfg..total_epochs cfg - 1])
                           (run_init cfg loader s) = Inr mid
                  \<longrightarrow> int (epoch_ckpt_count ?D (disk mid)) \<le> max_ckpt_save_num cfg)"
    by blast
  ultimately show "int (epoch_ckpt_count ?D (disk s')) \<le> max_ckpt_save_num cfg
      \<and> (\<exists>loader total_it. merged_loader coll cfg train_loader = Inr (loader, total_it)
            \<and> (\<forall>k mid. run_epochs coll cfg loader total_it
                           (take k [start_epoch cfg..total_epochs cfg - 1])
                           (run_init cfg loader s) = Inr mid
                  \<longrightarrow> int (epoch_ckpt_count ?D (disk mid)) \<le> max_ckpt_save_num cfg))"
    by (rule conjI)
qed

text \<open>
  In the directory \<^verbatim>\<open>output/ckpt\<close>, keeping two checkpoints: the save at the end of
  the third epoch lists the checkpoints of the epochs 1 and 2, deletes the one of
  epoch 1 and writes the one of epoch 3.
\<close>

lemma retention_in_plain_directory_example:
  "\<not> has_magic (ckpt_save_dir keep_two_cfg)
   \<and> map fst (sorted_ckpts ''output/ckpt'' demo_disk)
       = [''output/ckpt/checkpoint_epoch_1.pth'', ''output/ckpt/checkpoint_epoch_2.pth'']
   \<and> sweep_count keep_two_cfg demo_disk = 1
   \<and> map fst (disk (projr (save_trained_model demo_coll keep_two_cfg 2
                              (demo_state\<lparr>disk := demo_disk\<rparr>))))
       = [''output/ckpt/checkpoint_epoch_2.pth'', ''output/ckpt/latest_model.pth'',
          ''output/ckpt/checkpoint_epoch_3.pth'']
   \<and> int (epoch_ckpt_count ''output/ckpt''
             (disk (projr (save_trained_model demo_coll keep_two_cfg 2
                             (demo_state\<lparr>disk := demo_disk\<rparr>))))) \<le> 2"
proof -
  let ?st = "demo_state\<lparr>disk := demo_disk\<rparr>"
  let ?r = "save_trained_model demo_coll keep_two_cfg 2 ?st"
  have c: "ckpt_save_dir keep_two_cfg = ''output/ckpt''" "max_ckpt_save_num keep_two_cfg = 2"
    "ckpt_save_interval keep_two_cfg = 1" "rank keep_two_cfg = 0"
    by (simp_all add: keep_two_cfg_def demo_cfg_def)
  have plain: "\<not> has_magic (ckpt_save_dir keep_two_cfg)"
    by (simp add: c has_magic_def)
  have so: "map fst (sorted_ckpts ''output/ckpt'' demo_disk)
              = [''output/ckpt/checkpoint_epoch_1.pth'', ''output/ckpt/checkpoint_epoch_2.pth'']"
    by (simp add: sorted_ckpts_def glob_glob_def demo_disk_def glob_match_def path_join_def
          comp_match_def has_magic_def fnmatch_def)
  from arg_cong[OF so, of length] have sw: "sweep_count keep_two_cfg demo_disk = 1"
    by (simp add: sweep_count_def c)
  have d: "disk ?st = demo_disk" by simp
  have r: "?r = Inr (?st
             \<lparr>disk := save_checkpoint (torch_version demo_coll) (epoch_file_time demo_coll (2 + 1))
                        (checkpoint_state (pcdet_version demo_coll) (Some (cur_model ?st))
                           (Some (cur_optimizer ?st)) (Some (2 + 1)) (Some (accumulated_iter ?st)))
                        (path_join ''output/ckpt'' (''checkpoint_epoch_'' @ show_int (2 + 1)))
                        (os_remove ''output/ckpt/checkpoint_epoch_1.pth'' demo_disk)\<rparr>)"
    unfolding save_trained_model_def Let_def c d so by (simp add: bind_err_def upto.simps)
  have names: "map fst (disk (projr ?r))
       = [''output/ckpt/checkpoint_epoch_2.pth'', ''output/ckpt/latest_model.pth'',
          ''output/ckpt/checkpoint_epoch_3.pth'']"
    unfolding r
    by (simp add: save_checkpoint_def torch_save_def os_remove_def demo_disk_def path_join_def
          show_int_def Let_def)
  from r have h: "?r = Inr (projr ?r)" by simp
  have cond: "(2 + 1) mod ckpt_save_interval keep_two_cfg = 0 \<and> rank keep_two_cfg = 0"
    by (simp add: c)
  from retention_in_plain_directory[OF plain, THEN conjunct1, THEN mp, OF h, unfolded if_P[OF cond]]
  have "int (epoch_ckpt_count (ckpt_save_dir keep_two_cfg) (disk (projr ?r)))
          \<le> max_ckpt_save_num keep_two_cfg"
    by (rule conjunct1)
  then have "int (epoch_ckpt_count ''output/ckpt'' (disk (projr ?r))) \<le> 2"
    unfolding c .
  with plain so sw names show ?thesis by (intro conjI)
qed

text \<open>
  C2 fails on the code. The sweep hands the whole path, directory and all, to
  \<^verbatim>\<open>glob.glob\<close>, which reads the brackets of a directory name as a character
  class. With the checkpoint directory \<^verbatim>\<open>run[v2]/ckpt\<close>, keeping one checkpoint, and
  the checkpoint of epoch 1 on disk, the save at the end of the second epoch on the
  lead worker lists no file, deletes none and writes the checkpoint of epoch 2: the
  directory then holds two checkpoints of epochs.
\<close>

theorem retention_misses_bracket_directory:
  "\<not> isl (save_trained_model demo_coll bracket_cfg 1 (demo_state\<lparr>disk := bracket_disk\<rparr>))
   \<and> ckpt_save_dir bracket_cfg = ''run[v2]/ckpt''
   \<and> max_ckpt_save_num bracket_cfg = 1
   \<and> (1 + 1) mod ckpt_save_interval bracket_cfg = 0
   \<and> rank bracket_cfg = 0
   \<and> map fst bracket_disk = [''run[v2]/ckpt/checkpoint_epoch_1.pth'']
   \<and> epoch_ckpt_count ''run[v2]/ckpt'' bracket_disk = 1
   \<and> sorted_ckpts ''run[v2]/ckpt'' bracket_disk = []
   \<and> map fst (disk (projr (save_trained_model demo_coll bracket_cfg 1
                              (demo_state\<lparr>disk := bracket_disk\<rparr>))))
       = [''run[v2]/ckpt/checkpoint_epoch_1.pth'', ''run[v2]/ckpt/checkpoint_epoch_2.pth'']
   \<and> epoch_ckpt_count ''run[v2]/ckpt''
        (disk (projr (save_trained_model demo_coll bracket_cfg 1
                        (demo_state\<lparr>disk := bracket_disk\<rparr>)))) = 2"
proof -
  let ?r = "save_trained_model demo_coll bracket_cfg 1 (demo_state\<lparr>disk := bracket_disk\<rparr>)"
  have c: "ckpt_save_dir bracket_cfg = ''run[v2]/ckpt''" "max_ckpt_save_num bracket_cfg = 1"
    "(1 + 1) mod ckpt_save_interval bracket_cfg = 0" "rank bracket_cfg = 0"
    "ckpt_save_interval bracket_cfg = 1"
    by (simp_all add: bracket_cfg_def demo_cfg_def)
  have m: "\<not> glob_match (path_join ''run[v2]/ckpt'' ''checkpoint_epoch_*.pth'')
              ''run[v2]/ckpt/checkpoint_epoch_1.pth''"
    by (simp add: glob_match_def path_join_def comp_match_def has_magic_def fnmatch_def
          bracket_closes_def in_class_def)
  have so: "sorted_ckpts ''run[v2]/ckpt'' bracket_disk = []"
    using m by (simp add: sorted_ckpts_def glob_glob_def bracket_disk_def)
  have e1: "is_epoch_ckpt ''run[v2]/ckpt'' ''run[v2]/ckpt/checkpoint_epoch_1.pth''"
    and e2: "is_epoch_ckpt ''run[v2]/ckpt'' ''run[v2]/ckpt/checkpoint_epoch_2.pth''"
    by (simp_all add: is_epoch_ckpt_def comp_match_def has_magic_def fnmatch_def)
  have n: "map fst bracket_disk = [''run[v2]/ckpt/checkpoint_epoch_1.pth'']"
    by (simp add: bracket_disk_def)
  have c1: "epoch_ckpt_count ''run[v2]/ckpt'' bracket_disk = 1"
    using e1 by (simp add: epoch_ckpt_count_def bracket_disk_def)
  have d: "disk (demo_state\<lparr>disk := bracket_disk\<rparr>) = bracket_disk" by simp
  have r: "?r = Inr ((demo_state\<lparr>disk := bracket_disk\<rparr>)
             \<lparr>disk := save_checkpoint (torch_version demo_coll) (epoch_file_time demo_coll (1 + 1))
                        (checkpoint_state (pcdet_version demo_coll)
                           (Some (cur_model (demo_state\<lparr>disk := bracket_disk\<rparr>)))
                           (Some (cur_optimizer (demo_state\<lparr>disk := bracket_disk\<rparr>)))
                           (Some (1 + 1))
                           (Some (accumulated_iter (demo_state\<lparr>disk := bracket_disk\<rparr>))))
                        (path_join ''run[v2]/ckpt'' (''checkpoint_epoch_'' @ show_int (1 + 1)))
                        bracket_disk\<rparr>)"
    unfolding save_trained_model_def Let_def c d so by (simp add: bind_err_def)
  have names: "map fst (disk (projr ?r))
                 = [''run[v2]/ckpt/checkpoint_epoch_1.pth'', ''run[v2]/ckpt/checkpoint_epoch_2.pth'']"
    unfolding r
    by (simp add: save_checkpoint_def torch_save_def bracket_disk_def path_join_def show_int_def
          Let_def)
  have "epoch_ckpt_count ''run[v2]/ckpt'' (disk (projr ?r))
          = length (filter (is_epoch_ckpt ''run[v2]/ckpt'') (map fst (disk (projr ?r))))"
    by (simp add: epoch_ckpt_count_def filter_map comp_def case_prod_unfold)
  also have "\<dots> = 2" unfolding names using e1 e2 by simp
  finally have c2: "epoch_ckpt_count ''run[v2]/ckpt'' (disk (projr ?r)) = 2" .
  from r have "\<not> isl ?r" by simp
  with c(1-4) n c1 so names c2 show ?thesis by (intro conjI)
qed

end
